(* ===== verification/F64.thy ===== *)
theory F64
  imports Complex_Main "HOL-Library.Log_Nat"
begin

text \<open>
  Rust's \<open>f64\<close> and the parts of \<open>std\<close> that move between it, strings and \<open>Duration\<close>.

  A finite double is the rational number it denotes; every arithmetic operation is the exact
  rational operation followed by \<open>rnd\<close>, the IEEE-754 binary64 rounding (nearest, ties to even,
  53 significant bits, gradual underflow at \<open>2\<^sup>-\<^sup>1\<^sup>0\<^sup>7\<^sup>4\<close>, overflow to an infinity). The two zeros
  are identified. The lemmas establish what the policy code relies on: rounding is monotone
  (\<open>rnd_rat_mono\<close>), is exact on every number that fits 53 bits (\<open>rnd_rat_exact\<close>), and commutes
  with negation.
\<close>

section \<open>Binary64 rounding\<close>

text \<open>The binary exponent of a positive rational, computed from numerator and denominator.\<close>

definition ilog2 :: "rat \<Rightarrow> int" where
  "ilog2 x = (let (n, d) = quotient_of x; k = bitlen n - bitlen d
              in if 2 powi k \<le> x then k else k - 1)"

definition round_even :: "rat \<Rightarrow> int" where
  "round_even x =
     (let f = \<lfloor>x\<rfloor>; r = x - of_int f
      in if r < 1 / 2 then f else if 1 / 2 < r then f + 1 else if even f then f else f + 1)"

definition ulp_exp :: "rat \<Rightarrow> int" where
  "ulp_exp x = max (ilog2 \<bar>x\<bar> - 52) (- 1074)"

definition rnd_rat :: "rat \<Rightarrow> rat" where
  "rnd_rat x = (if x = 0 then 0
                else of_int (round_even (x / 2 powi ulp_exp x)) * 2 powi ulp_exp x)"

text \<open>The doubles. \<open>Fin q\<close> is a finite double with the value \<open>q\<close>.\<close>

datatype f64 = NaN | PosInf | NegInf | Fin rat

definition rnd :: "rat \<Rightarrow> f64" where
  "rnd x = (let r = rnd_rat x
            in if 2 ^ 1024 \<le> r then PosInf else if r \<le> - (2 ^ 1024) then NegInf else Fin r)"

definition is_finite :: "f64 \<Rightarrow> bool" where
  "is_finite a = (case a of Fin _ \<Rightarrow> True | _ \<Rightarrow> False)"

text \<open>IEEE comparison: every comparison with a NaN is false.\<close>

instantiation f64 :: ord
begin

fun less_eq_f64 :: "f64 \<Rightarrow> f64 \<Rightarrow> bool" where
  "less_eq_f64 NaN b = False"
| "less_eq_f64 a NaN = False"
| "less_eq_f64 NegInf b = True"
| "less_eq_f64 a PosInf = True"
| "less_eq_f64 (Fin a) (Fin b) = (a \<le> b)"
| "less_eq_f64 PosInf b = False"
| "less_eq_f64 (Fin a) NegInf = False"

definition less_f64 :: "f64 \<Rightarrow> f64 \<Rightarrow> bool" where
  "less_f64 a b = (a \<le> b \<and> \<not> b \<le> a)"

instance ..

end

definition f64_eq :: "f64 \<Rightarrow> f64 \<Rightarrow> bool" where
  "f64_eq a b = (a = b \<and> a \<noteq> NaN)"

fun f64_neg :: "f64 \<Rightarrow> f64" where
  "f64_neg NaN = NaN"
| "f64_neg PosInf = NegInf"
| "f64_neg NegInf = PosInf"
| "f64_neg (Fin q) = Fin (- q)"

fun f64_add :: "f64 \<Rightarrow> f64 \<Rightarrow> f64" where
  "f64_add (Fin a) (Fin b) = rnd (a + b)"
| "f64_add NaN b = NaN"
| "f64_add a NaN = NaN"
| "f64_add PosInf NegInf = NaN"
| "f64_add NegInf PosInf = NaN"
| "f64_add (Fin _) b = b"
| "f64_add a _ = a"

text \<open>\<open>f64_signed_inf\<close>: the infinity with the sign of \<open>s\<close>; an infinity times zero is NaN.\<close>

definition f64_signed_inf :: "rat \<Rightarrow> f64" where
  "f64_signed_inf s = (if s = 0 then NaN else if 0 < s then PosInf else NegInf)"

fun f64_sign :: "f64 \<Rightarrow> rat" where
  "f64_sign (Fin q) = sgn q"
| "f64_sign PosInf = 1"
| "f64_sign NegInf = - 1"
| "f64_sign NaN = 0"

fun f64_mul :: "f64 \<Rightarrow> f64 \<Rightarrow> f64" where
  "f64_mul (Fin a) (Fin b) = rnd (a * b)"
| "f64_mul NaN b = NaN"
| "f64_mul a NaN = NaN"
| "f64_mul a b = f64_signed_inf (f64_sign a * f64_sign b)"

text \<open>Division by the non-zero constant \<open>d\<close>, the only division the program performs.\<close>

fun f64_div_const :: "f64 \<Rightarrow> rat \<Rightarrow> f64" where
  "f64_div_const (Fin a) d = rnd (a / d)"
| "f64_div_const NaN d = NaN"
| "f64_div_const a d = f64_signed_inf (f64_sign a * sgn d)"

text \<open>\<open>f64::round\<close>: to the nearest integer, halves away from zero.\<close>

definition round_away :: "rat \<Rightarrow> int" where
  "round_away x = (if 0 \<le> x then \<lfloor>x + 1 / 2\<rfloor> else - \<lfloor>1 / 2 - x\<rfloor>)"

fun f64_round :: "f64 \<Rightarrow> f64" where
  "f64_round (Fin q) = Fin (of_int (round_away q))"
| "f64_round a = a"

text \<open>\<open>f64::min\<close>: a NaN operand is ignored.\<close>

definition f64_min :: "f64 \<Rightarrow> f64 \<Rightarrow> f64" where
  "f64_min a b = (if a = NaN then b else if b = NaN then a else if a \<le> b then a else b)"

section \<open>Durations\<close>

text \<open>
  \<open>std::time::Duration\<close> and \<open>Instant\<close> as nanosecond counts. \<open>from_secs_f64\<close> is \<open>None\<close> where the
  Rust function panics: on a negative, non-finite or too large argument.
\<close>

type_synonym duration = nat

abbreviation nanos_per_sec :: nat where
  "nanos_per_sec \<equiv> 1000000000"

definition from_secs :: "nat \<Rightarrow> duration" where
  "from_secs s = s * nanos_per_sec"

definition from_millis :: "nat \<Rightarrow> duration" where
  "from_millis ms = ms * 1000000"

definition as_secs_f64 :: "duration \<Rightarrow> f64" where
  "as_secs_f64 d = f64_add (rnd (of_nat (d div nanos_per_sec)))
                           (f64_div_const (rnd (of_nat (d mod nanos_per_sec))) 1000000000)"

fun from_secs_f64 :: "f64 \<Rightarrow> duration option" where
  "from_secs_f64 (Fin q) =
     (let ns = round_even (q * 1000000000)
      in if q < 0 \<or> int (2 ^ 64 * nanos_per_sec) \<le> ns then None else Some (nat ns))"
| "from_secs_f64 _ = None"

declare from_secs_f64.simps [simp del]

section \<open>Facts about the rounding\<close>

lemma bitlen_sandwich:
  assumes "0 < n"
  shows "(2::rat) powi (bitlen n - 1) \<le> of_int n" and "of_int n < (2::rat) powi bitlen n"
proof -
  have b: "2 ^ nat (bitlen n - 1) \<le> n" "n < 2 ^ nat (bitlen n)"
    using bitlen_bounds[OF assms] by auto
  have p: "0 < bitlen n" using assms bitlen_nonneg[of n] bitlen_eq_zero_iff[of n] by force
  have "(of_int (2 ^ nat (bitlen n - 1)) :: rat) \<le> of_int n" using b(1) by (simp only: of_int_le_iff)
  then show "(2::rat) powi (bitlen n - 1) \<le> of_int n" using p by (simp add: power_int_def)
  have "(of_int n :: rat) < of_int (2 ^ nat (bitlen n))" using b(2) by (simp only: of_int_less_iff)
  then show "of_int n < (2::rat) powi bitlen n" using p by (simp add: power_int_def)
qed

lemma ilog2_bounds:
  assumes "0 < x"
  shows "2 powi ilog2 x \<le> x" and "x < 2 powi (ilog2 x + 1)"
proof -
  obtain n d where q: "quotient_of x = (n, d)" by (cases "quotient_of x")
  have d: "0 < d" and x: "x = of_int n / of_int d"
    using quotient_of_denom_pos[OF q] quotient_of_div[OF q] by auto
  have n: "0 < n" using assms x d by (simp add: zero_less_divide_iff)
  let ?k = "bitlen n - bitlen d"
  have "x < 2 powi bitlen n / 2 powi (bitlen d - 1)"
    unfolding x using bitlen_sandwich[OF n] bitlen_sandwich[OF d] d n
    by (intro frac_less) auto
  also have "\<dots> = 2 powi (?k + 1)" by (simp add: power_int_diff power_int_add)
  finally have up: "x < 2 powi (?k + 1)" .
  have "2 powi (bitlen n - 1) / 2 powi bitlen d < x"
    unfolding x using bitlen_sandwich[OF n] bitlen_sandwich[OF d] d n
    by (intro frac_less2) auto
  moreover have "2 powi (bitlen n - 1) / 2 powi bitlen d = (2::rat) powi (?k - 1)"
    by (simp add: power_int_diff power_int_add)
  ultimately have lo: "2 powi (?k - 1) < x" by simp
  show "2 powi ilog2 x \<le> x" "x < 2 powi (ilog2 x + 1)"
    using up lo by (auto simp: ilog2_def q Let_def)
qed

lemma ilog2_mono:
  assumes "0 < x" "x \<le> y" shows "ilog2 x \<le> ilog2 y"
proof (rule ccontr)
  assume "\<not> ilog2 x \<le> ilog2 y"
  then have "(2::rat) powi (ilog2 y + 1) \<le> 2 powi ilog2 x"
    by (intro power_int_increasing) auto
  with ilog2_bounds(2)[of y] ilog2_bounds(1)[of x] assms show False by force
qed

lemma round_even_of_int [simp]: "round_even (of_int n) = n"
  by (simp add: round_even_def)

lemma round_even_mono: assumes "x \<le> y" shows "round_even x \<le> round_even y"
proof (cases "\<lfloor>x\<rfloor> = \<lfloor>y\<rfloor>")
  case True
  with assms show ?thesis by (auto simp: round_even_def Let_def)
next
  case False
  with floor_mono[OF assms] have "\<lfloor>x\<rfloor> + 1 \<le> \<lfloor>y\<rfloor>" by linarith
  then show ?thesis by (auto simp: round_even_def Let_def)
qed

lemma round_even_minus: "round_even (- x) = - round_even x"
proof -
  obtain f r where x: "x = of_int f + r" and r: "0 \<le> r" "r < 1"
    by (rule that[of "\<lfloor>x\<rfloor>" "x - of_int \<lfloor>x\<rfloor>"]) (auto simp: floor_less_iff, linarith)
  have fx: "\<lfloor>x\<rfloor> = f" using x r by (simp add: floor_eq_iff)
  show ?thesis
  proof (cases "r = 0")
    case True
    then show ?thesis using x round_even_of_int[of f] round_even_of_int[of "- f"] by simp
  next
    case False
    have "\<lfloor>- x\<rfloor> = - f - 1" using x r False by (simp add: floor_eq_iff)
    then show ?thesis using fx x r False by (auto simp: round_even_def Let_def)
  qed
qed

lemma rnd_rat_zero [simp]: "rnd_rat 0 = 0"
  by (simp add: rnd_rat_def)

lemma ulp_exp_minus [simp]: "ulp_exp (- x) = ulp_exp x"
  by (simp add: ulp_exp_def)

lemma rnd_rat_minus: "rnd_rat (- x) = - rnd_rat x"
  using round_even_minus[of "x / 2 powi ulp_exp x"] by (simp add: rnd_rat_def)

lemma rnd_rat_grid:
  assumes "x \<noteq> 0"
  shows "x \<le> of_int m * 2 powi ulp_exp x \<Longrightarrow> rnd_rat x \<le> of_int m * 2 powi ulp_exp x"
    and "of_int m * 2 powi ulp_exp x \<le> x \<Longrightarrow> of_int m * 2 powi ulp_exp x \<le> rnd_rat x"
    and "x = of_int m * 2 powi ulp_exp x \<Longrightarrow> rnd_rat x = x"
proof -
  let ?u = "(2::rat) powi ulp_exp x"
  have u: "0 < ?u" by simp
  show "rnd_rat x \<le> of_int m * ?u" if "x \<le> of_int m * ?u"
  proof -
    have "x / ?u \<le> of_int m" using that u by (simp add: pos_divide_le_eq)
    from round_even_mono[OF this] show ?thesis using u assms by (simp add: rnd_rat_def)
  qed
  show "of_int m * ?u \<le> rnd_rat x" if "of_int m * ?u \<le> x"
  proof -
    have "of_int m \<le> x / ?u" using that u by (simp add: pos_le_divide_eq)
    from round_even_mono[OF this] show ?thesis using u assms by (simp add: rnd_rat_def)
  qed
  show "rnd_rat x = x" if "x = of_int m * ?u"
  proof -
    have "x / ?u = of_int m" using that u by (simp add: nonzero_divide_eq_eq)
    then show ?thesis using that assms by (simp add: rnd_rat_def)
  qed
qed

lemma powi_of_int: "0 \<le> k \<Longrightarrow> (2::rat) powi k = of_int (2 ^ nat k)"
  by (simp add: power_int_def)

lemma rnd_rat_exact:
  assumes "\<bar>m\<bar> < 2 ^ 53" "- 1074 \<le> k"
  shows "rnd_rat (of_int m * 2 powi k) = of_int m * 2 powi k"
proof (cases "m = 0")
  case False
  let ?x = "of_int m * (2::rat) powi k"
  have pos: "0 < \<bar>?x\<bar>" using False by simp
  have "(of_int \<bar>m\<bar> :: rat) < 2 ^ 53" using assms(1) by (metis of_int_less_iff of_int_numeral of_int_power)
  then have "\<bar>?x\<bar> < 2 ^ 53 * 2 powi k" by (simp add: abs_mult)
  also have "\<dots> = 2 powi (k + 53)" by (simp add: power_int_add)
  finally have "2 powi ilog2 \<bar>?x\<bar> < (2::rat) powi (k + 53)"
    using ilog2_bounds(1)[OF pos] by simp
  then have "ilog2 \<bar>?x\<bar> < k + 53"
    by (metis linorder_not_less one_le_numeral power_int_increasing)
  then have e: "ulp_exp ?x \<le> k" using assms(2) by (simp add: ulp_exp_def)
  have "?x = of_int (m * 2 ^ nat (k - ulp_exp ?x)) * 2 powi ulp_exp ?x"
  proof -
    have "(2::rat) powi k = 2 powi (k - ulp_exp ?x) * 2 powi ulp_exp ?x"
      by (simp flip: power_int_add)
    then show ?thesis using e powi_of_int[of "k - ulp_exp ?x"] by simp
  qed
  with False show ?thesis by (intro rnd_rat_grid(3)[where m = "m * 2 ^ nat (k - ulp_exp ?x)"]) auto
qed simp

lemma rnd_rat_of_int: "\<bar>n\<bar> < 2 ^ 53 \<Longrightarrow> rnd_rat (of_int n) = of_int n"
  using rnd_rat_exact[of n 0] by simp

lemma rnd_rat_pos: "0 \<le> x \<Longrightarrow> 0 \<le> rnd_rat x"
  using rnd_rat_grid(2)[of x 0] by (cases "x = 0") auto

lemma rnd_rat_mono_pos:
  assumes "0 < x" "x \<le> y" shows "rnd_rat x \<le> rnd_rat y"
proof (cases "ulp_exp x = ulp_exp y")
  case True
  have "x / 2 powi ulp_exp x \<le> y / 2 powi ulp_exp x" using assms by (simp add: divide_right_mono)
  from round_even_mono[OF this] show ?thesis using assms True by (simp add: rnd_rat_def)
next
  case False
  have il: "ilog2 x \<le> ilog2 y" using ilog2_mono assms by simp
  with False assms have ey: "ulp_exp y = ilog2 y - 52" and ex: "ulp_exp x \<le> ilog2 y"
    and lt: "ilog2 x + 1 \<le> ilog2 y"
    by (auto simp: ulp_exp_def)
  let ?B = "(2::rat) powi ilog2 y"
  have "x < 2 powi (ilog2 x + 1)" using ilog2_bounds(2) assms by simp
  also have "\<dots> \<le> ?B" using lt by (intro power_int_increasing) auto
  finally have "x \<le> ?B" by simp
  moreover have Bx: "?B = of_int (2 ^ nat (ilog2 y - ulp_exp x)) * 2 powi ulp_exp x"
  proof -
    have "?B = 2 powi (ilog2 y - ulp_exp x) * 2 powi ulp_exp x" by (simp flip: power_int_add)
    then show ?thesis using ex powi_of_int[of "ilog2 y - ulp_exp x"] by simp
  qed
  ultimately have l: "rnd_rat x \<le> ?B" using rnd_rat_grid(1)[of x "2 ^ nat (ilog2 y - ulp_exp x)"] assms by simp
  have By: "?B = of_int (2 ^ 52) * 2 powi ulp_exp y" by (simp add: ey power_int_diff)
  have "?B \<le> y" using ilog2_bounds(1) assms by simp
  then have "?B \<le> rnd_rat y" using rnd_rat_grid(2)[of y "2 ^ 52"] By assms by simp
  with l show ?thesis by simp
qed

lemma rnd_rat_mono:
  assumes "x \<le> y" shows "rnd_rat x \<le> rnd_rat y"
proof (cases "0 < x")
  case True
  then show ?thesis using rnd_rat_mono_pos assms by simp
next
  case x: False
  show ?thesis
  proof (cases "0 \<le> y")
    case True
    then show ?thesis using rnd_rat_pos[of y] rnd_rat_pos[of "- x"] x by (simp add: rnd_rat_minus)
  next
    case False
    then show ?thesis using rnd_rat_mono_pos[of "- y" "- x"] assms by (simp add: rnd_rat_minus)
  qed
qed

lemma f64_less_iff [simp]: "Fin a < Fin b \<longleftrightarrow> a < b"
  by (auto simp: less_f64_def)

lemma less_eq_Fin_left: "Fin a \<le> b \<Longrightarrow> is_finite b \<Longrightarrow> \<exists>q. b = Fin q \<and> a \<le> q"
  by (cases b) (auto simp: is_finite_def)

lemma is_finite_iff: "is_finite a \<longleftrightarrow> (\<exists>q. a = Fin q)"
  by (cases a) (auto simp: is_finite_def)

lemma round_away_mono:
  assumes "x \<le> y" shows "round_away x \<le> round_away y"
proof -
  have "0 \<le> \<lfloor>y + 1 / 2\<rfloor>" if "0 \<le> y" using that by simp
  moreover have "0 \<le> \<lfloor>1 / 2 - x\<rfloor>" if "x < 0" using that by simp
  moreover have "\<lfloor>x + 1 / 2\<rfloor> \<le> \<lfloor>y + 1 / 2\<rfloor>" "\<lfloor>1 / 2 - y\<rfloor> \<le> \<lfloor>1 / 2 - x\<rfloor>"
    using assms by (auto intro: floor_mono)
  ultimately show ?thesis
    using assms by (cases "0 \<le> x"; cases "0 \<le> y"; simp add: round_away_def del: zero_le_floor)
qed

lemma round_away_near: "\<bar>of_int (round_away x) - x\<bar> \<le> 1 / 2"
proof -
  have f: "of_int \<lfloor>z\<rfloor> \<le> z" "z < of_int \<lfloor>z\<rfloor> + 1" for z :: rat
    using floor_correct[of z] by auto
  show ?thesis
  proof (cases "0 \<le> x")
    case True
    then have "round_away x = \<lfloor>x + 1 / 2\<rfloor>" by (simp add: round_away_def)
    then show ?thesis using f[of "x + 1 / 2"] by linarith
  next
    case False
    then have "round_away x = - \<lfloor>1 / 2 - x\<rfloor>" by (simp add: round_away_def)
    then show ?thesis using f[of "1 / 2 - x"] by linarith
  qed
qed

lemma rnd_mono: "x \<le> y \<Longrightarrow> rnd x \<le> rnd y"
  using rnd_rat_mono[of x y] by (auto simp: rnd_def Let_def)

lemma rnd_infinities [simp]: "NegInf \<le> rnd x" "rnd x \<le> PosInf"
  by (auto simp: rnd_def Let_def)

lemma rnd_of_int: assumes "\<bar>n\<bar> < 2 ^ 53" shows "rnd (of_int n) = Fin (of_int n)"
proof -
  have "(2::rat) ^ 53 < 2 ^ 1024" by (rule power_strict_increasing) auto
  moreover have "(of_int \<bar>n\<bar> :: rat) < 2 ^ 53"
    using assms by (metis of_int_less_iff of_int_numeral of_int_power)
  ultimately have "\<bar>of_int n :: rat\<bar> < 2 ^ 1024" by simp
  then show ?thesis using rnd_rat_of_int[OF assms] by (auto simp: rnd_def Let_def)
qed

lemma rnd_of_nat: "n < 2 ^ 53 \<Longrightarrow> rnd (of_nat n) = Fin (of_nat n)"
  using rnd_of_int[of "int n"] by simp

lemma as_secs_f64_from_secs:
  assumes "s < 2 ^ 53" shows "as_secs_f64 (from_secs s) = Fin (of_nat s)"
  using assms rnd_of_nat[of s] rnd_of_nat[of 0]
  by (simp add: as_secs_f64_def from_secs_def)

lemma from_secs_f64_nat:
  assumes "s < 2 ^ 53" shows "from_secs_f64 (Fin (of_nat s)) = Some (from_secs s)"
proof -
  have r: "round_even (of_nat s * 1000000000) = int (s * nanos_per_sec)"
    using round_even_of_int[of "int (s * nanos_per_sec)"] by simp
  have "s < 2 ^ 64" using assms by (rule order.strict_trans) simp
  then show ?thesis using r by (simp add: from_secs_def from_secs_f64.simps)
qed

end
