(* ===== verification/Prelude.thy ===== *)
theory Prelude
  imports F64 "HOL-Library.Word"
begin

text \<open>
  What the components share: the collections their simplification rules go into, the string
  functions of Rust's \<open>std\<close> that the sources call (on UTF-8 byte strings), decimal printing, and
  three interfaces stated as locales. \<open>evicting_buffer\<close> is the drop-oldest FIFO used for both OCPP
  directions and for MQTT; \<open>generation_registry\<close> is the guarded registration shared by the
  downstream connection table and the command router; \<open>outlet\<close> is a fallible output that records
  what it accepted, the contract of every message sink and of the MQTT request channel.
\<close>

named_theorems record_frame \<open>fields an operation leaves alone\<close>
named_theorems wire_format \<open>how topics, ids and frames are printed\<close>

section \<open>Types used by every component\<close>

text \<open>\<open>DateTime<Utc>\<close> is nanoseconds since the epoch; \<open>HashMap<String, V>\<close> is a finite map.\<close>

type_synonym utc = int
type_synonym u64 = "64 word"
type_synonym 'v hash_map = "string \<rightharpoonup> 'v"

text \<open>
  \<open>chrono::Duration::from_std\<close> fails beyond \<open>i64::MAX\<close> milliseconds; every call in the program
  supplies a fallback.
\<close>

definition chrono_from_std :: "duration \<Rightarrow> duration \<Rightarrow> int" where
  "chrono_from_std fallback d = (if d \<le> (2 ^ 63 - 1) * 1000000 then int d else int fallback)"

definition timestamp_millis :: "utc \<Rightarrow> int" where
  "timestamp_millis t = t div 1000000"

section \<open>Strings\<close>

definition digit_char :: "nat \<Rightarrow> char" where
  "digit_char d = char_of (48 + d)"

definition is_digit :: "char \<Rightarrow> bool" where
  "is_digit c = (48 \<le> (of_char c :: nat) \<and> (of_char c :: nat) \<le> 57)"

fun show_nat :: "nat \<Rightarrow> string" where
  "show_nat n = (if n < 10 then [digit_char n] else show_nat (n div 10) @ [digit_char (n mod 10)])"

declare show_nat.simps [simp del]

definition show_int :: "int \<Rightarrow> string" where
  "show_int i = (if i < 0 then ''-'' @ show_nat (nat (- i)) else show_nat (nat i))"

text \<open>\<open>str::split(c)\<close>: always at least one piece.\<close>

fun split_on :: "char \<Rightarrow> string \<Rightarrow> string list" where
  "split_on c [] = [[]]"
| "split_on c (x # xs) =
     (if x = c then [] # split_on c xs
      else (case split_on c xs of [] \<Rightarrow> [[x]] | w # ws \<Rightarrow> (x # w) # ws))"

fun join_with :: "string \<Rightarrow> string list \<Rightarrow> string" where
  "join_with sep [] = []"
| "join_with sep [w] = w"
| "join_with sep (w # v # ws) = w @ sep @ join_with sep (v # ws)"

definition starts_with :: "string \<Rightarrow> string \<Rightarrow> bool" where
  "starts_with p s = (take (length p) s = p)"

definition ends_with :: "string \<Rightarrow> string \<Rightarrow> bool" where
  "ends_with p s = starts_with (rev p) (rev s)"

definition ascii_lower :: "char \<Rightarrow> char" where
  "ascii_lower c = (let n = (of_char c :: nat) in if 65 \<le> n \<and> n \<le> 90 then char_of (n + 32) else c)"

definition to_ascii_lowercase :: "string \<Rightarrow> string" where
  "to_ascii_lowercase = map ascii_lower"

text \<open>
  \<open>str::trim\<close> removes Unicode white space. \<open>ws_width\<close> is the number of bytes of the white-space
  character that the byte string starts with, 0 if there is none.
\<close>

fun ws_width :: "nat list \<Rightarrow> nat" where
  "ws_width (a # b # c # _) =
     (if 9 \<le> a \<and> a \<le> 13 \<or> a = 32 then 1
      else if a = 194 \<and> (b = 133 \<or> b = 160) then 2
      else if a = 225 \<and> b = 154 \<and> c = 128 then 3
      else if a = 226 \<and> b = 128 \<and> (128 \<le> c \<and> c \<le> 138 \<or> c = 168 \<or> c = 169 \<or> c = 175) then 3
      else if a = 226 \<and> b = 129 \<and> c = 159 then 3
      else if a = 227 \<and> b = 128 \<and> c = 128 then 3
      else 0)"
| "ws_width [a, b] =
     (if 9 \<le> a \<and> a \<le> 13 \<or> a = 32 then 1
      else if a = 194 \<and> (b = 133 \<or> b = 160) then 2 else 0)"
| "ws_width [a] = (if 9 \<le> a \<and> a \<le> 13 \<or> a = 32 then 1 else 0)"
| "ws_width [] = 0"

lemma ws_width_le: "ws_width bs \<le> length bs"
  by (cases bs rule: ws_width.cases) auto

function trim_start :: "string \<Rightarrow> string" where
  "trim_start s = (let k = ws_width (map of_char (take 3 s))
                   in if k = 0 then s else trim_start (drop k s))"
  by pat_completeness auto
termination
proof (relation "measure length")
  fix s :: string and k :: nat
  assume k: "k = ws_width (map of_char (take 3 s))" "k \<noteq> 0"
  have "k \<le> length s" using ws_width_le[of "map of_char (take 3 s)"] k(1) by simp
  with k(2) show "(drop k s, s) \<in> measure length" by simp
qed simp

declare trim_start.simps [simp del]

text \<open>From the back the last one, two or three bytes are looked at.\<close>

definition ws_suffix :: "string \<Rightarrow> nat" where
  "ws_suffix s =
     (let w = (\<lambda>n. n \<le> length s \<and> ws_width (map of_char (drop (length s - n) s)) = n)
      in if w 1 then 1 else if w 2 then 2 else if w 3 then 3 else 0)"

lemma ws_suffix_le: "ws_suffix s \<le> length s"
  by (auto simp: ws_suffix_def Let_def)

function trim_end :: "string \<Rightarrow> string" where
  "trim_end s = (let k = ws_suffix s in if k = 0 then s else trim_end (take (length s - k) s))"
  by pat_completeness auto
termination
proof (relation "measure length")
  fix s :: string and k :: nat
  assume "k = ws_suffix s" "k \<noteq> 0"
  then show "(take (length s - k) s, s) \<in> measure length" using ws_suffix_le[of s] by simp
qed simp

declare trim_end.simps [simp del]

definition trim :: "string \<Rightarrow> string" where
  "trim s = trim_end (trim_start s)"

text \<open>\<open>std::str::from_utf8\<close>: the well-formed byte sequences (no overlong forms, no surrogates).\<close>

definition is_cont :: "nat \<Rightarrow> bool" where
  "is_cont b = (128 \<le> b \<and> b \<le> 191)"

fun utf8_ok :: "nat list \<Rightarrow> bool" where
  "utf8_ok [] = True"
| "utf8_ok (a # bs) =
     (if a < 128 then utf8_ok bs
      else if 194 \<le> a \<and> a \<le> 223 then (case bs of b # r \<Rightarrow> is_cont b \<and> utf8_ok r | _ \<Rightarrow> False)
      else if 224 \<le> a \<and> a \<le> 239 then
        (case bs of b # c # r \<Rightarrow> is_cont b \<and> is_cont c \<and> (a = 224 \<longrightarrow> 160 \<le> b)
            \<and> (a = 237 \<longrightarrow> b \<le> 159) \<and> utf8_ok r | _ \<Rightarrow> False)
      else if 240 \<le> a \<and> a \<le> 244 then
        (case bs of b # c # d # r \<Rightarrow> is_cont b \<and> is_cont c \<and> is_cont d \<and> (a = 240 \<longrightarrow> 144 \<le> b)
            \<and> (a = 244 \<longrightarrow> b \<le> 143) \<and> utf8_ok r | _ \<Rightarrow> False)
      else False)"

definition from_utf8 :: "string \<Rightarrow> string option" where
  "from_utf8 bs = (if utf8_ok (map of_char bs) then Some bs else None)"

text \<open>\<open>str::parse::<f64>()\<close>: \<open>None\<close> where the Rust function returns an error.\<close>

definition digits_value :: "string \<Rightarrow> nat" where
  "digits_value ds = foldl (\<lambda>n c. 10 * n + (of_char c - 48)) 0 ds"

definition parse_exponent :: "string \<Rightarrow> int option" where
  "parse_exponent s =
     (case s of [] \<Rightarrow> Some 0
      | c # r \<Rightarrow>
          if c = CHR ''e'' \<or> c = CHR ''E'' then
            (let neg = (r \<noteq> [] \<and> hd r = CHR ''-'');
                 ds = (if r \<noteq> [] \<and> (hd r = CHR ''-'' \<or> hd r = CHR ''+'') then tl r else r)
             in if ds = [] \<or> \<not> list_all is_digit ds then None
                else Some (if neg then - int (digits_value ds) else int (digits_value ds)))
          else None)"

definition parse_decimal :: "string \<Rightarrow> rat option" where
  "parse_decimal s =
     (let whole = takeWhile is_digit s; rest = dropWhile is_digit s;
          dotted = (rest \<noteq> [] \<and> hd rest = CHR ''.'');
          frac = (if dotted then takeWhile is_digit (tl rest) else []);
          ex = (if dotted then dropWhile is_digit (tl rest) else rest)
      in if whole @ frac = [] then None
         else map_option (\<lambda>e. of_nat (digits_value (whole @ frac)) * 10 powi (e - int (length frac)))
                (parse_exponent ex))"

definition parse_f64 :: "string \<Rightarrow> f64 option" where
  "parse_f64 s =
     (let neg = (s \<noteq> [] \<and> hd s = CHR ''-'');
          r = (if s \<noteq> [] \<and> (hd s = CHR ''-'' \<or> hd s = CHR ''+'') then tl s else s);
          l = to_ascii_lowercase r;
          a = (if l = ''inf'' \<or> l = ''infinity'' then Some PosInf
               else if l = ''nan'' then Some NaN else map_option rnd (parse_decimal r))
      in if neg then map_option f64_neg a else a)"

section \<open>Bounded queues\<close>

text \<open>\<open>if q.len() >= n { q.pop_front(); } q.push_back(x)\<close>\<close>

definition push_evict :: "nat \<Rightarrow> 'a \<Rightarrow> 'a list \<Rightarrow> 'a list" where
  "push_evict n x q = (if n \<le> length q then tl q else q) @ [x]"

text \<open>A queue filled this way never holds more than \<open>n\<close> elements (one, for \<open>n = 0\<close>).\<close>

definition fits :: "nat \<Rightarrow> 'a list \<Rightarrow> bool" where
  "fits n q \<longleftrightarrow> length q \<le> max 1 n"

lemma fits_push_evict: "fits n q \<Longrightarrow> fits n (push_evict n x q)"
  by (auto simp: push_evict_def fits_def)

lemma fits_sub: "fits n q \<Longrightarrow> length q' \<le> length q \<Longrightarrow> fits n q'"
  by (simp add: fits_def)

lemma push_evict_suffix:
  assumes "fits n q"
  shows "push_evict n x q = drop (length q + 1 - max 1 n) (q @ [x])"
proof (cases "n \<le> length q")
  case True
  with assms show ?thesis
    by (cases q) (auto simp: push_evict_def fits_def max_def split: if_splits)
next
  case False
  then show ?thesis by (simp add: push_evict_def)
qed

lemma drop_excess:
  "drop (length (drop (length zs - c) zs) + l - c) (drop (length zs - c) zs @ xs)
     = drop (length zs + l - c) (zs @ xs)"
proof (cases "length zs \<le> c")
  case False
  then have "length zs + l - c = l + (length zs - c)" by simp
  then have "drop (length zs + l - c) (zs @ xs) = drop l (drop (length zs - c) (zs @ xs))"
    by (simp add: drop_drop)
  with False show ?thesis by simp
qed simp

locale evicting_buffer =
  fixes contents :: "'s \<Rightarrow> 'a list"
    and capacity :: "'s \<Rightarrow> nat"
    and add :: "'a \<Rightarrow> 's \<Rightarrow> 's"
  assumes contents_add: "contents (add x s) = push_evict (capacity s) x (contents s)"
    and capacity_add: "capacity (add x s) = capacity s"
begin

lemma fits_add: "fits (capacity s) (contents s) \<Longrightarrow> fits (capacity (add x s)) (contents (add x s))"
  by (simp add: contents_add capacity_add fits_push_evict)

lemma capacity_fold: "capacity (fold add xs s) = capacity s"
  by (induction xs arbitrary: s) (auto simp: capacity_add)

lemma fits_fold:
  "fits (capacity s) (contents s) \<Longrightarrow> fits (capacity s) (contents (fold add xs s))"
  by (induction xs arbitrary: s) (metis fold_simps(1), metis fold_simps(2) fits_add capacity_add)

lemma contents_fold:
  assumes "fits (capacity s) (contents s)"
  shows "contents (fold add xs s) =
           drop (length (contents s) + length xs - max 1 (capacity s)) (contents s @ xs)"
  using assms
proof (induction xs arbitrary: s)
  case Nil
  then show ?case by (simp add: fits_def)
next
  case (Cons x xs)
  let ?c = "max 1 (capacity s)"
  have a: "contents (add x s) = drop (length (contents s) + 1 - ?c) (contents s @ [x])"
    using push_evict_suffix[OF Cons.prems] by (simp add: contents_add)
  have "contents (fold add (x # xs) s)
      = drop (length (contents (add x s)) + length xs - ?c) (contents (add x s) @ xs)"
    using Cons.IH[OF fits_add[OF Cons.prems]] by (simp add: capacity_add)
  also have "\<dots> = drop (length (contents s) + length (x # xs) - ?c) (contents s @ x # xs)"
    using drop_excess[of "contents s @ [x]" ?c "length xs" xs] unfolding a by simp
  finally show ?case .
qed

end

section \<open>Generation-guarded registration\<close>

locale generation_registry =
  fixes entry :: "'s \<Rightarrow> string \<Rightarrow> 'g option"
    and register :: "string \<Rightarrow> 'g \<Rightarrow> 'h \<Rightarrow> 's \<Rightarrow> 's"
    and deregister :: "string \<Rightarrow> 'g \<Rightarrow> 's \<Rightarrow> bool \<times> 's"
  assumes entry_register: "entry (register k g h s) = (entry s)(k \<mapsto> g)"
    and entry_deregister:
      "entry (snd (deregister k g s)) = (if entry s k = Some g then (entry s)(k := None) else entry s)"
    and deregister_flag: "fst (deregister k g s) \<longleftrightarrow> entry s k = Some g"
begin

lemma successor_survives:
  assumes "g \<noteq> g'"
  shows "entry (snd (deregister k g (register k g' h s))) k = Some g'"
    and "\<not> fst (deregister k g (register k g' h s))"
  using assms by (auto simp: entry_register entry_deregister deregister_flag)

lemma own_entry_removed:
  "entry (snd (deregister k g (register k g h s))) k = None"
  "fst (deregister k g (register k g h s))"
  by (auto simp: entry_register entry_deregister deregister_flag)

lemma other_key_untouched:
  "k \<noteq> k' \<Longrightarrow> entry (snd (deregister k g s)) k' = entry s k'"
  "k \<noteq> k' \<Longrightarrow> entry (register k g h s) k' = entry s k'"
  by (auto simp: entry_register entry_deregister)

end

section \<open>Fallible outputs\<close>

text \<open>
  \<open>put s x\<close> offers \<open>x\<close> to the output \<open>s\<close>; the left summand is the error. \<open>taken s\<close> is everything
  the output accepted, in order.
\<close>

locale outlet =
  fixes put :: "'s \<Rightarrow> 'a \<Rightarrow> ('e + unit) \<times> 's"
    and taken :: "'s \<Rightarrow> 'a list"
  assumes taken_put: "taken (snd (put s x)) = (if isl (fst (put s x)) then taken s else taken s @ [x])"

text \<open>
  The loop that empties a buffer through an output: pop the front, send it, and on an error put it
  back and stop. \<open>key\<close> is the part of the element that is sent.
\<close>

fun flush_loop ::
    "('s \<Rightarrow> 'a \<Rightarrow> ('e + unit) \<times> 's) \<Rightarrow> ('b \<Rightarrow> 'a) \<Rightarrow> 'b list \<Rightarrow> 's \<Rightarrow> ('e option \<times> 'b list) \<times> 's" where
  "flush_loop put key [] s = ((None, []), s)"
| "flush_loop put key (x # q) s =
     (case put s (key x) of
        (Inl e, s') \<Rightarrow> ((Some e, x # q), s')
      | (Inr _, s') \<Rightarrow> flush_loop put key q s')"

lemma flush_loop_ok: "fst (fst (flush_loop put key q s)) = None \<Longrightarrow> snd (fst (flush_loop put key q s)) = []"
  by (induction q arbitrary: s) (auto split: prod.splits sum.splits)

lemma flush_loop_suffix: "\<exists>n. snd (fst (flush_loop put key q s)) = drop n q"
proof (induction q arbitrary: s)
  case (Cons x q)
  obtain r s' where p: "put s (key x) = (r, s')" by fastforce
  obtain n where n: "snd (fst (flush_loop put key q s')) = drop n q" using Cons.IH by blast
  show ?case
  proof (cases r)
    case (Inl e)
    with p show ?thesis by (auto intro: exI[of _ 0])
  next
    case (Inr u)
    with p n show ?thesis by (auto intro: exI[of _ "Suc n"])
  qed
qed simp

lemma flush_loop_err_nonempty:
  "fst (fst (flush_loop put key q s)) = Some e \<Longrightarrow> snd (fst (flush_loop put key q s)) \<noteq> []"
  by (induction q arbitrary: s) (auto split: prod.splits sum.splits)

context outlet
begin

lemma flush_conserves:
  "taken (snd (flush_loop put key q s)) @ map key (snd (fst (flush_loop put key q s))) = taken s @ map key q"
proof (induction q arbitrary: s)
  case (Cons x q)
  show ?case
  proof (cases "put s (key x)")
    case (Pair r s')
    then show ?thesis
      using taken_put[of s "key x"] Cons.IH[of s'] by (cases r) auto
  qed
qed simp

lemma flush_all:
  "fst (fst (flush_loop put key q s)) = None \<Longrightarrow> taken (snd (flush_loop put key q s)) = taken s @ map key q"
  using flush_conserves[of key q s] flush_loop_ok[of put key q s] by simp

end

text \<open>
  The documented behaviour of a bounded channel (tokio's \<open>mpsc\<close>, rumqttc's request channel): it
  takes \<open>room\<close> more messages until the receiver makes room, and none once the receiver is gone.
  \<open>passed\<close> is what it took; \<open>offered\<close> records every message handed to it, taken or not.
\<close>

datatype try_send_error = Full | Closed

record 'a channel =
  passed :: "'a list"
  offered :: "'a list"
  room :: nat
  closed :: bool

definition channel_new :: "nat \<Rightarrow> 'a channel" where
  "channel_new n = \<lparr>passed = [], offered = [], room = n, closed = False\<rparr>"

text \<open>\<open>Sender::try_send\<close>, which never waits, and \<open>Sender::send\<close>, which waits for room.\<close>

definition try_send :: "'a channel \<Rightarrow> 'a \<Rightarrow> (try_send_error + unit) \<times> 'a channel" where
  "try_send c x =
     (let c' = c\<lparr>offered := offered c @ [x]\<rparr>
      in if closed c then (Inl Closed, c') else if room c = 0 then (Inl Full, c')
         else (Inr (), c'\<lparr>passed := passed c @ [x], room := room c - 1\<rparr>))"

definition channel_send :: "'a channel \<Rightarrow> 'a \<Rightarrow> (unit + unit) \<times> 'a channel" where
  "channel_send c x =
     (let c' = c\<lparr>offered := offered c @ [x]\<rparr>
      in if closed c then (Inl (), c') else (Inr (), c'\<lparr>passed := passed c @ [x], room := room c - 1\<rparr>))"

interpretation try_channel: outlet try_send passed
  by unfold_locales (simp add: try_send_def Let_def)

interpretation waiting_channel: outlet channel_send passed
  by unfold_locales (simp add: channel_send_def Let_def)

lemma try_send_offered [simp]: "offered (snd (try_send c x)) = offered c @ [x]"
  by (simp add: try_send_def Let_def)

section \<open>Decimal printing and splitting\<close>

lemma is_digit_digit_char: "d < 10 \<Longrightarrow> is_digit (digit_char d)"
  by (simp add: is_digit_def digit_char_def)

lemma digit_char_inj: "d < 10 \<Longrightarrow> e < 10 \<Longrightarrow> digit_char d = digit_char e \<Longrightarrow> d = e"
  by (auto simp: digit_char_def dest!: arg_cong[where f = "of_char :: char \<Rightarrow> nat"])

lemma show_nat_digits: "list_all is_digit (show_nat n)"
proof (induction n rule: show_nat.induct)
  case (1 n)
  then show ?case by (subst show_nat.simps) (auto simp: is_digit_digit_char)
qed

lemma show_nat_nonempty: "show_nat n \<noteq> []"
  by (subst show_nat.simps) simp

lemma show_nat_inj: "show_nat m = show_nat n \<Longrightarrow> m = n"
proof (induction m arbitrary: n rule: show_nat.induct)
  case (1 m)
  show ?case
  proof (cases "m < 10")
    case True
    then have m: "show_nat m = [digit_char m]" by (subst show_nat.simps) simp
    show ?thesis
    proof (cases "n < 10")
      case True
      then have "show_nat n = [digit_char n]" by (subst show_nat.simps) simp
      with m "1.prems" True \<open>m < 10\<close> show ?thesis by (auto intro: digit_char_inj)
    next
      case False
      then have "show_nat n = show_nat (n div 10) @ [digit_char (n mod 10)]"
        by (subst show_nat.simps) simp
      with m "1.prems" show_nat_nonempty[of "n div 10"] show ?thesis by simp
    qed
  next
    case False
    then have m: "show_nat m = show_nat (m div 10) @ [digit_char (m mod 10)]"
      by (subst show_nat.simps) simp
    show ?thesis
    proof (cases "n < 10")
      case True
      then have "show_nat n = [digit_char n]" by (subst show_nat.simps) simp
      with m "1.prems" show_nat_nonempty[of "m div 10"] show ?thesis by simp
    next
      case n: False
      then have "show_nat n = show_nat (n div 10) @ [digit_char (n mod 10)]"
        by (subst show_nat.simps) simp
      with m "1.prems" have "show_nat (m div 10) = show_nat (n div 10)"
        and "digit_char (m mod 10) = digit_char (n mod 10)" by auto
      with "1.IH"[OF False] have "m div 10 = n div 10" and "m mod 10 = n mod 10"
        by (auto intro: digit_char_inj)
      then show ?thesis by (metis div_mult_mod_eq)
    qed
  qed
qed

lemma split_on_nonempty: "split_on c s \<noteq> []"
  by (induction s) (auto split: list.splits)

lemma split_on_none: "c \<notin> set s \<Longrightarrow> split_on c s = [s]"
  by (induction s) auto

lemma split_on_append: "c \<notin> set w \<Longrightarrow> split_on c (w @ c # s) = w # split_on c s"
  by (induction w) auto

lemma join_split_on: "join_with [c] (split_on c s) = s"
proof (induction s)
  case (Cons x s)
  obtain w ws where "split_on c s = w # ws" using split_on_nonempty by (metis list.exhaust)
  with Cons show ?case by (cases ws) auto
qed simp

lemma join_with_Cons: "ws \<noteq> [] \<Longrightarrow> join_with sep (w # ws) = w @ sep @ join_with sep ws"
  by (cases ws) auto

text \<open>The last dash of an id separates its sequence number, so ids with different numbers differ.\<close>

lemma dash_suffix_inj:
  assumes "p @ CHR ''-'' # a = q @ CHR ''-'' # b" "CHR ''-'' \<notin> set a" "CHR ''-'' \<notin> set b"
  shows "a = b"
proof -
  have "rev a = takeWhile (\<lambda>c. c \<noteq> CHR ''-'') (rev (p @ CHR ''-'' # a))"
    using assms(2) by (simp, subst takeWhile_append2) auto
  moreover have "rev b = takeWhile (\<lambda>c. c \<noteq> CHR ''-'') (rev (q @ CHR ''-'' # b))"
    using assms(3) by (simp, subst takeWhile_append2) auto
  ultimately show ?thesis using assms(1) by (metis rev_rev_ident)
qed

lemma dash_not_digit: "list_all is_digit s \<Longrightarrow> CHR ''-'' \<notin> set s"
  by (auto simp: list_all_iff is_digit_def)

lemma starts_with_append [simp]: "starts_with p (p @ s)"
  by (simp add: starts_with_def)

lemma starts_with_iff: "starts_with p s \<longleftrightarrow> (\<exists>r. s = p @ r)"
  by (auto simp: starts_with_def) (metis append_take_drop_id)

end
