(* ===== verification/Json.thy ===== *)
theory Json
  imports Prelude
begin

text \<open>
  The values the proxy exchanges with serde_json, and the code outside the repository that the
  sources call. A \<open>json\<close> is serde_json's public \<open>Value\<close> enum with its projections; numbers keep
  serde_json's three representations. Parsing and printing JSON, printing doubles and quoted
  strings, and chrono's RFC 3339 formatters are not part of the repository: they are the fields
  of \<open>ext\<close>, a parameter of every definition that uses them.
\<close>

datatype number = PosInt nat | NegInt int | Float f64

datatype json =
    Null
  | Bool bool
  | Num number
  | Str string
  | Arr "json list"
  | Obj "(string \<times> json) list"

fun as_array :: "json \<Rightarrow> json list option" where
  "as_array (Arr xs) = Some xs"
| "as_array _ = None"

fun as_object :: "json \<Rightarrow> (string \<times> json) list option" where
  "as_object (Obj kvs) = Some kvs"
| "as_object _ = None"

fun as_str :: "json \<Rightarrow> string option" where
  "as_str (Str s) = Some s"
| "as_str _ = None"

fun as_u64 :: "json \<Rightarrow> nat option" where
  "as_u64 (Num (PosInt n)) = Some n"
| "as_u64 _ = None"

fun as_i64 :: "json \<Rightarrow> int option" where
  "as_i64 (Num (PosInt n)) = (if n < 2 ^ 63 then Some (int n) else None)"
| "as_i64 (Num (NegInt i)) = (if - (2 ^ 63) \<le> i \<and> i < 0 then Some i else None)"
| "as_i64 _ = None"

text \<open>\<open>Value::get\<close> with an index and with a key.\<close>

definition nth_opt :: "nat \<Rightarrow> 'a list \<Rightarrow> 'a option" where
  "nth_opt i xs = (if i < length xs then Some (xs ! i) else None)"

fun get_idx :: "nat \<Rightarrow> json \<Rightarrow> json option" where
  "get_idx i (Arr xs) = nth_opt i xs"
| "get_idx i _ = None"

fun get_key :: "string \<Rightarrow> json \<Rightarrow> json option" where
  "get_key k (Obj kvs) = map_of kvs k"
| "get_key k _ = None"

definition obj_insert :: "string \<Rightarrow> json \<Rightarrow> (string \<times> json) list \<Rightarrow> (string \<times> json) list" where
  "obj_insert k v kvs = (k, v) # filter (\<lambda>(k', _). k' \<noteq> k) kvs"

definition obj_remove :: "string \<Rightarrow> (string \<times> json) list \<Rightarrow> (string \<times> json) list" where
  "obj_remove k kvs = filter (\<lambda>(k', _). k' \<noteq> k) kvs"

definition json_of_opt :: "('a \<Rightarrow> json) \<Rightarrow> 'a option \<Rightarrow> json" where
  "json_of_opt f x = (case x of None \<Rightarrow> Null | Some a \<Rightarrow> f a)"

text \<open>\<open>json!(x)\<close> for a double: serde_json turns a non-finite one into \<open>null\<close>.\<close>

definition json_f64 :: "f64 \<Rightarrow> json" where
  "json_f64 a = (if is_finite a then Num (Float a) else Null)"

definition json_int :: "int \<Rightarrow> json" where
  "json_int i = Num (if i < 0 then NegInt i else PosInt (nat i))"

text \<open>
  \<open>from_str\<close> and \<open>to_str\<close> are \<open>serde_json::from_str::<Value>\<close> and \<open>serde_json::to_string\<close> (the
  left summand is the error's text), \<open>value_error\<close> the text of a failed \<open>from_value\<close>,
  \<open>show_json\<close> the \<open>Display\<close> of a \<open>Value\<close>, \<open>show_f64\<close> and \<open>debug_str\<close> the formatting of \<open>{}\<close> on a double and \<open>{:?}\<close> on a string,
  \<open>rfc3339\<close>, \<open>rfc3339_secs\<close> and \<open>rfc3339_millis\<close> chrono's formatters.
\<close>

record ext =
  from_str :: "string \<Rightarrow> string + json"
  to_str :: "json \<Rightarrow> string + string"
  value_error :: "json \<Rightarrow> string"
  show_json :: "json \<Rightarrow> string"
  show_f64 :: "f64 \<Rightarrow> string"
  debug_str :: "string \<Rightarrow> string"
  rfc3339 :: "utc \<Rightarrow> string"
  rfc3339_secs :: "utc \<Rightarrow> string"
  rfc3339_millis :: "utc \<Rightarrow> string"

text \<open>
  What the proxy relies on when it prints a frame it built itself: serde_json reads back what it
  wrote. \<open>faithful_on\<close> states it for one value.
\<close>

definition faithful_on :: "ext \<Rightarrow> json \<Rightarrow> bool" where
  "faithful_on E v \<longleftrightarrow> (\<exists>s. to_str E v = Inr s \<and> from_str E s = Inr v)"

text \<open>
  A concrete instance for the witnesses: a codec that knows the given texts and their values, and
  plain formatters.
\<close>

definition table_ext :: "(string \<times> json) list \<Rightarrow> ext" where
  "table_ext tbl =
     \<lparr>from_str = (\<lambda>s. case map_of tbl s of None \<Rightarrow> Inl ''expected value'' | Some v \<Rightarrow> Inr v),
      to_str = (\<lambda>v. case find (\<lambda>p. snd p = v) tbl of None \<Rightarrow> Inl ''not supported'' | Some p \<Rightarrow> Inr (fst p)),
      value_error = (\<lambda>_. ''invalid type''), show_json = (\<lambda>_. ''value''), show_f64 = (\<lambda>_. ''number''),
      debug_str = (\<lambda>s. [CHR 0x22] @ s @ [CHR 0x22]), rfc3339 = show_int,
      rfc3339_secs = show_int, rfc3339_millis = show_int\<rparr>"

lemma map_of_obj_insert: "map_of (obj_insert k v kvs) = (map_of kvs)(k \<mapsto> v)"
proof -
  have "map_of (filter (\<lambda>(k', _). k' \<noteq> k) kvs) x = (if x = k then None else map_of kvs x)" for x
    by (induction kvs) auto
  then show ?thesis by (auto simp: obj_insert_def)
qed

lemma map_of_obj_remove: "map_of (obj_remove k kvs) = (map_of kvs)(k := None)"
proof -
  have "map_of (filter (\<lambda>(k', _). k' \<noteq> k) kvs) x = (if x = k then None else map_of kvs x)" for x
    by (induction kvs) auto
  then show ?thesis by (auto simp: obj_remove_def)
qed

lemma as_array_Some [simp]: "as_array v = Some xs \<longleftrightarrow> v = Arr xs"
  by (cases v) auto

lemma as_object_Some [simp]: "as_object v = Some kvs \<longleftrightarrow> v = Obj kvs"
  by (cases v) auto

lemma as_str_Some [simp]: "as_str v = Some s \<longleftrightarrow> v = Str s"
  by (cases v) auto

lemma as_u64_Some [simp]: "as_u64 v = Some n \<longleftrightarrow> v = Num (PosInt n)"
  by (cases v rule: as_u64.cases) auto

end
