(* ===== verification/Models.thy ===== *)
theory Models
  imports Json
begin

text \<open>
  \<open>src/error.rs\<close> and \<open>src/models.rs\<close>: the error enum, OCPP frames and their parser, the connection
  enums and the exponential backoff. The lemmas characterise exactly which texts parse, show that
  a parsed frame carries its text unchanged, and compute the whole delay sequence of a backoff
  configured in whole seconds, through the double arithmetic the code performs.
\<close>

section \<open>src/error.rs\<close>

datatype proxy_error =
    ConnectionDownstream string
  | ConnectionUpstream string
  | ConnectionMqtt string
  | Forwarding string
  | Config string
  | Protocol string
  | Tls string

fun display_error :: "proxy_error \<Rightarrow> string" where
  "display_error (ConnectionDownstream d) = ''[connection_downstream] '' @ d"
| "display_error (ConnectionUpstream d) = ''[connection_upstream] '' @ d"
| "display_error (ConnectionMqtt d) = ''[connection_mqtt] '' @ d"
| "display_error (Forwarding d) = ''[forwarding] '' @ d"
| "display_error (Config d) = ''[config] '' @ d"
| "display_error (Protocol d) = ''[protocol] '' @ d"
| "display_error (Tls d) = ''[tls] '' @ d"

fun category :: "proxy_error \<Rightarrow> string" where
  "category (ConnectionDownstream _) = ''connection_downstream''"
| "category (ConnectionUpstream _) = ''connection_upstream''"
| "category (ConnectionMqtt _) = ''connection_mqtt''"
| "category (Forwarding _) = ''forwarding''"
| "category (Config _) = ''config''"
| "category (Protocol _) = ''protocol''"
| "category (Tls _) = ''tls''"

fun description :: "proxy_error \<Rightarrow> string" where
  "description (ConnectionDownstream d) = d"
| "description (ConnectionUpstream d) = d"
| "description (ConnectionMqtt d) = d"
| "description (Forwarding d) = d"
| "description (Config d) = d"
| "description (Protocol d) = d"
| "description (Tls d) = d"

section \<open>src/models.rs: frames\<close>

datatype ocpp_message_type = Call string | CallResult | CallError

record ocpp_frame =
  raw :: string
  message_type :: ocpp_message_type
  unique_id :: string
  received_at :: utc

definition frame_message_type :: "json list \<Rightarrow> nat \<Rightarrow> proxy_error + ocpp_message_type" where
  "frame_message_type arr type_id =
     (if type_id = 2 then
        (if length arr < 4 then Inl (Protocol ''Call message must have at least 4 elements'')
         else case as_str (arr ! 2) of
             None \<Rightarrow> Inl (Protocol ''Third element of Call message must be a string (Action)'')
           | Some action \<Rightarrow> Inr (Call action))
      else if type_id = 3 then Inr CallResult
      else if type_id = 4 then Inr CallError
      else Inl (Protocol (''Unknown OCPP message type: '' @ show_nat type_id
             @ ''. Expected 2 (Call), 3 (CallResult), or 4 (CallError)'')))"

definition parse :: "ext \<Rightarrow> utc \<Rightarrow> string \<Rightarrow> proxy_error + ocpp_frame" where
  "parse E now text =
     (case from_str E text of
        Inl e \<Rightarrow> Inl (Protocol (''Invalid JSON: '' @ e))
      | Inr parsed \<Rightarrow>
         (case as_array parsed of
            None \<Rightarrow> Inl (Protocol ''OCPP message must be a JSON array'')
          | Some arr \<Rightarrow>
             if length arr < 3 then
               Inl (Protocol (''OCPP message array must have at least 3 elements, got ''
                      @ show_nat (length arr)))
             else
               (case as_u64 (arr ! 0) of
                  None \<Rightarrow> Inl (Protocol
                     ''First element of OCPP message must be a message type integer'')
                | Some type_id \<Rightarrow>
                   (case as_str (arr ! 1) of
                      None \<Rightarrow> Inl (Protocol
                        ''Second element of OCPP message must be a string (UniqueId)'')
                    | Some uid \<Rightarrow>
                       (case frame_message_type arr type_id of
                          Inl e \<Rightarrow> Inl e
                        | Inr mt \<Rightarrow>
                            Inr \<lparr>raw = text, message_type = mt, unique_id = uid,
                                 received_at = now\<rparr>)))))"

datatype direction = ChargerToCentral | CentralToCharger

datatype connection_state = Disconnected | Connecting | Connected | Reconnecting

datatype connection_id = Upstream | Downstream | Mqtt

record state_change =
  connection :: connection_id
  previous :: connection_state
  current_state :: connection_state
  changed_at :: utc

section \<open>src/models.rs: exponential backoff\<close>

record backoff =
  initial :: duration
  max_delay :: duration
  current :: duration
  multiplier :: f64

definition backoff_new :: "duration \<Rightarrow> duration \<Rightarrow> f64 \<Rightarrow> backoff" where
  "backoff_new i m mul = \<lparr>initial = i, max_delay = m, current = i, multiplier = mul\<rparr>"

definition with_defaults :: "duration \<Rightarrow> duration \<Rightarrow> backoff" where
  "with_defaults i m = backoff_new i m (Fin 2)"

text \<open>\<open>None\<close> is the panic of \<open>Duration::from_secs_f64\<close>.\<close>

definition next_delay :: "backoff \<Rightarrow> (duration \<times> backoff) option" where
  "next_delay b =
     (let delay = min (current b) (max_delay b);
          next_secs = f64_min (f64_mul (as_secs_f64 (current b)) (multiplier b))
                              (as_secs_f64 (max_delay b))
      in map_option (\<lambda>c. (delay, b\<lparr>current := c\<rparr>)) (from_secs_f64 next_secs))"

definition reset :: "backoff \<Rightarrow> backoff" where
  "reset b = b\<lparr>current := initial b\<rparr>"

text \<open>The delays of \<open>n\<close> consecutive calls.\<close>

fun delays :: "nat \<Rightarrow> backoff \<Rightarrow> duration list option" where
  "delays 0 b = Some []"
| "delays (Suc n) b =
     (case next_delay b of None \<Rightarrow> None
      | Some (d, b') \<Rightarrow> map_option ((#) d) (delays n b'))"

section \<open>Facts\<close>

lemma display_error_parts: "display_error e = ''['' @ category e @ ''] '' @ description e"
  by (cases e) auto

text \<open>What the parser checks of a JSON value.\<close>

definition checked_frame :: "json \<Rightarrow> string \<Rightarrow> ocpp_message_type \<Rightarrow> bool" where
  "checked_frame v uid mt \<longleftrightarrow>
     (case mt of
        Call action \<Rightarrow> (\<exists>p rest. v = Arr (Num (PosInt 2) # Str uid # Str action # p # rest))
      | CallResult \<Rightarrow> (\<exists>p rest. v = Arr (Num (PosInt 3) # Str uid # p # rest))
      | CallError \<Rightarrow> (\<exists>p rest. v = Arr (Num (PosInt 4) # Str uid # p # rest)))"

lemma three_elems: "\<not> length arr < 3 \<Longrightarrow> \<exists>a b c rest. arr = a # b # c # rest"
  by (cases arr rule: list.exhaust[of _ thesis for thesis];
      cases "tl arr"; cases "tl (tl arr)") auto

lemma frame_message_type_iff:
  assumes "arr = a # b # c # rest"
  shows "frame_message_type arr t = Inr mt \<longleftrightarrow>
           (t = 2 \<and> rest \<noteq> [] \<and> (\<exists>act. c = Str act \<and> mt = Call act))
           \<or> (t = 3 \<and> mt = CallResult) \<or> (t = 4 \<and> mt = CallError)"
  using assms by (cases rest) (auto simp: frame_message_type_def split: option.splits)

lemma parse_Inr_iff:
  "parse E now text = Inr f \<longleftrightarrow>
     (\<exists>v. from_str E text = Inr v \<and> checked_frame v (unique_id f) (message_type f))
     \<and> raw f = text \<and> received_at f = now"
proof (cases "from_str E text")
  case (Inl e)
  then show ?thesis by (simp add: parse_def)
next
  case (Inr v)
  show ?thesis
  proof (cases "\<exists>a b c rest. v = Arr (a # b # c # rest)")
    case True
    then obtain a b c rest where v: "v = Arr (a # b # c # rest)" by auto
    have "parse E now text = Inr f \<longleftrightarrow>
        (\<exists>t uid mt. a = Num (PosInt t) \<and> b = Str uid
           \<and> frame_message_type (a # b # c # rest) t = Inr mt
           \<and> f = \<lparr>raw = text, message_type = mt, unique_id = uid, received_at = now\<rparr>)"
      using Inr v by (auto simp: parse_def split: option.splits sum.splits)
    then show ?thesis
      unfolding frame_message_type_iff[OF refl]
      by (cases f; cases rest; cases "message_type f")
         (auto simp: Inr v checked_frame_def)
  next
    case False
    then have "\<not> checked_frame v uid mt" for uid mt
      by (auto simp: checked_frame_def split: ocpp_message_type.splits)
    moreover have "parse E now text \<noteq> Inr f"
      using False Inr by (auto simp: parse_def dest!: three_elems
          split: option.splits sum.splits if_splits)
    ultimately show ?thesis using Inr by auto
  qed
qed

lemma parse_fails_with_Protocol:
  "parse E now text = Inl e \<Longrightarrow> category e = ''protocol''"
  by (auto simp: parse_def frame_message_type_def
        split: option.splits sum.splits if_splits)

lemma parse_raw: "parse E now text = Inr f \<Longrightarrow> raw f = text"
  by (simp add: parse_Inr_iff)

text \<open>On whole seconds below \<open>2\<^sup>5\<^sup>2\<close> the double arithmetic of \<open>next_delay\<close> is exact.\<close>

lemma next_delay_secs:
  assumes "c < 2 ^ 52" "m < 2 ^ 52"
  shows "next_delay \<lparr>initial = i, max_delay = from_secs m, current = from_secs c, multiplier = Fin 2\<rparr>
    = Some (from_secs (min c m),
        \<lparr>initial = i, max_delay = from_secs m, current = from_secs (min (2 * c) m), multiplier = Fin 2\<rparr>)"
proof -
  have c: "as_secs_f64 (from_secs c) = Fin (of_nat c)" and m: "as_secs_f64 (from_secs m) = Fin (of_nat m)"
    using assms by (auto intro: as_secs_f64_from_secs)
  have "f64_mul (Fin (of_nat c)) (Fin 2) = Fin (of_nat (2 * c))"
    using rnd_of_nat[of "2 * c"] assms(1) by (simp add: mult.commute)
  moreover have "f64_min (Fin (of_nat (2 * c))) (Fin (of_nat m)) = Fin (of_nat (min (2 * c) m))"
    by (simp add: f64_min_def min_def del: of_nat_mult)
  ultimately have s: "f64_min (f64_mul (Fin (of_nat c)) (Fin 2)) (Fin (of_nat m)) = Fin (of_nat (min (2 * c) m))"
    by simp
  have "min (2 * c) m < 2 ^ 53" using assms(2) by (simp add: min_less_iff_disj)
  then have "from_secs_f64 (Fin (of_nat (min (2 * c) m))) = Some (from_secs (min (2 * c) m))"
    by (rule from_secs_f64_nat)
  moreover have "min (from_secs c) (from_secs m) = from_secs (min c m)"
    by (auto simp: from_secs_def min_def)
  ultimately show ?thesis by (simp add: next_delay_def c m s del: f64_mul.simps)
qed

lemma delays_from:
  assumes "c < 2 ^ 52" "m < 2 ^ 52"
  shows "delays n \<lparr>initial = i, max_delay = from_secs m, current = from_secs c, multiplier = Fin 2\<rparr>
         = Some (map (\<lambda>k. from_secs (min (c * 2 ^ k) m)) [0..<n])"
  using assms
proof (induction n arbitrary: c)
  case (Suc n)
  have "min (2 * c) m < 2 ^ 52" using Suc.prems by simp
  moreover have "min (min (2 * c) m * 2 ^ k) m = min (c * 2 ^ Suc k) m" for k
  proof (cases "2 * c \<le> m")
    case False
    then have "m \<le> m * 2 ^ k" "m \<le> c * 2 ^ Suc k"
      by (auto intro: order_trans[of m "2 * c"])
    then have "min (m * 2 ^ k) m = m" "min (c * 2 ^ Suc k) m = m" by (simp_all only: min_absorb2)
    with False show ?thesis by simp
  qed (simp add: mult.commute mult.left_commute)
  ultimately show ?case
    using Suc by (simp add: next_delay_secs upt_conv_Cons map_Suc_upt[symmetric] del: upt_Suc)
qed simp

lemma next_delay_le_max: "next_delay b = Some (d, b') \<Longrightarrow> d \<le> max_delay b \<and> max_delay b' = max_delay b"
  by (auto simp: next_delay_def)

section \<open>Properties\<close>

text \<open>The frame formats as the code documents them: exactly four, three and five elements.\<close>

definition documented_frame :: "json list \<Rightarrow> string \<Rightarrow> ocpp_message_type \<Rightarrow> bool" where
  "documented_frame w uid mt \<longleftrightarrow>
     (case mt of
        Call action \<Rightarrow> (\<exists>payload. w = [Num (PosInt 2), Str uid, Str action, payload])
      | CallResult \<Rightarrow> (\<exists>payload. w = [Num (PosInt 3), Str uid, payload])
      | CallError \<Rightarrow> (\<exists>code descr details. w = [Num (PosInt 4), Str uid, code, descr, details]))"

text \<open>The parser also takes trailing elements, and a CallError that ends after its code or its description.\<close>

lemma checked_frame_documented:
  "checked_frame v uid mt \<longleftrightarrow>
     (\<exists>w extra. documented_frame w uid mt
        \<and> (v = Arr (w @ extra) \<or> mt = CallError \<and> (v = Arr (take 3 w) \<or> v = Arr (take 4 w))))"
proof (cases mt)
  case CallError
  let ?R = "\<exists>w extra. documented_frame w uid mt \<and> (v = Arr (w @ extra) \<or> mt = CallError \<and> (v = Arr (take 3 w) \<or> v = Arr (take 4 w)))"
  let ?h = "\<lambda>rest. Num (PosInt 4) # Str uid # rest"
  have doc: "documented_frame (?h [c, d, x]) uid mt" for c d x using CallError by (simp add: documented_frame_def)
  show ?thesis
  proof
    assume "checked_frame v uid mt"
    then obtain p rest where v: "v = Arr (?h (p # rest))" using CallError by (auto simp: checked_frame_def)
    consider "rest = []" | d where "rest = [d]" | d x extra where "rest = d # x # extra" by (cases rest; cases "tl rest") auto
    then show ?R
    proof cases
      case 1
      then show ?thesis using doc[of p p p] v CallError by (intro exI[of _ "?h [p, p, p]"] exI[of _ "[]"]) simp
    next
      case (2 d)
      then show ?thesis using doc[of p d p] v CallError by (intro exI[of _ "?h [p, d, p]"] exI[of _ "[]"]) simp
    next
      case (3 d x extra)
      then show ?thesis using doc[of p d x] v by (intro exI[of _ "?h [p, d, x]"] exI[of _ extra]) simp
    qed
  qed (use CallError in \<open>auto simp: checked_frame_def documented_frame_def\<close>)
qed (auto simp: checked_frame_def documented_frame_def)

text \<open>
  C30: The frame parser takes every documented frame and little else. A text that is one of the three OCPP 1.6J frames as
  the code documents them parses, with its text unchanged, its id and its type; and a text parses to a frame only if it is such a
  frame, one followed by further elements, or a CallError that ends after its code or its description. (That it takes these as
  well is more than the documented format, and a finding.) Every rejected text is a protocol error.
\<close>

theorem parser_accepts_documented_frames:
  "(from_str E text = Inr (Arr doc) \<and> documented_frame doc uid mt
      \<longrightarrow> parse E now text = Inr \<lparr>raw = text, message_type = mt, unique_id = uid, received_at = now\<rparr>)
   \<and> (parse E now text = Inr f \<longleftrightarrow>
      (\<exists>v w extra. from_str E text = Inr v \<and> documented_frame w (unique_id f) (message_type f)
         \<and> (v = Arr (w @ extra) \<or> message_type f = CallError \<and> (v = Arr (take 3 w) \<or> v = Arr (take 4 w))))
      \<and> raw f = text \<and> received_at f = now)
   \<and> (parse E now text = Inl e \<longrightarrow> category e = ''protocol'')"
proof (intro conjI impI)
  assume d: "from_str E text = Inr (Arr doc) \<and> documented_frame doc uid mt"
  then have "checked_frame (Arr doc) uid mt" unfolding checked_frame_documented by (metis append_Nil2)
  then show "parse E now text = Inr \<lparr>raw = text, message_type = mt, unique_id = uid, received_at = now\<rparr>"
    using d by (simp add: parse_Inr_iff)
next
  show "parse E now text = Inr f \<longleftrightarrow>
      (\<exists>v w extra. from_str E text = Inr v \<and> documented_frame w (unique_id f) (message_type f)
         \<and> (v = Arr (w @ extra) \<or> message_type f = CallError \<and> (v = Arr (take 3 w) \<or> v = Arr (take 4 w))))
      \<and> raw f = text \<and> received_at f = now"
    unfolding parse_Inr_iff checked_frame_documented by blast
qed (rule parse_fails_with_Protocol)

theorem parser_accepts_documented_frames_witness:
  "parse (table_ext [(''x'', Arr [Num (PosInt 2), Str ''7'', Str ''Heartbeat'', Obj []])]) 5 ''x''
     = Inr \<lparr>raw = ''x'', message_type = Call ''Heartbeat'', unique_id = ''7'', received_at = 5\<rparr>
   \<and> (\<exists>v w extra. from_str (table_ext [(''y'', Arr [Num (PosInt 4), Str ''7'', Str ''GenericError''])]) ''y'' = Inr v
       \<and> documented_frame w ''7'' CallError \<and> (v = Arr (w @ extra) \<or> v = Arr (take 3 w) \<or> v = Arr (take 4 w)))
   \<and> category (Protocol (''Invalid JSON: expected value'')) = ''protocol''"
proof -
  have y: "parse (table_ext [(''y'', Arr [Num (PosInt 4), Str ''7'', Str ''GenericError''])]) 5 ''y''
      = Inr \<lparr>raw = ''y'', message_type = CallError, unique_id = ''7'', received_at = 5\<rparr>"
    by (simp add: parse_def table_ext_def frame_message_type_def)
  have x: "parse (table_ext [(''x'', Arr [Num (PosInt 2), Str ''7'', Str ''Heartbeat'', Obj []])]) 5 ''x''
     = Inr \<lparr>raw = ''x'', message_type = Call ''Heartbeat'', unique_id = ''7'', received_at = 5\<rparr>"
    using parser_accepts_documented_frames[of "table_ext [(''x'', Arr [Num (PosInt 2), Str ''7'', Str ''Heartbeat'', Obj []])]" "''x''"
        "[Num (PosInt 2), Str ''7'', Str ''Heartbeat'', Obj []]" "''7''" "Call ''Heartbeat''" 5]
    by (simp add: table_ext_def documented_frame_def)
  have e: "category (Protocol (''Invalid JSON: expected value'')) = ''protocol''"
    using parser_accepts_documented_frames[of "table_ext []" "''x''" "[]" "[]" CallResult 5 undefined "Protocol (''Invalid JSON: expected value'')"]
    by (simp add: table_ext_def parse_def)
  show ?thesis
    using x e parser_accepts_documented_frames[of "table_ext [(''y'', Arr [Num (PosInt 4), Str ''7'', Str ''GenericError''])]" "''y''" "[]" "[]"
        CallResult 5 "\<lparr>raw = ''y'', message_type = CallError, unique_id = ''7'', received_at = 5\<rparr>" "Config []"] y
    by (metis ocpp_frame.select_convs(2,3))
qed

text \<open>
  The backoff doubles exactly. For an initial and a maximal delay in whole seconds below
  \<open>2\<^sup>5\<^sup>2\<close>, no call panics in the double arithmetic and the k-th delay is the smaller of
  \<open>initial \<cdot> 2\<^sup>k\<close> and the maximum, without rounding error.
\<close>

lemma backoff_doubles_to_maximum:
  assumes "i < 2 ^ 52" "m < 2 ^ 52"
  shows "delays n (with_defaults (from_secs i) (from_secs m)) = Some (map (\<lambda>k. from_secs (min (i * 2 ^ k) m)) [0..<n])"
  using delays_from[OF assms] by (simp add: with_defaults_def backoff_new_def)

end
