(* ===== verification/Settings.thy ===== *)
theory Settings
  imports Models
begin

text \<open>
  \<open>src/config.rs\<close>: the configuration records with their defaults, the validation that reports every
  problem at once, the list of absent required parameters, and loading. Reading and layering YAML
  and environment variables is the \<open>config\<close> crate and the checks of certificate files are the file
  system; both are parameters. The lemmas characterise the accepted configurations exactly.
\<close>

section \<open>Configuration records\<close>

datatype log_level = LogDebug | LogInfo | LogWarning | LogError

fun show_log_level :: "log_level \<Rightarrow> string" where
  "show_log_level LogDebug = ''DEBUG''"
| "show_log_level LogInfo = ''INFO''"
| "show_log_level LogWarning = ''WARNING''"
| "show_log_level LogError = ''ERROR''"

datatype ip_addr = V4 "32 word" | V6 "128 word"

fun is_ipv4 :: "ip_addr \<Rightarrow> bool" where
  "is_ipv4 (V4 _) = True"
| "is_ipv4 (V6 _) = False"

definition default_health_port :: "16 word" where "default_health_port = 8080"
definition default_listen_address :: ip_addr where "default_listen_address = V4 0"
definition default_log_level :: log_level where "default_log_level = LogInfo"
definition default_message_buffer :: nat where "default_message_buffer = 100"
definition default_mqtt_buffer :: nat where "default_mqtt_buffer = 500"
definition default_max_backoff :: nat where "default_max_backoff = 60"
definition default_state_file :: string where "default_state_file = ''/var/lib/ocpp-proxy/state.json''"

record mqtt_config =
  mqtt_host :: string
  mqtt_port :: "16 word"
  mqtt_username :: string
  mqtt_password :: string
  ca_cert_path :: "string option"
  client_cert_path :: "string option"
  client_key_path :: "string option"

definition tls_enabled :: "mqtt_config \<Rightarrow> bool" where
  "tls_enabled c = (ca_cert_path c \<noteq> None)"

definition client_auth_enabled :: "mqtt_config \<Rightarrow> bool" where
  "client_auth_enabled c = (client_cert_path c \<noteq> None \<and> client_key_path c \<noteq> None)"

record buffer_config =
  message_buffer_size :: nat
  mqtt_buffer_size :: nat
  max_backoff_seconds :: nat

definition buffer_config_default :: buffer_config where
  "buffer_config_default =
     \<lparr>message_buffer_size = default_message_buffer, mqtt_buffer_size = default_mqtt_buffer,
      max_backoff_seconds = default_max_backoff\<rparr>"

datatype charging_profile_purpose = ChargePointMaxProfile | TxDefaultProfile

fun purpose_str :: "charging_profile_purpose \<Rightarrow> string" where
  "purpose_str ChargePointMaxProfile = ''ChargePointMaxProfile''"
| "purpose_str TxDefaultProfile = ''TxDefaultProfile''"

datatype charging_profile_kind = Absolute | Relative

fun kind_str :: "charging_profile_kind \<Rightarrow> string" where
  "kind_str Absolute = ''Absolute''"
| "kind_str Relative = ''Relative''"

datatype charging_rate_unit = UnitA | UnitW

fun rate_unit_str :: "charging_rate_unit \<Rightarrow> string" where
  "rate_unit_str UnitA = ''A''"
| "rate_unit_str UnitW = ''W''"

record charging_config =
  enabled :: bool
  max_limit_a :: f64
  min_limit_a :: f64
  connector_id :: nat
  profile_id :: int
  stack_level :: nat
  purpose :: charging_profile_purpose
  profile_kind :: charging_profile_kind
  rate_unit :: charging_rate_unit
  number_phases :: "nat option"
  nominal_voltage_v :: f64
  command_timeout_seconds :: nat
  reapply_on_connect :: bool
  allowed_configuration_keys :: "string list"

definition default_allowed_configuration_keys :: "string list" where
  "default_allowed_configuration_keys =
     [''MeterValueSampleInterval'', ''MeterValuesSampledData'', ''ClockAlignedDataInterval'',
      ''MeterValuesAlignedData'', ''StopTxnSampledData'', ''StopTxnAlignedData'']"

definition default_max_limit_a :: f64 where [simp]: "default_max_limit_a = Fin 32"
definition default_min_limit_a :: f64 where [simp]: "default_min_limit_a = Fin 6"
definition default_profile_id :: int where [simp]: "default_profile_id = 1001"
definition default_purpose :: charging_profile_purpose where [simp]: "default_purpose = TxDefaultProfile"
definition default_profile_kind :: charging_profile_kind where [simp]: "default_profile_kind = Absolute"
definition default_rate_unit :: charging_rate_unit where [simp]: "default_rate_unit = UnitA"
definition default_number_phases :: "nat option" where [simp]: "default_number_phases = Some 1"
definition default_nominal_voltage :: f64 where [simp]: "default_nominal_voltage = Fin 230"
definition default_command_timeout :: nat where [simp]: "default_command_timeout = 30"

definition charging_config_default :: charging_config where
  "charging_config_default =
     \<lparr>enabled = False, max_limit_a = default_max_limit_a, min_limit_a = default_min_limit_a, connector_id = 0,
      profile_id = default_profile_id, stack_level = 0, purpose = default_purpose, profile_kind = default_profile_kind,
      rate_unit = default_rate_unit, number_phases = default_number_phases, nominal_voltage_v = default_nominal_voltage,
      command_timeout_seconds = default_command_timeout, reapply_on_connect = True,
      allowed_configuration_keys = default_allowed_configuration_keys\<rparr>"

definition command_timeout :: "charging_config \<Rightarrow> duration" where
  "command_timeout c = from_secs (command_timeout_seconds c)"

record proxy_config =
  central_system_url :: string
  listen_port :: "16 word"
  listen_address :: ip_addr
  upstream_bind_address :: "ip_addr option"
  charge_point_id_setting :: "string option"
  health_port :: "16 word"
  mqtt :: mqtt_config
  logging_level :: log_level
  buffers :: buffer_config
  state_file :: string
  charging :: charging_config

section \<open>Validation\<close>

text \<open>\<open>if bad { errors.push(msg) }\<close>\<close>

definition report :: "bool \<Rightarrow> string \<Rightarrow> string list" where
  "report bad msg = (if bad then [msg] else [])"

lemma report_Nil [simp]: "report bad msg = [] \<longleftrightarrow> \<not> bad"
  by (simp add: report_def)

definition debug_opt_nat :: "nat option \<Rightarrow> string" where
  "debug_opt_nat x = (case x of None \<Rightarrow> ''None'' | Some n \<Rightarrow> ''Some('' @ show_nat n @ '')'')"

definition charging_validate :: "ext \<Rightarrow> charging_config \<Rightarrow> string list" where
  "charging_validate E c =
     report (\<not> is_finite (max_limit_a c) \<or> max_limit_a c \<le> Fin 0 \<or> Fin 80 < max_limit_a c)
       (''charging.max_limit_a must be between 0 and 80 (amps), got: '' @ show_f64 E (max_limit_a c))
   @ report (\<not> is_finite (min_limit_a c) \<or> min_limit_a c < Fin 0)
       (''charging.min_limit_a must be zero or positive, got: '' @ show_f64 E (min_limit_a c))
   @ report (max_limit_a c < min_limit_a c)
       (''charging.min_limit_a ('' @ show_f64 E (min_limit_a c)
        @ '') must not exceed charging.max_limit_a ('' @ show_f64 E (max_limit_a c) @ '')'')
   @ report (profile_id c \<le> 0)
       (''charging.profile_id must be a positive integer, got: '' @ show_int (profile_id c))
   @ report (purpose c = ChargePointMaxProfile \<and> connector_id c \<noteq> 0)
       (''charging.connector_id must be 0 for ChargePointMaxProfile, got: '' @ show_nat (connector_id c))
   @ report (case number_phases c of None \<Rightarrow> False | Some p \<Rightarrow> p = 0 \<or> 4 \<le> p)
       (''charging.number_phases must be 1, 2, 3 or null, got: '' @ debug_opt_nat (number_phases c))
   @ report (\<not> is_finite (nominal_voltage_v c)
             \<or> \<not> (Fin 100 \<le> nominal_voltage_v c \<and> nominal_voltage_v c \<le> Fin 480))
       (''charging.nominal_voltage_v must be between 100 and 480, got: ''
        @ show_f64 E (nominal_voltage_v c))
   @ report (\<not> (1 \<le> command_timeout_seconds c \<and> command_timeout_seconds c \<le> 300))
       (''charging.command_timeout_seconds must be between 1 and 300, got: ''
        @ show_nat (command_timeout_seconds c))"

text \<open>What the file system says of a path: \<open>Path::exists\<close> and whether \<open>File::open\<close> succeeds.\<close>

record file_probe =
  path_exists :: "string \<Rightarrow> bool"
  path_opens :: "string \<Rightarrow> bool"

definition check_path :: "file_probe \<Rightarrow> string \<times> string option \<Rightarrow> string list" where
  "check_path P np =
     (case np of (name, None) \<Rightarrow> []
      | (name, Some path) \<Rightarrow>
          if \<not> path_exists P path then [name @ '' does not exist: '' @ path]
          else if \<not> path_opens P path then [name @ '' exists but is not readable: '' @ path]
          else [])"

definition validate :: "ext \<Rightarrow> file_probe \<Rightarrow> proxy_config \<Rightarrow> string list" where
  "validate E P c =
     report (listen_port c < 1024)
       (''listen_port must be between 1024 and 65535, got: '' @ show_nat (unat (listen_port c)))
   @ report (health_port c < 1024)
       (''health_port must be between 1024 and 65535, got: '' @ show_nat (unat (health_port c)))
   @ report (listen_port c = health_port c)
       (''listen_port and health_port must differ, both are: '' @ show_nat (unat (listen_port c)))
   @ report (\<not> starts_with ''ws://'' (central_system_url c)
             \<and> \<not> starts_with ''wss://'' (central_system_url c))
       (''central_system_url must start with ws:// or wss://, got: '' @ central_system_url c)
   @ report (mqtt_port (mqtt c) = 0) ''mqtt.port must be between 1 and 65535''
   @ concat (map (check_path P)
       [(''mqtt.ca_cert_path'', ca_cert_path (mqtt c)),
        (''mqtt.client_cert_path'', client_cert_path (mqtt c)),
        (''mqtt.client_key_path'', client_key_path (mqtt c))])
   @ report ((client_cert_path (mqtt c) \<noteq> None) \<noteq> (client_key_path (mqtt c) \<noteq> None))
       ''mqtt.client_cert_path and mqtt.client_key_path must be set together''
   @ report (\<not> tls_enabled (mqtt c) \<and> client_auth_enabled (mqtt c))
       ''mqtt client certificates require mqtt.ca_cert_path to be set''
   @ charging_validate E (charging c)"

section \<open>Missing parameters and loading\<close>

record raw_mqtt_config =
  raw_host :: "string option"
  raw_port :: "16 word option"
  raw_username :: "string option"
  raw_password :: "string option"

record raw_proxy_config =
  raw_central_system_url :: "string option"
  raw_listen_port :: "16 word option"
  raw_mqtt :: "raw_mqtt_config option"

definition missing_required :: "raw_proxy_config \<Rightarrow> string list" where
  "missing_required r =
     report (raw_central_system_url r = None) ''central_system_url''
   @ report (raw_listen_port r = None) ''listen_port''
   @ (case raw_mqtt r of
        None \<Rightarrow> [''mqtt.host'', ''mqtt.port'', ''mqtt.username'', ''mqtt.password'']
      | Some q \<Rightarrow>
          report (raw_host q = None) ''mqtt.host''
        @ report (raw_port q = None) ''mqtt.port''
        @ report (raw_username q = None) ''mqtt.username''
        @ report (raw_password q = None) ''mqtt.password'')"

text \<open>
  \<open>settings\<close> is the outcome of the \<open>config\<close> builder, \<open>de_raw\<close> and \<open>de_config\<close> its deserialisers
  into the all-optional shadow struct and into the configuration.
\<close>

text \<open>The file the settings come from: \<open>CONFIG_FILE_PATH\<close>, if it is set to valid Unicode.\<close>

definition config_path :: "string option \<Rightarrow> string" where
  "config_path env_var = (case env_var of None \<Rightarrow> ''./config.yaml'' | Some p \<Rightarrow> p)"

definition load_settings ::
    "ext \<Rightarrow> file_probe \<Rightarrow> ('s \<Rightarrow> raw_proxy_config option) \<Rightarrow> ('s \<Rightarrow> string + proxy_config)
      \<Rightarrow> string + 's \<Rightarrow> proxy_error + proxy_config" where
  "load_settings E P de_raw de_config settings =
     (case settings of
        Inl e \<Rightarrow> Inl (Config (''Failed to load configuration: '' @ e))
      | Inr s \<Rightarrow>
         (let missing = (case de_raw s of None \<Rightarrow> [] | Some r \<Rightarrow> missing_required r)
          in if missing \<noteq> [] then
               Inl (Config (''Missing required configuration parameter''
                 @ (if length missing = 1 then '''' else ''s'') @ '':'' @ [CHR 0x0A]
                 @ join_with [CHR 0x0A] (map (\<lambda>m. ''  - '' @ m) missing)))
             else
               (case de_config s of
                  Inl e \<Rightarrow> Inl (Config (''Failed to deserialize configuration: '' @ e))
                | Inr c \<Rightarrow>
                    (let errors = validate E P c
                     in if errors \<noteq> [] then
                          Inl (Config (''Configuration validation failed:'' @ [CHR 0x0A]
                            @ join_with [CHR 0x0A] errors))
                        else Inr c))))"

section \<open>Facts\<close>

text \<open>What a valid charging section and a valid configuration are, as stated in the documentation.\<close>

definition charging_ok :: "charging_config \<Rightarrow> bool" where
  "charging_ok c \<longleftrightarrow>
     (\<exists>mx mn v. max_limit_a c = Fin mx \<and> min_limit_a c = Fin mn \<and> nominal_voltage_v c = Fin v
        \<and> 0 < mx \<and> mx \<le> 80 \<and> 0 \<le> mn \<and> mn \<le> mx \<and> 100 \<le> v \<and> v \<le> 480)
     \<and> 0 < profile_id c
     \<and> (purpose c = ChargePointMaxProfile \<longrightarrow> connector_id c = 0)
     \<and> number_phases c \<in> {None, Some 1, Some 2, Some 3}
     \<and> 1 \<le> command_timeout_seconds c \<and> command_timeout_seconds c \<le> 300"

definition readable_if_given :: "file_probe \<Rightarrow> string option \<Rightarrow> bool" where
  "readable_if_given P path \<longleftrightarrow> (\<forall>p. path = Some p \<longrightarrow> path_exists P p \<and> path_opens P p)"

definition tls_coherent :: "mqtt_config \<Rightarrow> bool" where
  "tls_coherent q \<longleftrightarrow>
     (client_cert_path q = None \<longleftrightarrow> client_key_path q = None)
     \<and> (client_cert_path q \<noteq> None \<longrightarrow> ca_cert_path q \<noteq> None)"

lemma phases_cases: "(case np of None \<Rightarrow> False | Some p \<Rightarrow> p = 0 \<or> 4 \<le> p) \<longleftrightarrow> np \<notin> {None, Some 1, Some 2, Some (3::nat)}"
  by (cases np) auto

lemma charging_validate_Nil: "charging_validate E c = [] \<longleftrightarrow> charging_ok c"
proof -
  have "charging_validate E c = [] \<longleftrightarrow>
      \<not> (\<not> is_finite (max_limit_a c) \<or> max_limit_a c \<le> Fin 0 \<or> Fin 80 < max_limit_a c)
    \<and> \<not> (\<not> is_finite (min_limit_a c) \<or> min_limit_a c < Fin 0)
    \<and> \<not> max_limit_a c < min_limit_a c \<and> \<not> profile_id c \<le> 0
    \<and> \<not> (purpose c = ChargePointMaxProfile \<and> connector_id c \<noteq> 0)
    \<and> number_phases c \<in> {None, Some 1, Some 2, Some 3}
    \<and> \<not> (\<not> is_finite (nominal_voltage_v c)
             \<or> \<not> (Fin 100 \<le> nominal_voltage_v c \<and> nominal_voltage_v c \<le> Fin 480))
    \<and> 1 \<le> command_timeout_seconds c \<and> command_timeout_seconds c \<le> 300"
    unfolding charging_validate_def phases_cases append_is_Nil_conv report_Nil by blast
  also have "\<dots> \<longleftrightarrow> charging_ok c"
    unfolding charging_ok_def is_finite_iff by (auto simp: not_le not_less)
  finally show ?thesis .
qed

lemma check_path_Nil: "check_path P (n, p) = [] \<longleftrightarrow> readable_if_given P p"
  by (auto simp: check_path_def readable_if_given_def split: option.splits)

lemma validate_Nil:
  "validate E P c = [] \<longleftrightarrow>
     1024 \<le> listen_port c \<and> 1024 \<le> health_port c \<and> listen_port c \<noteq> health_port c
     \<and> (starts_with ''ws://'' (central_system_url c) \<or> starts_with ''wss://'' (central_system_url c))
     \<and> mqtt_port (mqtt c) \<noteq> 0
     \<and> readable_if_given P (ca_cert_path (mqtt c)) \<and> readable_if_given P (client_cert_path (mqtt c))
     \<and> readable_if_given P (client_key_path (mqtt c))
     \<and> tls_coherent (mqtt c) \<and> charging_ok (charging c)"
  unfolding validate_def tls_coherent_def tls_enabled_def client_auth_enabled_def
  by (auto simp: check_path_Nil charging_validate_Nil not_less)

lemma load_settings_Inr:
  "load_settings E P de_raw de_config s = Inr c \<longleftrightarrow>
     (\<exists>t. s = Inr t \<and> (\<forall>r. de_raw t = Some r \<longrightarrow> missing_required r = [])
        \<and> de_config t = Inr c \<and> validate E P c = [])"
  by (auto simp: load_settings_def Let_def split: sum.splits option.splits if_splits)

lemma charging_default_ok: "charging_ok charging_config_default"
  by (simp add: charging_ok_def charging_config_default_def)

section \<open>Properties\<close>

text \<open>
  C34: A configuration is loaded if and only if it could be read, no required parameter is absent and
  it is valid: both ports at least 1024 and different, a WebSocket URL, a broker port, readable
  certificate files, client certificates only as a pair and only with a CA, and a coherent charging
  section.
\<close>

theorem loaded_exactly_when_valid:
  "load_settings E P de_raw de_config settings = Inr c \<longleftrightarrow>
     (\<exists>s. settings = Inr s \<and> (\<forall>r. de_raw s = Some r \<longrightarrow> missing_required r = []) \<and> de_config s = Inr c)
     \<and> 1024 \<le> listen_port c \<and> 1024 \<le> health_port c \<and> listen_port c \<noteq> health_port c
     \<and> (starts_with ''ws://'' (central_system_url c) \<or> starts_with ''wss://'' (central_system_url c))
     \<and> mqtt_port (mqtt c) \<noteq> 0
     \<and> readable_if_given P (ca_cert_path (mqtt c)) \<and> readable_if_given P (client_cert_path (mqtt c))
     \<and> readable_if_given P (client_key_path (mqtt c))
     \<and> tls_coherent (mqtt c) \<and> charging_ok (charging c)"
  unfolding validate_Nil[of E P c, symmetric]
  by (auto simp: load_settings_Inr)

definition demo_proxy_config :: proxy_config where
  "demo_proxy_config =
     \<lparr>central_system_url = ''ws://cs'', listen_port = 9000, listen_address = V4 0, upstream_bind_address = None,
      charge_point_id_setting = None, health_port = 8080,
      mqtt = \<lparr>mqtt_host = ''ha'', mqtt_port = 1883, mqtt_username = ''u'', mqtt_password = ''p'',
        ca_cert_path = None, client_cert_path = None, client_key_path = None\<rparr>,
      logging_level = LogInfo, buffers = buffer_config_default, state_file = [],
      charging = charging_config_default\<rparr>"

theorem loaded_exactly_when_valid_witness:
  "load_settings (table_ext []) \<lparr>path_exists = (\<lambda>_. False), path_opens = (\<lambda>_. False)\<rparr> (\<lambda>_. None) (\<lambda>_. Inr demo_proxy_config)
     (Inr ()) = Inr demo_proxy_config"
  using loaded_exactly_when_valid[of "table_ext []" "\<lparr>path_exists = (\<lambda>_. False), path_opens = (\<lambda>_. False)\<rparr>" "\<lambda>_. None"
      "\<lambda>_. Inr demo_proxy_config" "Inr ()" demo_proxy_config]
  by (simp add: demo_proxy_config_def readable_if_given_def tls_coherent_def starts_with_def charging_default_ok)

end
