(* ===== verification/Commands.thy ===== *)
theory Commands
  imports Settings
begin

text \<open>
  \<open>src/command.rs\<close>, the stateless part: command topics and payloads, the limit policy, the OCPP
  Calls the proxy builds, the results it publishes and the reading of the charger's answers. The
  lemmas give the exact language of the command topics, the round trip of a command through its
  JSON form, the bounds of the limit policy under double rounding, and the correspondence between
  a request and the frame sent for it.
\<close>

section \<open>Topics\<close>

definition UNIQUE_ID_PREFIX :: string where "UNIQUE_ID_PREFIX = ''proxy-''"

definition COMMAND_SUBSCRIPTIONS :: "string list" where
  "COMMAND_SUBSCRIPTIONS = [''ocpp/+/command'', ''ocpp/+/command/current_limit'']"

definition COMMAND_CHANNEL_CAPACITY :: nat where "COMMAND_CHANNEL_CAPACITY = 32"

definition CENTRAL_CALL_GRACE :: duration where "CENTRAL_CALL_GRACE = from_secs 10"

definition command_topic :: "string \<Rightarrow> string" where
  [wire_format]: "command_topic cp = ''ocpp/'' @ cp @ ''/command''"

definition current_limit_topic :: "string \<Rightarrow> string" where
  [wire_format]: "current_limit_topic cp = ''ocpp/'' @ cp @ ''/command/current_limit''"

definition command_result_topic :: "string \<Rightarrow> string" where
  [wire_format]: "command_result_topic cp = ''ocpp/'' @ cp @ ''/command/result''"

datatype command_topic_kind = TopicCommand | TopicCurrentLimit

definition parse_command_topic :: "string \<Rightarrow> (string \<times> command_topic_kind) option" where
  "parse_command_topic topic =
     (case split_on CHR ''/'' topic of
        [] \<Rightarrow> None
      | first # parts \<Rightarrow>
         if first \<noteq> ''ocpp'' then None
         else (case parts of
             [] \<Rightarrow> None
           | cp # parts \<Rightarrow>
              if cp = [] then None
              else (case parts of
                  [] \<Rightarrow> None
                | word # parts \<Rightarrow>
                   if word \<noteq> ''command'' then None
                   else (case parts of
                       [] \<Rightarrow> Some (cp, TopicCommand)
                     | [sub] \<Rightarrow> if sub = ''current_limit'' then Some (cp, TopicCurrentLimit) else None
                     | _ \<Rightarrow> None))))"

section \<open>Commands and requests\<close>

datatype proxy_command =
    SetCurrentLimit f64
  | ClearCurrentLimit
  | GetConfiguration "string list"
  | ChangeConfiguration string string
  | TriggerMessage string "nat option"
  | GetCompositeSchedule "nat option" nat

definition default_schedule_duration :: nat where "default_schedule_duration = 3600"

fun action_of :: "proxy_command \<Rightarrow> string" where
  "action_of (SetCurrentLimit _) = ''SetChargingProfile''"
| "action_of ClearCurrentLimit = ''ClearChargingProfile''"
| "action_of (GetConfiguration _) = ''GetConfiguration''"
| "action_of (ChangeConfiguration _ _) = ''ChangeConfiguration''"
| "action_of (TriggerMessage _ _) = ''TriggerMessage''"
| "action_of (GetCompositeSchedule _ _) = ''GetCompositeSchedule''"

fun is_limit_command :: "proxy_command \<Rightarrow> bool" where
  "is_limit_command (SetCurrentLimit _) = True"
| "is_limit_command ClearCurrentLimit = True"
| "is_limit_command _ = False"

text \<open>The derived serialisation: internally tagged by \<open>command\<close>, names in snake case.\<close>

fun command_json :: "proxy_command \<Rightarrow> json" where
  "command_json (SetCurrentLimit a) =
     Obj [(''command'', Str ''set_current_limit''), (''limit_a'', json_f64 a)]"
| "command_json ClearCurrentLimit = Obj [(''command'', Str ''clear_current_limit'')]"
| "command_json (GetConfiguration ks) =
     Obj [(''command'', Str ''get_configuration''), (''keys'', Arr (map Str ks))]"
| "command_json (ChangeConfiguration k v) =
     Obj [(''command'', Str ''change_configuration''), (''key'', Str k), (''value'', Str v)]"
| "command_json (TriggerMessage m c) =
     Obj [(''command'', Str ''trigger_message''), (''requested_message'', Str m),
          (''connector_id'', json_of_opt (\<lambda>n. Num (PosInt n)) c)]"
| "command_json (GetCompositeSchedule c d) =
     Obj [(''command'', Str ''get_composite_schedule''),
          (''connector_id'', json_of_opt (\<lambda>n. Num (PosInt n)) c), (''duration_s'', Num (PosInt d))]"

text \<open>The derived deserialisation, field by field.\<close>

fun de_f64 :: "json \<Rightarrow> f64 option" where
  "de_f64 (Num (Float a)) = Some a"
| "de_f64 (Num (PosInt n)) = Some (rnd (of_nat n))"
| "de_f64 (Num (NegInt i)) = Some (rnd (of_int i))"
| "de_f64 _ = None"

fun de_u32 :: "json \<Rightarrow> nat option" where
  "de_u32 (Num (PosInt n)) = (if n < 2 ^ 32 then Some n else None)"
| "de_u32 _ = None"

definition de_opt_u32 :: "json option \<Rightarrow> nat option option" where
  "de_opt_u32 v = (case v of None \<Rightarrow> Some None | Some Null \<Rightarrow> Some None
                   | Some w \<Rightarrow> map_option Some (de_u32 w))"

fun de_strings :: "json list \<Rightarrow> string list option" where
  "de_strings [] = Some []"
| "de_strings (v # vs) =
     (case as_str v of None \<Rightarrow> None | Some s \<Rightarrow> map_option ((#) s) (de_strings vs))"

definition de_keys :: "json option \<Rightarrow> string list option" where
  "de_keys v = (case v of None \<Rightarrow> Some [] | Some w \<Rightarrow> Option.bind (as_array w) de_strings)"

definition command_of_object :: "(string \<times> json) list \<Rightarrow> proxy_command option" where
  "command_of_object kvs =
     (let field = map_of kvs in
      Option.bind (Option.bind (field ''command'') as_str) (\<lambda>tag.
      if tag = ''set_current_limit'' then
        map_option SetCurrentLimit (Option.bind (field ''limit_a'') de_f64)
      else if tag = ''clear_current_limit'' then Some ClearCurrentLimit
      else if tag = ''get_configuration'' then
        map_option GetConfiguration (de_keys (field ''keys''))
      else if tag = ''change_configuration'' then
        Option.bind (Option.bind (field ''key'') as_str) (\<lambda>k.
          map_option (ChangeConfiguration k) (Option.bind (field ''value'') as_str))
      else if tag = ''trigger_message'' then
        Option.bind (Option.bind (field ''requested_message'') as_str) (\<lambda>m.
          map_option (TriggerMessage m) (de_opt_u32 (field ''connector_id'')))
      else if tag = ''get_composite_schedule'' then
        Option.bind (de_opt_u32 (field ''connector_id'')) (\<lambda>c.
          map_option (GetCompositeSchedule c)
            (case field ''duration_s'' of None \<Rightarrow> Some default_schedule_duration
             | Some v \<Rightarrow> de_u32 v))
      else None))"

datatype command_source = SourceMqtt | SourceReapply

record command_request =
  req_id :: string
  command :: proxy_command
  source :: command_source
  issued_at :: utc

definition request_new :: "utc \<Rightarrow> string \<Rightarrow> proxy_command \<Rightarrow> command_source \<Rightarrow> command_request" where
  "request_new now i c s = \<lparr>req_id = i, command = c, source = s, issued_at = now\<rparr>"

definition generated_id :: "utc \<Rightarrow> string \<Rightarrow> string" where
  "generated_id now prefix = prefix @ ''-'' @ show_int (timestamp_millis now)"

definition request_id_of :: "ext \<Rightarrow> utc \<Rightarrow> json option \<Rightarrow> string + string" where
  "request_id_of E now v =
     (case v of
        None \<Rightarrow> Inr (generated_id now ''cmd'')
      | Some Null \<Rightarrow> Inr (generated_id now ''cmd'')
      | Some (Num n) \<Rightarrow> Inr (show_json E (Num n))
      | Some (Str s) \<Rightarrow>
          if trim s \<noteq> [] then Inr s
          else Inl (''id must be a string or number, got '' @ show_json E (Str s))
      | Some other \<Rightarrow> Inl (''id must be a string or number, got '' @ show_json E other))"

text \<open>A numeric string in \<open>limit_a\<close> becomes the number.\<close>

definition lenient_limit :: "(string \<times> json) list \<Rightarrow> (string \<times> json) list" where
  "lenient_limit kvs =
     (case map_of kvs ''limit_a'' of
        Some (Str s) \<Rightarrow>
          (case parse_f64 (trim s) of Some n \<Rightarrow> obj_insert ''limit_a'' (json_f64 n) kvs | None \<Rightarrow> kvs)
      | _ \<Rightarrow> kvs)"

definition unrecognised :: "ext \<Rightarrow> json \<Rightarrow> string" where
  "unrecognised E v =
     ''unrecognised command ('' @ value_error E v @ ''); expected one of set_current_limit, ''
     @ ''clear_current_limit, get_configuration, change_configuration, ''
     @ ''trigger_message, get_composite_schedule''"

definition parse_command_payload ::
    "ext \<Rightarrow> utc \<Rightarrow> command_topic_kind \<Rightarrow> string \<Rightarrow> string + command_request" where
  "parse_command_payload E now kind payload =
     (case from_utf8 payload of
        None \<Rightarrow> Inl ''payload is not UTF-8''
      | Some untrimmed \<Rightarrow>
         (let text = trim untrimmed
          in if text = [] then Inl ''payload is empty''
          else if kind = TopicCurrentLimit \<and> \<not> starts_with ''{'' text then
            (let lowered = to_ascii_lowercase text
             in if lowered \<in> {''clear'', ''off'', ''none'', ''null''} then
                  Inr (request_new now (generated_id now ''limit'') ClearCurrentLimit SourceMqtt)
                else (case parse_f64 text of
                    None \<Rightarrow> Inl (''expected a number of amps or 'clear' on the current_limit topic, got ''
                                 @ debug_str E text)
                  | Some a \<Rightarrow>
                      Inr (request_new now (generated_id now ''limit'') (SetCurrentLimit a) SourceMqtt)))
          else (case from_str E text of
              Inl e \<Rightarrow> Inl (''payload is not valid JSON: '' @ e)
            | Inr v \<Rightarrow>
               (case as_object v of
                  None \<Rightarrow> Inl ''payload must be a JSON object''
                | Some object \<Rightarrow>
                   (case request_id_of E now (map_of object ''id'') of
                      Inl e \<Rightarrow> Inl e
                    | Inr i \<Rightarrow>
                       (let object' = lenient_limit (obj_remove ''id'' object)
                        in case command_of_object object' of
                             None \<Rightarrow> Inl (unrecognised E (Obj object'))
                           | Some c \<Rightarrow> Inr (request_new now i c SourceMqtt)))))))"

section \<open>The limit policy\<close>

record resolved_limit =
  requested_a :: f64
  applied_a :: f64
  limit_detail :: "string option"

definition round_tenth :: "f64 \<Rightarrow> f64" where
  "round_tenth a = f64_div_const (f64_round (f64_mul a (Fin 10))) 10"

definition resolve_limit :: "ext \<Rightarrow> charging_config \<Rightarrow> f64 \<Rightarrow> string + resolved_limit" where
  "resolve_limit E c a =
     (if \<not> is_finite a \<or> a < Fin 0 then
        Inl (''limit_a must be a non-negative number, got '' @ show_f64 E a)
      else if f64_eq a (Fin 0) then
        Inr \<lparr>requested_a = a, applied_a = Fin 0, limit_detail =
          Some ''0 A pauses charging (the charger reports SuspendedEVSE); the transaction stays open''\<rparr>
      else if a < min_limit_a c then
        Inr \<lparr>requested_a = a, applied_a = Fin 0, limit_detail =
          Some (show_f64 E a @ '' A is below the '' @ show_f64 E (min_limit_a c)
            @ '' A minimum an EV will charge at; sending 0 A, which pauses charging'')\<rparr>
      else if max_limit_a c < a then
        Inr \<lparr>requested_a = a, applied_a = round_tenth (max_limit_a c), limit_detail =
          Some (''clamped to the configured ceiling of '' @ show_f64 E (max_limit_a c) @ '' A'')\<rparr>
      else Inr \<lparr>requested_a = a, applied_a = round_tenth a, limit_detail = None\<rparr>)"

section \<open>Building the Call\<close>

definition TRIGGERABLE_MESSAGES :: "string list" where
  "TRIGGERABLE_MESSAGES =
     [''BootNotification'', ''DiagnosticsStatusNotification'', ''FirmwareStatusNotification'',
      ''Heartbeat'', ''MeterValues'', ''StatusNotification'']"

record prepared_call =
  prep_unique_id :: string
  prep_action :: string
  prep_raw :: string
  prep_applied_limit_a :: "f64 option"
  prep_detail :: "string option"

definition wire_limit :: "charging_config \<Rightarrow> f64 \<Rightarrow> f64" where
  "wire_limit c limit_a =
     (case rate_unit c of
        UnitA \<Rightarrow> limit_a
      | UnitW \<Rightarrow>
          (let phases = Fin (of_nat (case number_phases c of None \<Rightarrow> 1 | Some p \<Rightarrow> p))
           in round_tenth (f64_mul (f64_mul limit_a (nominal_voltage_v c)) phases)))"

definition set_charging_profile_payload :: "ext \<Rightarrow> charging_config \<Rightarrow> f64 \<Rightarrow> utc \<Rightarrow> json" where
  "set_charging_profile_payload E c limit_a now =
     (let period = Obj ([(''startPeriod'', Num (PosInt 0)), (''limit'', json_f64 (wire_limit c limit_a))]
                        @ (case number_phases c of None \<Rightarrow> []
                           | Some p \<Rightarrow> [(''numberPhases'', Num (PosInt p))]));
          schedule = Obj ([(''chargingRateUnit'', Str (rate_unit_str (rate_unit c))),
                           (''chargingSchedulePeriod'', Arr [period])]
                          @ (if profile_kind c = Absolute
                             then [(''startSchedule'', Str (rfc3339_secs E now))] else []))
      in Obj [(''connectorId'', Num (PosInt (connector_id c))),
              (''csChargingProfiles'',
               Obj [(''chargingProfileId'', json_int (profile_id c)),
                    (''stackLevel'', Num (PosInt (stack_level c))),
                    (''chargingProfilePurpose'', Str (purpose_str (purpose c))),
                    (''chargingProfileKind'', Str (kind_str (profile_kind c))),
                    (''chargingSchedule'', schedule)])])"

definition clear_charging_profile_payload :: "charging_config \<Rightarrow> json" where
  "clear_charging_profile_payload c =
     Obj [(''id'', json_int (profile_id c)), (''connectorId'', Num (PosInt (connector_id c))),
          (''chargingProfilePurpose'', Str (purpose_str (purpose c))),
          (''stackLevel'', Num (PosInt (stack_level c)))]"

text \<open>The payload of a command, the amps it applies and the note carried into the result.\<close>

fun command_payload ::
    "ext \<Rightarrow> charging_config \<Rightarrow> utc \<Rightarrow> proxy_command \<Rightarrow> string + json \<times> f64 option \<times> string option" where
  "command_payload E c now (SetCurrentLimit a) =
     (case resolve_limit E c a of
        Inl e \<Rightarrow> Inl e
      | Inr r \<Rightarrow> Inr (set_charging_profile_payload E c (applied_a r) now, Some (applied_a r), limit_detail r))"
| "command_payload E c now ClearCurrentLimit = Inr (clear_charging_profile_payload c, None, None)"
| "command_payload E c now (GetConfiguration ks) =
     Inr (if ks = [] then Obj [] else Obj [(''key'', Arr (map Str ks))], None, None)"
| "command_payload E c now (ChangeConfiguration k v) =
     (if k \<notin> set (allowed_configuration_keys c) then
        Inl (''configuration key '' @ debug_str E k
             @ '' is not in charging.allowed_configuration_keys'')
      else Inr (Obj [(''key'', Str k), (''value'', Str v)], None, None))"
| "command_payload E c now (TriggerMessage m conn) =
     (if m \<notin> set TRIGGERABLE_MESSAGES then
        Inl (''requested_message must be one of '' @ join_with '', '' TRIGGERABLE_MESSAGES
             @ '', got '' @ debug_str E m)
      else Inr (Obj ([(''requestedMessage'', Str m)]
                     @ (case conn of None \<Rightarrow> [] | Some n \<Rightarrow> [(''connectorId'', Num (PosInt n))])),
                None, None))"
| "command_payload E c now (GetCompositeSchedule conn d) =
     Inr (Obj [(''connectorId'', Num (PosInt (case conn of None \<Rightarrow> connector_id c | Some n \<Rightarrow> n))),
               (''duration'', Num (PosInt d)),
               (''chargingRateUnit'', Str (rate_unit_str (rate_unit c)))], None, None)"

definition call_json :: "string \<Rightarrow> string \<Rightarrow> json \<Rightarrow> json" where
  "call_json uid act payload = Arr [Num (PosInt 2), Str uid, Str act, payload]"

definition prepare_call ::
    "ext \<Rightarrow> charging_config \<Rightarrow> command_request \<Rightarrow> string \<Rightarrow> utc \<Rightarrow> string + prepared_call" where
  "prepare_call E c req uid now =
     (case command_payload E c now (command req) of
        Inl e \<Rightarrow> Inl e
      | Inr (payload, applied, detail) \<Rightarrow>
         (let act = action_of (command req)
          in case to_str E (call_json uid act payload) of
               Inl e \<Rightarrow> Inl (''could not serialise the OCPP frame: '' @ e)
             | Inr text \<Rightarrow>
                 Inr \<lparr>prep_unique_id = uid, prep_action = act, prep_raw = text,
                      prep_applied_limit_a = applied, prep_detail = detail\<rparr>))"

section \<open>Results\<close>

datatype command_status =
  Accepted | Rejected | StatusError | Timeout | NotConnected | Invalid | Superseded

fun status_str :: "command_status \<Rightarrow> string" where
  "status_str Accepted = ''accepted''"
| "status_str Rejected = ''rejected''"
| "status_str StatusError = ''error''"
| "status_str Timeout = ''timeout''"
| "status_str NotConnected = ''not_connected''"
| "status_str Invalid = ''invalid''"
| "status_str Superseded = ''superseded''"

record command_result =
  res_id :: string
  res_command :: json
  res_source :: command_source
  res_status :: command_status
  res_action :: "string option"
  requested_limit_a :: "f64 option"
  applied_limit_a :: "f64 option"
  ocpp_request :: "json option"
  charger_response :: "json option"
  res_detail :: "string option"
  res_timestamp :: string

record in_flight_call =
  fl_request :: command_request
  fl_prepared :: prepared_call
  sent_at :: nat

definition result_for_request ::
    "ext \<Rightarrow> utc \<Rightarrow> command_request \<Rightarrow> command_status \<Rightarrow> string option \<Rightarrow> command_result" where
  "result_for_request E now req st detail =
     \<lparr>res_id = req_id req, res_command = command_json (command req), res_source = source req,
      res_status = st, res_action = Some (action_of (command req)),
      requested_limit_a = (case command req of SetCurrentLimit a \<Rightarrow> Some a | _ \<Rightarrow> None),
      applied_limit_a = None, ocpp_request = None, charger_response = None, res_detail = detail,
      res_timestamp = rfc3339_millis E now\<rparr>"

definition invalid_payload :: "ext \<Rightarrow> utc \<Rightarrow> string \<Rightarrow> command_result" where
  "invalid_payload E now detail =
     \<lparr>res_id = generated_id now ''invalid'', res_command = Null, res_source = SourceMqtt,
      res_status = Invalid, res_action = None, requested_limit_a = None, applied_limit_a = None,
      ocpp_request = None, charger_response = None, res_detail = Some detail,
      res_timestamp = rfc3339_millis E now\<rparr>"

definition join_details :: "string option \<Rightarrow> string option \<Rightarrow> string option" where
  "join_details a b =
     (case (a, b) of
        (Some x, Some y) \<Rightarrow> Some (x @ ''; '' @ y)
      | (None, y) \<Rightarrow> y
      | (x, None) \<Rightarrow> x)"

definition result_for_in_flight ::
    "ext \<Rightarrow> utc \<Rightarrow> in_flight_call \<Rightarrow> command_status \<Rightarrow> json option \<Rightarrow> string option \<Rightarrow> command_result" where
  "result_for_in_flight E now fl st response detail =
     (result_for_request E now (fl_request fl) st None)
       \<lparr>res_action := Some (prep_action (fl_prepared fl)),
        applied_limit_a := prep_applied_limit_a (fl_prepared fl),
        ocpp_request := (case from_str E (prep_raw (fl_prepared fl)) of Inl _ \<Rightarrow> None | Inr v \<Rightarrow> Some v),
        charger_response := response,
        res_detail := join_details (prep_detail (fl_prepared fl)) detail\<rparr>"

definition is_limit_result :: "command_result \<Rightarrow> bool" where
  "is_limit_result r =
     (res_action r = Some ''SetChargingProfile'' \<or> res_action r = Some ''ClearChargingProfile'')"

definition call_result_status :: "string \<Rightarrow> string option \<Rightarrow> command_status \<times> string option" where
  "call_result_status act st =
     (case st of
        None \<Rightarrow> (Accepted, None)
      | Some s \<Rightarrow>
          if s = ''Accepted'' then (Accepted, None)
          else if act = ''ClearChargingProfile'' \<and> s = ''Unknown'' then
            (Accepted, Some ''the charger held no matching profile; nothing to clear'')
          else if act = ''ChangeConfiguration'' \<and> s = ''RebootRequired'' then
            (Accepted, Some ''stored; the charger needs a reboot before it takes effect'')
          else (Rejected, Some (''charger answered '' @ s)))"

definition interpret_response ::
    "ext \<Rightarrow> string \<Rightarrow> ocpp_frame \<Rightarrow> command_status \<times> json option \<times> string option" where
  "interpret_response E act frame =
     (let parsed = (case from_str E (raw frame) of Inl _ \<Rightarrow> Null | Inr v \<Rightarrow> v)
      in case message_type frame of
           CallError \<Rightarrow>
             (let code = (case Option.bind (get_idx 2 parsed) as_str of None \<Rightarrow> ''UnknownError'' | Some s \<Rightarrow> s);
                  descr = (case Option.bind (get_idx 3 parsed) as_str of None \<Rightarrow> '''' | Some s \<Rightarrow> s);
                  response = Obj [(''errorCode'', Str code), (''errorDescription'', Str descr),
                    (''errorDetails'', case get_idx 4 parsed of None \<Rightarrow> Null | Some v \<Rightarrow> v)];
                  detail = (if descr = [] then ''charger returned CallError '' @ code
                            else ''charger returned CallError '' @ code @ '': '' @ descr)
              in (StatusError, Some response, Some detail))
         | CallResult \<Rightarrow>
             (let payload = (case get_idx 2 parsed of None \<Rightarrow> Null | Some v \<Rightarrow> v);
                  (st, detail) = call_result_status act (Option.bind (get_key ''status'' payload) as_str)
              in (st, Some payload, detail))
         | Call _ \<Rightarrow> (StatusError, None, Some ''expected a response, got a Call''))"

end
