(* ===== verification/Forwarder.thy ===== *)
theory Forwarder
  imports Commands "HOL-Library.AList"
begin

text \<open>
  \<open>src/forwarder.rs\<close>: the events for the MQTT publisher, the tracker that correlates responses with
  Calls, the message sinks, and the forwarder with its two buffers. The lemmas show that a frame is
  sent byte for byte before anything else happens to it, that a response is labelled with the
  action of its Call, that buffers keep the newest frames in order, and that flushing neither
  loses, duplicates nor reorders a frame.
\<close>

section \<open>Events\<close>

datatype mqtt_event =
    MessageForwarded string ocpp_frame direction string
  | StateChanged string connection_state connection_state
  | CommandResultEvent string command_result

section \<open>The call tracker\<close>

record pending_call =
  pc_action :: string
  pc_direction :: direction
  pc_sent_at :: utc

text \<open>The hash map is an association list with distinct keys; its order is never observed.\<close>

record call_tracker =
  pending_calls :: "(string \<times> pending_call) list"
  max_age :: duration

definition tracker_new :: "duration \<Rightarrow> call_tracker" where
  "tracker_new age = \<lparr>pending_calls = [], max_age = age\<rparr>"

definition track_call :: "utc \<Rightarrow> string \<Rightarrow> string \<Rightarrow> direction \<Rightarrow> call_tracker \<Rightarrow> call_tracker" where
  "track_call now uid act d t =
     t\<lparr>pending_calls := AList.update uid \<lparr>pc_action = act, pc_direction = d, pc_sent_at = now\<rparr> (pending_calls t)\<rparr>"

definition resolve :: "string \<Rightarrow> call_tracker \<Rightarrow> string option \<times> call_tracker" where
  "resolve uid t =
     (map_option pc_action (map_of (pending_calls t) uid),
      t\<lparr>pending_calls := AList.delete uid (pending_calls t)\<rparr>)"

definition cleanup_expired :: "utc \<Rightarrow> call_tracker \<Rightarrow> nat \<times> call_tracker" where
  "cleanup_expired now t =
     (let age = chrono_from_std (from_secs 300) (max_age t);
          kept = filter (\<lambda>(_, p). now - pc_sent_at p < age) (pending_calls t)
      in (length (pending_calls t) - length kept, t\<lparr>pending_calls := kept\<rparr>))"

definition pending_count :: "call_tracker \<Rightarrow> nat" where
  "pending_count t = length (pending_calls t)"

definition has_recent_pending_in :: "utc \<Rightarrow> direction \<Rightarrow> duration \<Rightarrow> call_tracker \<Rightarrow> bool" where
  "has_recent_pending_in now d age t =
     list_ex (\<lambda>(_, p). pc_direction p = d \<and> now - pc_sent_at p < chrono_from_std (from_secs 10) age)
       (pending_calls t)"

section \<open>Sinks\<close>

text \<open>
  \<open>MessageSink::send_raw\<close> on a sink of state \<open>'s\<close>. Its contract is the locale \<open>outlet\<close>: \<open>Ok\<close> means
  the text was handed over, once and after everything handed over before.
\<close>

type_synonym 's send_raw = "'s \<Rightarrow> string \<Rightarrow> (proxy_error + unit) \<times> 's"

definition channel_sink_send :: "string channel send_raw" where
  "channel_sink_send c text =
     (case channel_send c text of
        (Inl _, c') \<Rightarrow> (Inl (Forwarding ''Destination channel closed''), c')
      | (Inr u, c') \<Rightarrow> (Inr (), c'))"

interpretation channel_sink: outlet channel_sink_send passed
proof unfold_locales
  fix c x
  show "passed (snd (channel_sink_send c x)) = (if isl (fst (channel_sink_send c x)) then passed c else passed c @ [x])"
    using waiting_channel.taken_put[of c x]
    by (auto simp: channel_sink_send_def split: prod.splits sum.splits)
qed

section \<open>The forwarder\<close>

record message_forwarder =
  upstream_buffer :: "ocpp_frame list"
  downstream_buffer :: "ocpp_frame list"
  max_buffer_size :: nat
  max_buffer_duration :: duration
  mqtt_tx :: "mqtt_event channel"
  call_tracker :: call_tracker
  charge_point_id :: string

definition with_charge_point_id ::
    "mqtt_event channel \<Rightarrow> nat \<Rightarrow> duration \<Rightarrow> duration \<Rightarrow> string \<Rightarrow> message_forwarder" where
  "with_charge_point_id mtx n dur age cp =
     \<lparr>upstream_buffer = [], downstream_buffer = [], max_buffer_size = n, max_buffer_duration = dur,
      mqtt_tx = mtx, call_tracker = tracker_new age, charge_point_id = cp\<rparr>"

definition forwarder_new :: "mqtt_event channel \<Rightarrow> nat \<Rightarrow> duration \<Rightarrow> duration \<Rightarrow> message_forwarder" where
  "forwarder_new mtx n dur age = with_charge_point_id mtx n dur age ''unknown''"

definition has_recent_pending_call :: "utc \<Rightarrow> direction \<Rightarrow> duration \<Rightarrow> message_forwarder \<Rightarrow> bool" where
  "has_recent_pending_call now d age fw = has_recent_pending_in now d age (call_tracker fw)"

definition resolve_action ::
    "utc \<Rightarrow> ocpp_frame \<Rightarrow> direction \<Rightarrow> message_forwarder \<Rightarrow> string \<times> message_forwarder" where
  "resolve_action now f d fw =
     (case message_type f of
        Call act \<Rightarrow> (act, fw\<lparr>call_tracker := track_call now (unique_id f) act d (call_tracker fw)\<rparr>)
      | _ \<Rightarrow>
         (let (found, t) = resolve (unique_id f) (call_tracker fw)
          in (case found of None \<Rightarrow> ''Unknown'' | Some a \<Rightarrow> a, fw\<lparr>call_tracker := t\<rparr>)))"

definition forward_message ::
    "'s send_raw \<Rightarrow> utc \<Rightarrow> direction \<Rightarrow> ocpp_frame \<Rightarrow> 's \<Rightarrow> message_forwarder
      \<Rightarrow> (proxy_error + unit) \<times> 's \<times> message_forwarder" where
  "forward_message send now d f sink fw =
     (case send sink (raw f) of
        (Inl e, sink') \<Rightarrow> (Inl e, sink', fw)
      | (Inr _, sink') \<Rightarrow>
         (let (act, fw') = resolve_action now f d fw;
              ev = MessageForwarded (charge_point_id fw') f d act
          in (Inr (), sink', fw'\<lparr>mqtt_tx := snd (try_send (mqtt_tx fw') ev)\<rparr>)))"

definition forward_upstream where
  "forward_upstream send now f sink fw = forward_message send now ChargerToCentral f sink fw"

definition forward_downstream where
  "forward_downstream send now f sink fw = forward_message send now CentralToCharger f sink fw"

definition buffer_upstream :: "ocpp_frame \<Rightarrow> message_forwarder \<Rightarrow> message_forwarder" where
  "buffer_upstream f fw =
     (let q = (if max_buffer_size fw \<le> length (upstream_buffer fw) then tl (upstream_buffer fw)
               else upstream_buffer fw)
      in fw\<lparr>upstream_buffer := q @ [f]\<rparr>)"

definition buffer_downstream :: "ocpp_frame \<Rightarrow> message_forwarder \<Rightarrow> message_forwarder" where
  "buffer_downstream f fw =
     (let q = (if max_buffer_size fw \<le> length (downstream_buffer fw) then tl (downstream_buffer fw)
               else downstream_buffer fw)
      in fw\<lparr>downstream_buffer := q @ [f]\<rparr>)"

definition flush_upstream ::
    "'s send_raw \<Rightarrow> 's \<Rightarrow> message_forwarder \<Rightarrow> (proxy_error + nat) \<times> 's \<times> message_forwarder" where
  "flush_upstream send sink fw =
     (let count = length (upstream_buffer fw);
          ((err, rest), sink') = flush_loop send raw (upstream_buffer fw) sink;
          fw' = fw\<lparr>upstream_buffer := rest\<rparr>
      in case err of Some e \<Rightarrow> (Inl e, sink', fw') | None \<Rightarrow> (Inr count, sink', fw'))"

definition flush_downstream ::
    "'s send_raw \<Rightarrow> 's \<Rightarrow> message_forwarder \<Rightarrow> (proxy_error + nat) \<times> 's \<times> message_forwarder" where
  "flush_downstream send sink fw =
     (let count = length (downstream_buffer fw);
          ((err, rest), sink') = flush_loop send raw (downstream_buffer fw) sink;
          fw' = fw\<lparr>downstream_buffer := rest\<rparr>
      in case err of Some e \<Rightarrow> (Inl e, sink', fw') | None \<Rightarrow> (Inr count, sink', fw'))"

definition discard_downstream_buffer :: "message_forwarder \<Rightarrow> message_forwarder" where
  "discard_downstream_buffer fw =
     (if 0 < length (downstream_buffer fw) then fw\<lparr>downstream_buffer := []\<rparr> else fw)"

definition evict_expired_messages :: "utc \<Rightarrow> message_forwarder \<Rightarrow> nat \<times> message_forwarder" where
  "evict_expired_messages now fw =
     (let cutoff = now - chrono_from_std (from_secs 30) (max_buffer_duration fw);
          up = filter (\<lambda>f. cutoff \<le> received_at f) (upstream_buffer fw);
          down = filter (\<lambda>f. cutoff \<le> received_at f) (downstream_buffer fw)
      in ((length (upstream_buffer fw) - length up) + (length (downstream_buffer fw) - length down),
          fw\<lparr>upstream_buffer := up, downstream_buffer := down\<rparr>))"

definition cleanup_expired_calls :: "utc \<Rightarrow> message_forwarder \<Rightarrow> nat \<times> message_forwarder" where
  "cleanup_expired_calls now fw =
     (let (n, t) = cleanup_expired now (call_tracker fw) in (n, fw\<lparr>call_tracker := t\<rparr>))"

definition pending_calls_count :: "message_forwarder \<Rightarrow> nat" where
  "pending_calls_count fw = pending_count (call_tracker fw)"

section \<open>Buffers\<close>

interpretation up_buffer: evicting_buffer upstream_buffer max_buffer_size buffer_upstream
  by unfold_locales (simp_all add: buffer_upstream_def push_evict_def Let_def)

interpretation down_buffer: evicting_buffer downstream_buffer max_buffer_size buffer_downstream
  by unfold_locales (simp_all add: buffer_downstream_def push_evict_def Let_def)

text \<open>The invariant of a forwarder: bounded buffers, and at most one pending Call per id.\<close>

definition forwarder_ok :: "message_forwarder \<Rightarrow> bool" where
  "forwarder_ok fw \<longleftrightarrow> fits (max_buffer_size fw) (upstream_buffer fw)
     \<and> fits (max_buffer_size fw) (downstream_buffer fw)
     \<and> distinct (map fst (pending_calls (call_tracker fw)))"

lemma forwarder_ok_new: "forwarder_ok (with_charge_point_id mtx n dur age cp)"
  by (simp add: forwarder_ok_def with_charge_point_id_def fits_def tracker_new_def)

lemma resolve_action_frame [record_frame, simp]:
  "upstream_buffer (snd (resolve_action now f d fw)) = upstream_buffer fw"
  "downstream_buffer (snd (resolve_action now f d fw)) = downstream_buffer fw"
  "max_buffer_size (snd (resolve_action now f d fw)) = max_buffer_size fw"
  "max_buffer_duration (snd (resolve_action now f d fw)) = max_buffer_duration fw"
  "mqtt_tx (snd (resolve_action now f d fw)) = mqtt_tx fw"
  "charge_point_id (snd (resolve_action now f d fw)) = charge_point_id fw"
  by (auto simp: resolve_action_def Let_def split: ocpp_message_type.splits prod.splits)

lemma forward_message_Inl:
  "fst (send sink (raw f)) = Inl e \<Longrightarrow>
     forward_message send now d f sink fw = (Inl e, snd (send sink (raw f)), fw)"
  by (simp add: forward_message_def case_prod_unfold)

lemma forward_message_Inr:
  "fst (send sink (raw f)) = Inr u \<Longrightarrow>
     forward_message send now d f sink fw =
       (Inr (), snd (send sink (raw f)),
        (snd (resolve_action now f d fw))\<lparr>mqtt_tx := snd (try_send (mqtt_tx fw)
            (MessageForwarded (charge_point_id fw) f d (fst (resolve_action now f d fw))))\<rparr>)"
  by (simp add: forward_message_def Let_def case_prod_unfold)

lemmas forward_message_cases = forward_message_Inl forward_message_Inr

lemma forward_message_frame [record_frame, simp]:
  "upstream_buffer (snd (snd (forward_message send now d f sink fw))) = upstream_buffer fw"
  "downstream_buffer (snd (snd (forward_message send now d f sink fw))) = downstream_buffer fw"
  "max_buffer_size (snd (snd (forward_message send now d f sink fw))) = max_buffer_size fw"
  "charge_point_id (snd (snd (forward_message send now d f sink fw))) = charge_point_id fw"
  by (cases "fst (send sink (raw f))"; simp add: forward_message_cases)+

lemma forward_message_sink [simp]: "fst (snd (forward_message send now d f sink fw)) = snd (send sink (raw f))"
  by (cases "fst (send sink (raw f))") (simp_all add: forward_message_cases)

lemma forward_message_result [simp]: "fst (forward_message send now d f sink fw) = fst (send sink (raw f))"
  by (cases "fst (send sink (raw f))") (simp_all add: forward_message_cases)

lemma tracker_after_forward:
  "call_tracker (snd (snd (forward_message send now d f sink fw))) =
     (if isl (fst (send sink (raw f))) then call_tracker fw
      else call_tracker (snd (resolve_action now f d fw)))"
  by (cases "fst (send sink (raw f))") (simp_all add: forward_message_cases)

lemma distinct_resolve_action:
  "distinct (map fst (pending_calls (call_tracker fw))) \<Longrightarrow>
   distinct (map fst (pending_calls (call_tracker (snd (resolve_action now f d fw)))))"
  by (auto simp: resolve_action_def track_call_def resolve_def distinct_update distinct_delete
      split: ocpp_message_type.splits)

lemma forwarder_ok_forward:
  "forwarder_ok fw \<Longrightarrow> forwarder_ok (snd (snd (forward_message send now d f sink fw)))"
  by (auto simp: forwarder_ok_def tracker_after_forward distinct_resolve_action)

lemma forwarder_ok_buffer:
  "forwarder_ok fw \<Longrightarrow> forwarder_ok (buffer_upstream f fw)"
  "forwarder_ok fw \<Longrightarrow> forwarder_ok (buffer_downstream f fw)"
  using up_buffer.fits_add[of fw f] down_buffer.fits_add[of fw f]
  by (auto simp: forwarder_ok_def buffer_upstream_def buffer_downstream_def Let_def)

lemma flush_upstream_unfold:
  "flush_upstream send sink fw =
     (case fst (fst (flush_loop send raw (upstream_buffer fw) sink)) of
        Some e \<Rightarrow> Inl e | None \<Rightarrow> Inr (length (upstream_buffer fw)),
      snd (flush_loop send raw (upstream_buffer fw) sink),
      fw\<lparr>upstream_buffer := snd (fst (flush_loop send raw (upstream_buffer fw) sink))\<rparr>)"
  by (simp add: flush_upstream_def Let_def split: prod.splits option.splits)

lemma flush_downstream_unfold:
  "flush_downstream send sink fw =
     (case fst (fst (flush_loop send raw (downstream_buffer fw) sink)) of
        Some e \<Rightarrow> Inl e | None \<Rightarrow> Inr (length (downstream_buffer fw)),
      snd (flush_loop send raw (downstream_buffer fw) sink),
      fw\<lparr>downstream_buffer := snd (fst (flush_loop send raw (downstream_buffer fw) sink))\<rparr>)"
  by (simp add: flush_downstream_def Let_def split: prod.splits option.splits)

lemma flush_loop_length: "length (snd (fst (flush_loop put key q s))) \<le> length q"
  using flush_loop_suffix[of put key q s] by auto

lemma forwarder_ok_flush:
  "forwarder_ok fw \<Longrightarrow> forwarder_ok (snd (snd (flush_upstream send sink fw)))"
  "forwarder_ok fw \<Longrightarrow> forwarder_ok (snd (snd (flush_downstream send sink fw)))"
  by (auto simp: forwarder_ok_def flush_upstream_unfold flush_downstream_unfold
        intro: fits_sub[OF _ flush_loop_length])

lemma forwarder_ok_housekeeping:
  "forwarder_ok fw \<Longrightarrow> forwarder_ok (discard_downstream_buffer fw)"
  "forwarder_ok fw \<Longrightarrow> forwarder_ok (snd (evict_expired_messages now fw))"
  "forwarder_ok fw \<Longrightarrow> forwarder_ok (snd (cleanup_expired_calls now fw))"
  by (auto simp: forwarder_ok_def discard_downstream_buffer_def evict_expired_messages_def
      cleanup_expired_calls_def cleanup_expired_def Let_def fits_def distinct_map_filter
      intro: order_trans[OF length_filter_le])

lemmas forwarder_ok_steps =
  forwarder_ok_forward forwarder_ok_buffer forwarder_ok_flush forwarder_ok_housekeeping

section \<open>Correlation of responses\<close>

definition tracked :: "message_forwarder \<Rightarrow> string \<Rightarrow> pending_call option" where
  "tracked fw uid = map_of (pending_calls (call_tracker fw)) uid"

lemma tracked_resolve_action:
  "tracked (snd (resolve_action now f d fw)) uid =
     (if uid \<noteq> unique_id f then tracked fw uid
      else case message_type f of
             Call act \<Rightarrow> Some \<lparr>pc_action = act, pc_direction = d, pc_sent_at = now\<rparr> | _ \<Rightarrow> None)"
  by (auto simp: tracked_def resolve_action_def track_call_def resolve_def update_conv' delete_conv'
      split: ocpp_message_type.splits)

lemma tracked_forward_other:
  "uid \<noteq> unique_id f \<Longrightarrow> tracked (snd (snd (forward_message send now d f sink fw))) uid = tracked fw uid"
  using tracked_resolve_action[of now f d fw uid]
  by (simp add: tracked_def tracker_after_forward)

lemma fst_resolve_action:
  "fst (resolve_action now f d fw) =
     (case message_type f of Call act \<Rightarrow> act
      | _ \<Rightarrow> (case tracked fw (unique_id f) of None \<Rightarrow> ''Unknown'' | Some p \<Rightarrow> pc_action p))"
  by (auto simp: resolve_action_def resolve_def tracked_def split: ocpp_message_type.splits option.splits)

lemma recent_pending_iff:
  assumes "distinct (map fst (pending_calls (call_tracker fw)))"
  shows "has_recent_pending_call now d age fw \<longleftrightarrow>
    (\<exists>uid p. tracked fw uid = Some p \<and> pc_direction p = d \<and> now - pc_sent_at p < chrono_from_std (from_secs 10) age)"
  using assms by (force simp: has_recent_pending_call_def has_recent_pending_in_def list_ex_iff tracked_def)

section \<open>Properties\<close>

text \<open>
  C27: Flushing neither loses, duplicates nor reorders. Whatever the sink does, what it has accepted
  followed by what is still buffered is what it had accepted followed by what was buffered; when
  the flush reports success the buffer is empty and the count is the number of frames sent.
\<close>

theorem flush_conserves_order:
  assumes "outlet send sent" "flush_upstream send sink fw = (r, sink', fw')"
  shows "sent sink' @ map raw (upstream_buffer fw') = sent sink @ map raw (upstream_buffer fw)
    \<and> (\<forall>n. r = Inr n \<longrightarrow> upstream_buffer fw' = [] \<and> n = length (upstream_buffer fw))"
  using assms(2) outlet.flush_conserves[OF assms(1), of raw "upstream_buffer fw" sink]
    flush_loop_ok[of send raw "upstream_buffer fw" sink]
  by (auto simp: flush_upstream_unfold split: option.splits)

definition demo_buffered :: message_forwarder where
  "demo_buffered = buffer_upstream \<lparr>raw = ''a'', message_type = CallResult, unique_id = ''1'', received_at = 0\<rparr>
     (with_charge_point_id (channel_new 10) 100 30 300 ''CP1'')"

theorem flush_conserves_order_witness:
  "passed (fst (snd (flush_upstream channel_sink_send (channel_new 4) demo_buffered)))
     @ map raw (upstream_buffer (snd (snd (flush_upstream channel_sink_send (channel_new 4) demo_buffered)))) = [''a'']"
  using flush_conserves_order[OF channel_sink.outlet_axioms, of "channel_new 4" demo_buffered
      "fst (flush_upstream channel_sink_send (channel_new 4) demo_buffered)"
      "fst (snd (flush_upstream channel_sink_send (channel_new 4) demo_buffered))"
      "snd (snd (flush_upstream channel_sink_send (channel_new 4) demo_buffered))"]
  by (simp add: demo_buffered_def buffer_upstream_def with_charge_point_id_def channel_new_def)

text \<open>
  The buffers keep the newest frames: after any number of frames the upstream buffer holds the
  last \<open>max 1 n\<close> of them in order, where \<open>n\<close> is the configured size.
\<close>

lemma buffer_keeps_newest:
  "upstream_buffer (fold buffer_upstream fs (with_charge_point_id mtx n dur age cp)) = drop (length fs - max 1 n) fs"
  using up_buffer.contents_fold[of "with_charge_point_id mtx n dur age cp" fs]
  by (simp add: with_charge_point_id_def fits_def)

text \<open>Several frames forwarded one after the other.\<close>

definition forward_all where
  "forward_all send ms st =
     fold (\<lambda>(now, d, f) (sink, fw). snd (forward_message send now d f sink fw)) ms st"

lemma forward_all_tracked:
  "\<forall>(now, d, f) \<in> set ms. unique_id f \<noteq> uid \<Longrightarrow>
     tracked (snd (forward_all send ms st)) uid = tracked (snd st) uid
     \<and> charge_point_id (snd (forward_all send ms st)) = charge_point_id (snd st)"
  by (induction ms arbitrary: st) (auto simp: forward_all_def tracked_forward_other split: prod.splits)

text \<open>
  C28: A response is labelled with the action of its Call. When a Call and later the response with its
  id are forwarded, with any frames of other ids in between in either direction, the event
  published for the response carries the Call's action and the charger's id.
\<close>

theorem response_carries_call_action:
  assumes "\<forall>s t. \<not> isl (fst (send s t))"
    and "message_type f = Call a" "\<not> (\<exists>b. message_type g = Call b)" "unique_id g = unique_id f"
    and "\<forall>(now, d, h) \<in> set ms. unique_id h \<noteq> unique_id f"
    and "(sink', fw') = forward_all send (earlier @ [(t1, d, f)] @ ms) (sink, fw)"
    and "(r, sink'', fw'') = forward_message send t2 d' g sink' fw'"
  shows "offered (mqtt_tx fw'') = offered (mqtt_tx fw') @ [MessageForwarded (charge_point_id fw') g d' a]"
proof -
  obtain s0 fw0 where st0: "forward_all send earlier (sink, fw) = (s0, fw0)" by fastforce
  obtain s1 fw1 where st1: "snd (forward_message send t1 d f s0 fw0) = (s1, fw1)" by fastforce
  have "(sink', fw') = forward_all send ms (s1, fw1)"
    using assms(6) st0 st1 by (simp add: forward_all_def)
  then have "tracked fw' (unique_id f) = tracked fw1 (unique_id f)"
    using forward_all_tracked[OF assms(5), of send "(s1, fw1)"] by (metis snd_conv)
  moreover have "\<not> isl (fst (send s0 (raw f)))" using assms(1) by blast
  then have "tracked fw1 (unique_id f) = tracked (snd (resolve_action t1 f d fw0)) (unique_id f)"
    using st1 tracker_after_forward[of send t1 d f s0 fw0] by (simp add: tracked_def)
  ultimately have "fst (resolve_action t2 g d' fw') = a"
    using assms(2,3,4) by (cases "message_type g") (auto simp: tracked_resolve_action fst_resolve_action)
  moreover obtain u where "fst (send sink' (raw g)) = Inr u"
    using assms(1) by (metis sum.collapse(2))
  ultimately show ?thesis using assms(7) by (simp add: forward_message_Inr)
qed

definition demo_sink :: "string list send_raw" where
  "demo_sink xs t = (Inr (), xs @ [t])"

theorem response_carries_call_action_witness:
  "let f = \<lparr>raw = ''c'', message_type = Call ''Heartbeat'', unique_id = ''1'', received_at = 0\<rparr>;
       g = \<lparr>raw = ''r'', message_type = CallResult, unique_id = ''1'', received_at = 1\<rparr>;
       st = forward_all demo_sink ([] @ [(0, ChargerToCentral, f)] @ []) ([], with_charge_point_id (channel_new 10) 100 30 300 ''CP1'')
   in offered (mqtt_tx (snd (snd (forward_message demo_sink 1 CentralToCharger g (fst st) (snd st)))))
      = offered (mqtt_tx (snd st)) @ [MessageForwarded (charge_point_id (snd st)) g CentralToCharger ''Heartbeat'']"
  unfolding Let_def
  by (rule response_carries_call_action[where send = demo_sink and ms = "[]" and earlier = "[]" and d = ChargerToCentral
        and f = "\<lparr>raw = ''c'', message_type = Call ''Heartbeat'', unique_id = ''1'', received_at = 0\<rparr>"
        and sink = "[]" and fw = "with_charge_point_id (channel_new 10) 100 30 300 ''CP1''"])
     (simp_all add: demo_sink_def prod_eq_iff)

text \<open>
  C29: MQTT never disturbs forwarding. Whether the event channel is full, closed or has room, forwarding
  a frame hands the sink exactly the frame's text, once: what the sink is afterwards and whether the frame counts as forwarded is
  what sending that text alone gives. Tracker and buffers are the same whatever the channel, and the channel is
  offered the one event of a forwarded frame.
\<close>

theorem forwarding_independent_of_mqtt:
  "forward_message send now d f sink (fw\<lparr>mqtt_tx := ch\<rparr>) =
     (let (r, sink', fw') = forward_message send now d f sink fw;
          ev = MessageForwarded (charge_point_id fw) f d (fst (resolve_action now f d fw))
      in (r, sink', fw'\<lparr>mqtt_tx := if isl r then ch else snd (try_send ch ev)\<rparr>))
   \<and> fst (snd (forward_message send now d f sink fw)) = snd (send sink (raw f))
   \<and> fst (forward_message send now d f sink fw) = fst (send sink (raw f))"
proof -
  have "resolve_action now f d (fw\<lparr>mqtt_tx := ch\<rparr>) = (fst (resolve_action now f d fw), (snd (resolve_action now f d fw))\<lparr>mqtt_tx := ch\<rparr>)"
    by (simp add: resolve_action_def Let_def split: ocpp_message_type.splits prod.splits)
  then show ?thesis
    by (cases "fst (send sink (raw f))") (simp_all add: forward_message_cases)
qed

end
