(* ===== verification/Local_Calls.thy ===== *)
theory Local_Calls
  imports Commands "HOL-Library.Multiset"
begin

text \<open>
  \<open>src/command.rs\<close>, the stateful part: the per-session queue of proxy Calls and the router that
  finds a charger's session. The lemmas show that the queue keeps its bound, holds at most one
  limit command, never has two Calls in flight, never loses a request without handing it back, and
  never issues the same unique id twice; the router is an instance of the generation-guarded
  registry.
\<close>

section \<open>The queue\<close>

record local_call_queue =
  queued :: "command_request list"
  in_flight :: "in_flight_call option"
  timeout :: duration
  q_capacity :: nat
  sequence :: u64

definition queue_new :: "duration \<Rightarrow> nat \<Rightarrow> local_call_queue" where
  "queue_new t cap = \<lparr>queued = [], in_flight = None, timeout = t, q_capacity = max cap 1, sequence = 0\<rparr>"

definition push :: "command_request \<Rightarrow> local_call_queue \<Rightarrow> command_request list \<times> local_call_queue" where
  "push req q =
     (let limit = (\<lambda>r. is_limit_command (command r));
          (displaced, kept) =
            (if limit req then (filter limit (queued q), filter (\<lambda>r. \<not> limit r) (queued q))
             else ([], queued q));
          (displaced', kept') =
            (if q_capacity q \<le> length kept
             then (case kept of [] \<Rightarrow> (displaced, kept) | oldest # rest \<Rightarrow> (displaced @ [oldest], rest))
             else (displaced, kept))
      in (displaced', q\<lparr>queued := kept' @ [req]\<rparr>))"

definition has_in_flight :: "local_call_queue \<Rightarrow> bool" where
  "has_in_flight q = (in_flight q \<noteq> None)"

definition queue_is_empty :: "local_call_queue \<Rightarrow> bool" where
  "queue_is_empty q = (queued q = [] \<and> in_flight q = None)"

definition queued_len :: "local_call_queue \<Rightarrow> nat" where
  "queued_len q = length (queued q)"

definition is_ours :: "string \<Rightarrow> local_call_queue \<Rightarrow> bool" where
  "is_ours uid q = (case in_flight q of None \<Rightarrow> False | Some f \<Rightarrow> prep_unique_id (fl_prepared f) = uid)"

definition next_unique_id :: "utc \<Rightarrow> local_call_queue \<Rightarrow> string \<times> local_call_queue" where
  "next_unique_id now q =
     (let n = sequence q + 1
      in (UNIQUE_ID_PREFIX @ show_int (timestamp_millis now) @ ''-'' @ show_nat (unat n), q\<lparr>sequence := n\<rparr>))"

definition pop_next :: "local_call_queue \<Rightarrow> command_request option \<times> local_call_queue" where
  "pop_next q =
     (if in_flight q \<noteq> None then (None, q)
      else case queued q of [] \<Rightarrow> (None, q) | r # rest \<Rightarrow> (Some r, q\<lparr>queued := rest\<rparr>))"

definition set_in_flight ::
    "nat \<Rightarrow> command_request \<Rightarrow> prepared_call \<Rightarrow> local_call_queue \<Rightarrow> local_call_queue" where
  "set_in_flight inst req prep q =
     q\<lparr>in_flight := Some \<lparr>fl_request = req, fl_prepared = prep, sent_at = inst\<rparr>\<rparr>"

definition take_response :: "string \<Rightarrow> local_call_queue \<Rightarrow> in_flight_call option \<times> local_call_queue" where
  "take_response uid q = (if is_ours uid q then (in_flight q, q\<lparr>in_flight := None\<rparr>) else (None, q))"

definition expire ::
    "utc \<Rightarrow> nat \<Rightarrow> local_call_queue
      \<Rightarrow> (command_request list \<times> in_flight_call option) \<times> local_call_queue" where
  "expire now inst q =
     (let max_age = chrono_from_std (from_secs 30) (timeout q);
          old = (\<lambda>r. max_age \<le> now - issued_at r);
          expired = filter old (queued q);
          kept = filter (\<lambda>r. \<not> old r) (queued q);
          late = (case in_flight q of None \<Rightarrow> False | Some f \<Rightarrow> timeout q \<le> inst - sent_at f)
      in ((expired, if late then in_flight q else None),
          q\<lparr>queued := kept, in_flight := (if late then None else in_flight q)\<rparr>))"

definition drain ::
    "local_call_queue \<Rightarrow> (command_request list \<times> in_flight_call option) \<times> local_call_queue" where
  "drain q = ((queued q, in_flight q), q\<lparr>queued := [], in_flight := None\<rparr>)"

section \<open>The router\<close>

datatype dispatch_error = DispatchNotConnected | QueueFull

record 'tx registration =
  generation :: u64
  tx :: 'tx

type_synonym 'tx command_router = "string \<rightharpoonup> 'tx registration"

definition router_register ::
    "string \<Rightarrow> u64 \<Rightarrow> 'tx \<Rightarrow> 'tx command_router \<Rightarrow> 'tx command_router" where
  "router_register cp g t m = m(cp \<mapsto> \<lparr>generation = g, tx = t\<rparr>)"

definition router_deregister :: "string \<Rightarrow> u64 \<Rightarrow> 'tx command_router \<Rightarrow> bool \<times> 'tx command_router" where
  "router_deregister cp g m =
     (case m cp of
        Some reg \<Rightarrow> if generation reg = g then (True, m(cp := None)) else (False, m)
      | None \<Rightarrow> (False, m))"

definition is_connected :: "string \<Rightarrow> 'tx command_router \<Rightarrow> bool" where
  "is_connected cp m = (m cp \<noteq> None)"

text \<open>\<open>send\<close> is the effect of \<open>mpsc::Sender::try_send\<close> on the handle \<open>tx\<close>.\<close>

definition dispatch ::
    "('tx \<Rightarrow> command_request \<Rightarrow> (try_send_error + unit) \<times> 'tx) \<Rightarrow> string \<Rightarrow> command_request
      \<Rightarrow> 'tx command_router \<Rightarrow> (dispatch_error + unit) \<times> 'tx command_router" where
  "dispatch send cp req m =
     (case m cp of
        None \<Rightarrow> (Inl DispatchNotConnected, m)
      | Some reg \<Rightarrow>
         (case send (tx reg) req of
            (Inr u, t) \<Rightarrow> (Inr (), m(cp \<mapsto> reg\<lparr>tx := t\<rparr>))
          | (Inl Full, t) \<Rightarrow> (Inl QueueFull, m(cp \<mapsto> reg\<lparr>tx := t\<rparr>))
          | (Inl Closed, t) \<Rightarrow> (Inl DispatchNotConnected, m(cp \<mapsto> reg\<lparr>tx := t\<rparr>))))"

definition router_entry :: "'tx command_router \<Rightarrow> string \<Rightarrow> u64 option" where
  "router_entry m cp = map_option generation (m cp)"

interpretation router: generation_registry router_entry router_register router_deregister
  by unfold_locales
     (auto simp: router_entry_def router_register_def router_deregister_def fun_eq_iff split: option.splits)

section \<open>Queue invariant\<close>

definition limit_requests :: "command_request list \<Rightarrow> command_request list" where
  "limit_requests rs = filter (\<lambda>r. is_limit_command (command r)) rs"

definition queue_ok :: "local_call_queue \<Rightarrow> bool" where
  "queue_ok q \<longleftrightarrow> 1 \<le> q_capacity q \<and> length (queued q) \<le> q_capacity q
     \<and> length (limit_requests (queued q)) \<le> 1"

text \<open>Every request the queue is responsible for.\<close>

definition held :: "local_call_queue \<Rightarrow> command_request multiset" where
  "held q = mset (queued q) + (case in_flight q of None \<Rightarrow> {#} | Some f \<Rightarrow> {#fl_request f#})"

definition taken_back :: "command_request list \<times> in_flight_call option \<Rightarrow> command_request multiset" where
  "taken_back p = mset (fst p) + (case snd p of None \<Rightarrow> {#} | Some f \<Rightarrow> {#fl_request f#})"

lemma queue_ok_new: "queue_ok (queue_new t cap)"
  by (simp add: queue_ok_def queue_new_def limit_requests_def)

lemma limit_requests_sub: "length (limit_requests (filter P rs)) \<le> length (limit_requests rs)"
  by (induction rs) (auto simp: limit_requests_def)

lemma limit_requests_tl: "length (limit_requests (tl rs)) \<le> length (limit_requests rs)"
  by (cases rs) (auto simp: limit_requests_def)

lemma limit_requests_append: "limit_requests (xs @ ys) = limit_requests xs @ limit_requests ys"
  by (simp add: limit_requests_def)

text \<open>What \<open>push\<close> keeps of the queue before the new request joins it.\<close>

definition survivors :: "command_request \<Rightarrow> local_call_queue \<Rightarrow> command_request list" where
  "survivors req q =
     (let kept = (if is_limit_command (command req)
                  then filter (\<lambda>r. \<not> is_limit_command (command r)) (queued q) else queued q)
      in if q_capacity q \<le> length kept then tl kept else kept)"

lemma push_queued: "queued (snd (push req q)) = survivors req q @ [req]"
  by (auto simp: push_def survivors_def Let_def split: list.splits)

lemma push_frame [record_frame, simp]:
  "in_flight (snd (push req q)) = in_flight q"
  "q_capacity (snd (push req q)) = q_capacity q"
  "timeout (snd (push req q)) = timeout q"
  "sequence (snd (push req q)) = sequence q"
  by (auto simp: push_def Let_def split: list.splits)

lemma mset_filter_split: "mset (filter P xs) + mset (filter (\<lambda>x. \<not> P x) xs) = mset xs"
  by (induction xs) auto

lemma push_displaced:
  "mset (fst (push req q)) + mset (survivors req q) = mset (queued q)"
proof -
  define limit where "limit = (\<lambda>r :: command_request. is_limit_command (command r))"
  define displaced kept where "displaced = (if limit req then filter limit (queued q) else [])"
    and "kept = (if limit req then filter (\<lambda>r. \<not> limit r) (queued q) else queued q)"
  have split: "mset displaced + mset kept = mset (queued q)"
    by (simp add: displaced_def kept_def mset_filter_split)
  have "fst (push req q) = displaced @ (if q_capacity q \<le> length kept then take 1 kept else [])"
    by (cases "limit req") (auto simp: push_def displaced_def kept_def limit_def Let_def split: list.splits)
  moreover have "survivors req q = (if q_capacity q \<le> length kept then tl kept else kept)"
    by (simp add: survivors_def kept_def limit_def)
  moreover have "mset (take 1 kept) + mset (tl kept) = mset kept" by (cases kept) auto
  ultimately show ?thesis using split by (simp add: add.assoc)
qed

lemma push_held: "mset (fst (push req q)) + held (snd (push req q)) = held q + {#req#}"
  using push_displaced[of req q, symmetric] by (simp add: held_def push_queued add_ac)

lemma tl_mem: "x \<in> set (tl xs) \<Longrightarrow> x \<in> set xs"
  by (cases xs) auto

lemma survivors_no_limit: "is_limit_command (command req) \<Longrightarrow> limit_requests (survivors req q) = []"
  by (auto simp: survivors_def limit_requests_def Let_def filter_empty_conv dest!: tl_mem)

lemma survivors_bound:
  assumes "queue_ok q"
  shows "length (survivors req q) < q_capacity q"
proof -
  define kept where "kept = (if is_limit_command (command req)
    then filter (\<lambda>r. \<not> is_limit_command (command r)) (queued q) else queued q)"
  have "length kept \<le> q_capacity q"
    using assms length_filter_le[of "\<lambda>r. \<not> is_limit_command (command r)" "queued q"]
    by (auto simp: kept_def queue_ok_def simp del: length_filter_le)
  moreover have "survivors req q = (if q_capacity q \<le> length kept then tl kept else kept)"
    by (simp add: survivors_def kept_def)
  ultimately show ?thesis using assms by (auto simp: queue_ok_def)
qed

lemma queue_ok_push: "queue_ok q \<Longrightarrow> queue_ok (snd (push req q))"
proof -
  assume ok: "queue_ok q"
  have "length (limit_requests (survivors req q @ [req])) \<le> 1"
  proof (cases "is_limit_command (command req)")
    case True
    then show ?thesis using survivors_no_limit by (simp add: limit_requests_append limit_requests_def)
  next
    case False
    then have "length (limit_requests (survivors req q)) \<le> length (limit_requests (queued q))"
      using limit_requests_tl by (auto simp: survivors_def Let_def)
    with False ok show ?thesis by (simp add: limit_requests_append limit_requests_def queue_ok_def)
  qed
  with survivors_bound[OF ok, of req] ok show ?thesis
    by (simp add: queue_ok_def push_queued)
qed

lemma pop_next_cases:
  "pop_next q = (Some r, q') \<longleftrightarrow> in_flight q = None \<and> queued q = r # queued q' \<and> q' = q\<lparr>queued := queued q'\<rparr>"
  by (auto simp: pop_next_def split: list.splits)

lemma queue_ok_tail: "queue_ok q \<Longrightarrow> queued q = r # rest \<Longrightarrow> queue_ok (q\<lparr>queued := rest\<rparr>)"
  using limit_requests_tl[of "queued q"] by (auto simp: queue_ok_def)

lemma queue_ok_cong:
  "queue_ok q \<Longrightarrow> queued q' = queued q \<Longrightarrow> q_capacity q' = q_capacity q \<Longrightarrow> queue_ok q'"
  by (simp add: queue_ok_def)

lemma queue_ok_expire: "queue_ok q \<Longrightarrow> queue_ok (snd (expire now inst q))"
  using limit_requests_sub[of _ "queued q"]
  by (auto simp: queue_ok_def expire_def Let_def intro: order_trans[OF length_filter_le] order_trans)

lemma expire_held: "taken_back (fst (expire now inst q)) + held (snd (expire now inst q)) = held q"
  using mset_filter_split[of "\<lambda>r. chrono_from_std (from_secs 30) (timeout q) \<le> now - issued_at r" "queued q"]
  by (auto simp: taken_back_def held_def expire_def Let_def add_ac split: option.splits)

lemma drain_held: "taken_back (fst (drain q)) = held q" "held (snd (drain q)) = {#}"
  by (auto simp: drain_def taken_back_def held_def)

lemma take_response_held:
  "take_response uid q = (Some f, q') \<Longrightarrow> held q = {#fl_request f#} + held q' \<and> queued q' = queued q
     \<and> q_capacity q' = q_capacity q \<and> in_flight q' = None \<and> prep_unique_id (fl_prepared f) = uid"
  by (auto simp: take_response_def held_def is_ours_def split: if_splits option.splits)

section \<open>Unique ids\<close>

lemma unique_id_format:
  "fst (next_unique_id now q) = (UNIQUE_ID_PREFIX @ show_int (timestamp_millis now)) @ CHR ''-'' # show_nat (unat (sequence q + 1))"
  by (simp add: next_unique_id_def Let_def)

lemma unique_ids_differ:
  assumes "sequence p \<noteq> sequence q"
  shows "fst (next_unique_id t p) \<noteq> fst (next_unique_id u q)"
proof
  assume "fst (next_unique_id t p) = fst (next_unique_id u q)"
  then have "show_nat (unat (sequence p + 1)) = show_nat (unat (sequence q + 1))"
    unfolding unique_id_format
    by (rule dash_suffix_inj) (auto intro!: dash_not_digit show_nat_digits)
  then have "unat (sequence p + 1) = unat (sequence q + 1)" by (rule show_nat_inj)
  with assms show False by (simp add: word_unat_eq_iff[symmetric])
qed

section \<open>Properties\<close>

text \<open>
  C16: The newest limit wins and nothing vanishes. After a limit command joins the queue it is the only
  limit command in it, and the requests handed back together with those kept are exactly the
  requests before plus the new one; the queue stays within its capacity.
\<close>

theorem newest_limit_wins:
  assumes "queue_ok q" "is_limit_command (command req)"
  shows "limit_requests (queued (snd (push req q))) = [req]
    \<and> mset (fst (push req q)) + held (snd (push req q)) = held q + {#req#}
    \<and> queue_ok (snd (push req q))"
  using survivors_no_limit[OF assms(2), of q] push_held[of req q] queue_ok_push[OF assms(1), of req] assms(2)
  by (simp add: push_queued limit_requests_append) (simp add: limit_requests_def)

definition demo_limit :: "string \<Rightarrow> command_request" where
  "demo_limit i = \<lparr>req_id = i, command = ClearCurrentLimit, source = SourceMqtt, issued_at = 0\<rparr>"

theorem newest_limit_wins_witness:
  "limit_requests (queued (snd (push (demo_limit ''b'') (snd (push (demo_limit ''a'') (queue_new 30 4)))))) = [demo_limit ''b'']"
  using newest_limit_wins[OF queue_ok_push[OF queue_ok_new], of "demo_limit ''b''" "demo_limit ''a''" 30 4]
  by (simp add: demo_limit_def)

text \<open>The ids of consecutive Calls at the given times.\<close>

fun issued_ids :: "utc list \<Rightarrow> local_call_queue \<Rightarrow> string list" where
  "issued_ids [] q = []"
| "issued_ids (t # ts) q = (let (uid, q') = next_unique_id t q in uid # issued_ids ts q')"

lemma issued_ids_Cons:
  "issued_ids (t # ts) q = fst (next_unique_id t q) # issued_ids ts (q\<lparr>sequence := sequence q + 1\<rparr>)"
  by (simp add: next_unique_id_def Let_def)

declare issued_ids.simps(2) [simp del]

lemma issued_id_at:
  "uid \<in> set (issued_ids ts q) \<Longrightarrow>
     \<exists>t k. k < length ts \<and> uid = fst (next_unique_id t (q\<lparr>sequence := sequence q + of_nat k\<rparr>))"
proof (induction ts arbitrary: q)
  case (Cons t ts)
  then consider "uid = fst (next_unique_id t q)" | "uid \<in> set (issued_ids ts (q\<lparr>sequence := sequence q + 1\<rparr>))"
    by (auto simp: issued_ids_Cons)
  then show ?case
  proof cases
    case 1
    then show ?thesis by (intro exI[of _ t] exI[of _ 0]) simp
  next
    case 2
    from Cons.IH[OF this] obtain t' k where "k < length ts"
      "uid = fst (next_unique_id t' (q\<lparr>sequence := sequence q + 1 + of_nat k\<rparr>))" by auto
    then show ?thesis by (intro exI[of _ t'] exI[of _ "Suc k"]) (simp add: add.assoc)
  qed
qed simp

lemma issued_id_fresh:
  assumes "Suc (length ts) \<le> 2 ^ 64"
  shows "fst (next_unique_id t q) \<notin> set (issued_ids ts (q\<lparr>sequence := sequence q + 1\<rparr>))"
proof
  assume "fst (next_unique_id t q) \<in> set (issued_ids ts (q\<lparr>sequence := sequence q + 1\<rparr>))"
  from issued_id_at[OF this] obtain t' k where k: "k < length ts"
    "fst (next_unique_id t q) = fst (next_unique_id t' (q\<lparr>sequence := sequence q + 1 + of_nat k\<rparr>))" by auto
  have "\<not> 2 ^ 64 dvd Suc k" using k(1) assms by (auto dest: dvd_imp_le)
  then have "(of_nat (Suc k) :: u64) \<noteq> 0" by (simp only: word_of_nat_eq_0_iff) simp
  then have "sequence q \<noteq> sequence (q\<lparr>sequence := sequence q + 1 + of_nat k\<rparr>)" by (simp add: add.assoc)
  from unique_ids_differ[OF this] k(2) show False by blast
qed

text \<open>
  C33: Unique ids are unique: the ids of up to \<open>2\<^sup>6\<^sup>4\<close> consecutive proxy Calls are pairwise different,
  whatever the clock does between them.
\<close>

theorem proxy_ids_distinct:
  assumes "length ts \<le> 2 ^ 64"
  shows "distinct (issued_ids ts q)"
  using assms by (induction ts arbitrary: q) (auto simp: issued_ids_Cons issued_id_fresh)

theorem proxy_ids_distinct_witness:
  "distinct (issued_ids [0, 0, 5] (queue_new 30 4))"
  using proxy_ids_distinct[of "[0, 0, 5]" "queue_new 30 4"] by simp

text \<open>
  A displaced session cannot deregister its successor from the command router: deregistering an
  older generation leaves the newer registration and says so, while a session that is still
  current removes exactly its own entry.
\<close>

lemma router_successor_survives:
  assumes "g \<noteq> g'"
  shows "router_deregister cp g (router_register cp g' t m) = (False, router_register cp g' t m)
    \<and> fst (router_deregister cp g (router_register cp g t m))
    \<and> snd (router_deregister cp g (router_register cp g t m)) cp = None"
  using assms router.successor_survives[of g g' cp t m] router.own_entry_removed[of cp g t m]
  by (auto simp: router_deregister_def router_register_def router_entry_def)

end
