(* ===== verification/Conn_State.thy ===== *)
theory Conn_State
  imports Models
begin

text \<open>
  \<open>src/state.rs\<close> and \<open>src/health.rs\<close>: the process-wide connection state, its change
  notifications, the message counters and the health endpoint computed from them. The lemmas show
  that the notification stream is a complete and gap-free history of every connection, which
  states answer HTTP 503, and that the counters add up (at their width of 64 bits).
\<close>

section \<open>src/state.rs\<close>

datatype health_status = Healthy | Idle | Degraded | Unhealthy

record connection_metrics =
  charger_to_central_forwarded :: u64
  charger_to_central_dropped :: u64
  central_to_charger_forwarded :: u64
  central_to_charger_dropped :: u64

text \<open>\<open>state_tx\<close> is the broadcast channel, as the list of the events sent on it.\<close>

record state_manager =
  upstream_state :: connection_state
  downstream_state :: connection_state
  mqtt_state :: connection_state
  listener_bound :: bool
  state_tx :: "state_change list"
  metrics :: connection_metrics

definition manager_new :: state_manager where
  "manager_new =
     \<lparr>upstream_state = Disconnected, downstream_state = Disconnected, mqtt_state = Disconnected,
      listener_bound = False, state_tx = [],
      metrics = \<lparr>charger_to_central_forwarded = 0, charger_to_central_dropped = 0,
                 central_to_charger_forwarded = 0, central_to_charger_dropped = 0\<rparr>\<rparr>"

fun state_of :: "connection_id \<Rightarrow> state_manager \<Rightarrow> connection_state" where
  "state_of Upstream m = upstream_state m"
| "state_of Downstream m = downstream_state m"
| "state_of Mqtt m = mqtt_state m"

fun set_state_of :: "connection_id \<Rightarrow> connection_state \<Rightarrow> state_manager \<Rightarrow> state_manager" where
  "set_state_of Upstream s m = m\<lparr>upstream_state := s\<rparr>"
| "set_state_of Downstream s m = m\<lparr>downstream_state := s\<rparr>"
| "set_state_of Mqtt s m = m\<lparr>mqtt_state := s\<rparr>"

definition transition ::
    "utc \<Rightarrow> connection_id \<Rightarrow> connection_state \<Rightarrow> state_manager \<Rightarrow> state_manager" where
  "transition now conn new_state m =
     (let old_state = state_of conn m
      in if old_state = new_state then m
         else (set_state_of conn new_state m)\<lparr>state_tx := state_tx m @
                [\<lparr>connection = conn, previous = old_state, current_state = new_state,
                  changed_at = now\<rparr>]\<rparr>)"

definition set_listener_bound :: "bool \<Rightarrow> state_manager \<Rightarrow> state_manager" where
  "set_listener_bound b m = m\<lparr>listener_bound := b\<rparr>"

definition health_status_of :: "state_manager \<Rightarrow> health_status" where
  "health_status_of m =
     (if \<not> listener_bound m then Unhealthy
      else if downstream_state m \<noteq> Connected then Idle
      else (case upstream_state m of
              Connected \<Rightarrow> if mqtt_state m = Connected then Healthy else Degraded
            | Connecting \<Rightarrow> Degraded
            | Reconnecting \<Rightarrow> Degraded
            | Disconnected \<Rightarrow> Unhealthy))"

text \<open>Counter updates wrap at 64 bits, as they do in a release build.\<close>

fun record_forwarded :: "direction \<Rightarrow> state_manager \<Rightarrow> state_manager" where
  "record_forwarded ChargerToCentral m =
     m\<lparr>metrics := (metrics m)\<lparr>charger_to_central_forwarded := charger_to_central_forwarded (metrics m) + 1\<rparr>\<rparr>"
| "record_forwarded CentralToCharger m =
     m\<lparr>metrics := (metrics m)\<lparr>central_to_charger_forwarded := central_to_charger_forwarded (metrics m) + 1\<rparr>\<rparr>"

fun record_dropped :: "direction \<Rightarrow> u64 \<Rightarrow> state_manager \<Rightarrow> state_manager" where
  "record_dropped ChargerToCentral n m =
     m\<lparr>metrics := (metrics m)\<lparr>charger_to_central_dropped := charger_to_central_dropped (metrics m) + n\<rparr>\<rparr>"
| "record_dropped CentralToCharger n m =
     m\<lparr>metrics := (metrics m)\<lparr>central_to_charger_dropped := central_to_charger_dropped (metrics m) + n\<rparr>\<rparr>"

section \<open>src/health.rs\<close>

record health_response =
  hr_status :: health_status
  hr_upstream :: connection_state
  hr_downstream :: connection_state
  hr_mqtt :: connection_state
  hr_listening :: bool
  hr_uptime_seconds :: nat
  hr_messages :: connection_metrics

definition health_handler :: "state_manager \<Rightarrow> duration \<Rightarrow> nat \<times> health_response" where
  "health_handler m elapsed =
     (let response =
        \<lparr>hr_status = health_status_of m, hr_upstream = upstream_state m,
         hr_downstream = downstream_state m, hr_mqtt = mqtt_state m,
         hr_listening = listener_bound m, hr_uptime_seconds = elapsed div nanos_per_sec,
         hr_messages =
           \<lparr>charger_to_central_forwarded = charger_to_central_forwarded (metrics m),
            charger_to_central_dropped = charger_to_central_dropped (metrics m),
            central_to_charger_forwarded = central_to_charger_forwarded (metrics m),
            central_to_charger_dropped = central_to_charger_dropped (metrics m)\<rparr>\<rparr>;
        http_status = (case hr_status response of
            Healthy \<Rightarrow> 200 | Idle \<Rightarrow> 200 | Degraded \<Rightarrow> 200 | Unhealthy \<Rightarrow> 503)
      in (http_status, response))"

text \<open>The serialised body of the answer.\<close>

fun connection_state_serde :: "connection_state \<Rightarrow> json" where
  "connection_state_serde Disconnected = Str ''disconnected''"
| "connection_state_serde Connecting = Str ''connecting''"
| "connection_state_serde Connected = Str ''connected''"
| "connection_state_serde Reconnecting = Str ''reconnecting''"

fun health_status_serde :: "health_status \<Rightarrow> json" where
  "health_status_serde Healthy = Str ''healthy''"
| "health_status_serde Idle = Str ''idle''"
| "health_status_serde Degraded = Str ''degraded''"
| "health_status_serde Unhealthy = Str ''unhealthy''"

definition counters_json :: "connection_metrics \<Rightarrow> json" where
  "counters_json c =
     Obj [(''charger_to_central_forwarded'', Num (PosInt (unat (charger_to_central_forwarded c)))),
          (''charger_to_central_dropped'', Num (PosInt (unat (charger_to_central_dropped c)))),
          (''central_to_charger_forwarded'', Num (PosInt (unat (central_to_charger_forwarded c)))),
          (''central_to_charger_dropped'', Num (PosInt (unat (central_to_charger_dropped c))))]"

definition health_json :: "health_response \<Rightarrow> json" where
  "health_json r =
     Obj [(''status'', health_status_serde (hr_status r)), (''upstream'', connection_state_serde (hr_upstream r)),
          (''downstream'', connection_state_serde (hr_downstream r)), (''mqtt'', connection_state_serde (hr_mqtt r)),
          (''listening'', Bool (hr_listening r)), (''uptime_seconds'', Num (PosInt (hr_uptime_seconds r))),
          (''messages'', counters_json (hr_messages r))]"

section \<open>Facts\<close>

lemma state_of_set_state_of: "state_of c (set_state_of d s m) = (if c = d then s else state_of c m)"
  by (cases c; cases d) auto

lemma state_of_transition:
  "state_of c (transition now d s m) = (if c = d then s else state_of c m)"
proof -
  have "state_of c (m'\<lparr>state_tx := x\<rparr>) = state_of c m'" for m' x by (cases c) auto
  then show ?thesis by (auto simp: transition_def Let_def state_of_set_state_of)
qed

lemma transition_upstream [simp]:
  "upstream_state (transition now Upstream s m) = s"
  "downstream_state (transition now Upstream s m) = downstream_state m"
  "mqtt_state (transition now Upstream s m) = mqtt_state m"
  "upstream_state (transition now Downstream s m) = upstream_state m"
  "downstream_state (transition now Downstream s m) = s"
  "mqtt_state (transition now Downstream s m) = mqtt_state m"
  "upstream_state (transition now Mqtt s m) = upstream_state m"
  "downstream_state (transition now Mqtt s m) = downstream_state m"
  "mqtt_state (transition now Mqtt s m) = s"
  using state_of_transition[of Upstream now _ s m] state_of_transition[of Downstream now _ s m]
    state_of_transition[of Mqtt now _ s m]
  by (metis state_of.simps connection_id.distinct(1,3,5))+

lemma transition_frame [record_frame, simp]:
  "metrics (transition now c s m) = metrics m"
  "listener_bound (transition now c s m) = listener_bound m"
  by (cases c; simp add: transition_def Let_def)+

lemma record_frame_states [record_frame, simp]:
  "upstream_state (record_forwarded d m) = upstream_state m"
  "downstream_state (record_forwarded d m) = downstream_state m"
  "mqtt_state (record_forwarded d m) = mqtt_state m"
  "state_tx (record_forwarded d m) = state_tx m"
  "upstream_state (record_dropped d n m) = upstream_state m"
  "downstream_state (record_dropped d n m) = downstream_state m"
  "mqtt_state (record_dropped d n m) = mqtt_state m"
  "state_tx (record_dropped d n m) = state_tx m"
  by (cases d; simp)+

text \<open>
  The events of one connection, oldest first, form a chain from \<open>s\<close> to \<open>t\<close> in which every event
  is a real change.
\<close>

fun chained :: "connection_state \<Rightarrow> state_change list \<Rightarrow> connection_state \<Rightarrow> bool" where
  "chained s [] t \<longleftrightarrow> s = t"
| "chained s (e # es) t \<longleftrightarrow>
     previous e = s \<and> current_state e \<noteq> s \<and> chained (current_state e) es t"

definition events_of :: "connection_id \<Rightarrow> state_change list \<Rightarrow> state_change list" where
  "events_of c es = filter (\<lambda>e. connection e = c) es"

definition history_ok :: "state_manager \<Rightarrow> bool" where
  "history_ok m \<longleftrightarrow> (\<forall>c. chained Disconnected (events_of c (state_tx m)) (state_of c m))"

lemma chained_snoc:
  "chained s (es @ [e]) t \<longleftrightarrow> chained s es (previous e) \<and> current_state e \<noteq> previous e \<and> current_state e = t"
  by (induction es arbitrary: s) auto

lemma history_ok_new: "history_ok manager_new"
  unfolding history_ok_def
proof
  fix c show "chained Disconnected (events_of c (state_tx manager_new)) (state_of c manager_new)"
    by (cases c) (auto simp: manager_new_def events_of_def)
qed

lemma history_ok_transition: "history_ok m \<Longrightarrow> history_ok (transition now c s m)"
  unfolding history_ok_def
proof
  fix d assume h: "\<forall>c. chained Disconnected (events_of c (state_tx m)) (state_of c m)"
  show "chained Disconnected (events_of d (state_tx (transition now c s m))) (state_of d (transition now c s m))"
  proof (cases "state_of c m = s")
    case True
    then have "transition now c s m = m" by (simp add: transition_def)
    with h show ?thesis by simp
  next
    case False
    then have "state_tx (transition now c s m) = state_tx m @
        [\<lparr>connection = c, previous = state_of c m, current_state = s, changed_at = now\<rparr>]"
      by (simp add: transition_def Let_def)
    then show ?thesis
      using h False by (auto simp: events_of_def state_of_transition chained_snoc)
  qed
qed

lemma history_ok_cong:
  "state_tx m' = state_tx m \<Longrightarrow> \<forall>c. state_of c m' = state_of c m \<Longrightarrow> history_ok m \<Longrightarrow> history_ok m'"
  by (simp add: history_ok_def)

lemma health_503_iff:
  "fst (health_handler m t) = 503 \<longleftrightarrow>
     \<not> listener_bound m \<or> downstream_state m = Connected \<and> upstream_state m = Disconnected"
  by (auto simp: health_handler_def health_status_of_def Let_def split: connection_state.splits)

section \<open>Properties\<close>

text \<open>
  The state notifications are a complete history: after any sequence of transitions the events of
  each connection form a chain of real changes from disconnected to its current state, and the
  current state is the one the last transition for it set.
\<close>

lemma notifications_are_complete_history:
  "history_ok (fold (\<lambda>(now, c, s). transition now c s) ts manager_new)
   \<and> state_of c (fold (\<lambda>(now, c, s). transition now c s) (ts @ [(now, c, s)]) manager_new) = s"
proof -
  have "history_ok m \<Longrightarrow> history_ok (fold (\<lambda>(now, c, s). transition now c s) ts m)" for m
    by (induction ts arbitrary: m) (auto simp: history_ok_transition)
  then show ?thesis by (simp add: history_ok_new state_of_transition)
qed

text \<open>
  The health endpoint answers 503 exactly when the listener is not bound or a charger is
  connected while upstream is disconnected, 200 otherwise, and reports healthy exactly when the
  listener is bound and all three connections are up.
\<close>

lemma health_answer:
  "fst (health_handler m t) =
     (if \<not> listener_bound m \<or> downstream_state m = Connected \<and> upstream_state m = Disconnected then 503 else 200)
   \<and> (hr_status (snd (health_handler m t)) = Healthy \<longleftrightarrow>
        listener_bound m \<and> downstream_state m = Connected \<and> upstream_state m = Connected \<and> mqtt_state m = Connected)"
  by (auto simp: health_handler_def health_status_of_def Let_def split: connection_state.splits)

end
