(* ===== verification/Session.thy ===== *)
theory Session
  imports Forwarder Local_Calls Conn_State
begin

text \<open>
  \<open>src/session.rs\<close>: one charger's proxy session. The steady-state \<open>select!\<close> loop is a step function
  on events (what the charger, the Central System, the command channel and the timers deliver), the
  reconnection loop a step function on rounds, and a session is a list of rounds followed by the
  teardown. The upstream WebSocket is a parameter.
\<close>

section \<open>Configuration and sockets\<close>

definition CLOSE_NORMAL :: nat where "CLOSE_NORMAL = 1000"

definition CLOSE_GOING_AWAY :: nat where "CLOSE_GOING_AWAY = 1001"

record session_config =
  sc_central_system_url :: string
  sc_upstream_bind_address :: "ip_addr option"
  sc_subprotocol :: string
  sc_connect_timeout :: duration
  sc_message_buffer_size :: nat
  sc_max_buffer_duration :: duration
  sc_initial_backoff :: duration
  sc_max_backoff :: duration
  max_reconnect_window :: duration
  call_tracker_max_age :: duration
  sc_charging :: charging_config

text \<open>Messages of the charger's WebSocket (axum) and of the Central System's (tungstenite).\<close>

datatype axum_message = AText string | ABinary string | APing string | APong string | AClose "(nat \<times> string) option"

datatype tung_message = TText string | TBinary string | TPing string | TPong string | TClose | TFrame string

definition charger_sink_send :: "axum_message channel send_raw" where
  "charger_sink_send c text =
     (case channel_send c (AText text) of
        (Inl _, c') \<Rightarrow> (Inl (Forwarding ''Charger connection closed''), c')
      | (Inr u, c') \<Rightarrow> (Inr (), c'))"

text \<open>\<open>ws_send\<close> is \<open>SinkExt::send\<close> on the upstream WebSocket; the left summand is its error text.\<close>

type_synonym 'u ws_send = "'u \<Rightarrow> tung_message \<Rightarrow> (string + unit) \<times> 'u"

definition upstream_sink_send :: "'u ws_send \<Rightarrow> 'u send_raw" where
  "upstream_sink_send ws_send u text =
     (case ws_send u (TText text) of
        (Inl e, u') \<Rightarrow> (Inl (ConnectionUpstream (''Failed to send to Central System: '' @ e)), u')
      | (Inr _, u') \<Rightarrow> (Inr (), u'))"

section \<open>Session state\<close>

text \<open>
  \<open>mqtt_tx\<close> is the forwarder's handle: the session holds a clone of the same channel. \<open>manager\<close> is
  the process-wide state manager. \<open>last_delay\<close> is the wait chosen before the next connection attempt.
\<close>

record session =
  forwarder :: message_forwarder
  local :: local_call_queue
  charger_tx :: "axum_message channel"
  manager :: state_manager
  commands_open :: bool
  sess_backoff :: backoff
  reconnecting_since :: "nat option"
  close_code :: nat
  last_delay :: duration

datatype loop_outcome = ChargerGone | UpstreamLost | ShutdownRequested

definition send_event :: "mqtt_event \<Rightarrow> session \<Rightarrow> session" where
  "send_event ev s =
     s\<lparr>forwarder := (forwarder s)\<lparr>mqtt_tx := snd (try_send (mqtt_tx (forwarder s)) ev)\<rparr>\<rparr>"

definition emit_command_result :: "command_result \<Rightarrow> session \<Rightarrow> session" where
  "emit_command_result r s = send_event (CommandResultEvent (charge_point_id (forwarder s)) r) s"

definition publish_status :: "connection_state \<Rightarrow> connection_state \<Rightarrow> session \<Rightarrow> session" where
  "publish_status up down s = send_event (StateChanged (charge_point_id (forwarder s)) up down) s"

definition set_upstream_state :: "utc \<Rightarrow> connection_state \<Rightarrow> session \<Rightarrow> session" where
  "set_upstream_state now new_state s =
     (if upstream_state (manager s) = new_state then s
      else (let m = transition now Upstream new_state (manager s)
            in publish_status (upstream_state m) (downstream_state m) (s\<lparr>manager := m\<rparr>)))"

section \<open>Proxy Calls\<close>

function (sequential) send_queued ::
    "ext \<Rightarrow> charging_config \<Rightarrow> utc \<Rightarrow> nat \<Rightarrow> session \<Rightarrow> (unit + unit) \<times> session" where
  "send_queued E c now inst s =
     (case pop_next (local s) of
        (None, q) \<Rightarrow> (Inr (), s\<lparr>local := q\<rparr>)
      | (Some req, q) \<Rightarrow>
         (case next_unique_id now q of (uid, q') \<Rightarrow>
           (case prepare_call E c req uid now of
              Inl reason \<Rightarrow>
                send_queued E c now inst
                  (emit_command_result (result_for_request E now req Invalid (Some reason)) (s\<lparr>local := q'\<rparr>))
            | Inr prep \<Rightarrow>
               (case charger_sink_send (charger_tx s) (prep_raw prep) of
                  (Inl _, t) \<Rightarrow>
                    (Inl (), emit_command_result
                       (result_for_request E now req NotConnected
                          (Some ''charger connection closed before the command was sent''))
                       (s\<lparr>local := q', charger_tx := t\<rparr>))
                | (Inr _, t) \<Rightarrow>
                    (Inr (), s\<lparr>local := set_in_flight inst req prep q', charger_tx := t\<rparr>)))))"
  by pat_completeness auto
termination
  by (relation "measure (\<lambda>(E, c, now, inst, s). length (queued (local s)))")
     (auto simp: emit_command_result_def send_event_def pop_next_def next_unique_id_def Let_def
       split: if_splits list.splits)

declare send_queued.simps [simp del]

definition send_local_calls ::
    "ext \<Rightarrow> charging_config \<Rightarrow> utc \<Rightarrow> nat \<Rightarrow> session \<Rightarrow> (unit + unit) \<times> session" where
  "send_local_calls E c now inst s =
     (if has_in_flight (local s) \<or> queue_is_empty (local s) then (Inr (), s)
      else if has_recent_pending_call now CentralToCharger CENTRAL_CALL_GRACE (forwarder s) then (Inr (), s)
      else send_queued E c now inst s)"

definition complete_local_call :: "ext \<Rightarrow> utc \<Rightarrow> in_flight_call \<Rightarrow> ocpp_frame \<Rightarrow> session \<Rightarrow> session" where
  "complete_local_call E now fl f s =
     (let (status, response, detail) = interpret_response E (prep_action (fl_prepared fl)) f
      in emit_command_result (result_for_in_flight E now fl status response detail) s)"

section \<open>The forwarding loop\<close>

datatype charger_input = CText string | CBinary string | CPingPong | CClose | CError | CEnd

datatype central_input = UText string | UPing string | UOther | UClose | UError | UEnd

datatype loop_event =
    FromCharger charger_input
  | FromCentral central_input
  | CommandRecv "command_request option"
  | CommandTick
  | HousekeepingTick
  | Cancelled

text \<open>A handler's verdict: continue the loop, or leave it with an outcome.\<close>

type_synonym 'u verdict = "loop_outcome option \<times> 'u \<times> session"

text \<open>The \<open>is_err()\<close> tests on \<open>send_local_calls\<close>.\<close>

definition or_charger_gone :: "'u \<Rightarrow> (unit + unit) \<times> session \<Rightarrow> 'u verdict" where
  "or_charger_gone u r = (case r of (Inl _, s) \<Rightarrow> (Some ChargerGone, u, s) | (Inr _, s) \<Rightarrow> (None, u, s))"

definition is_call :: "ocpp_frame \<Rightarrow> bool" where
  "is_call f = (case message_type f of Call _ \<Rightarrow> True | _ \<Rightarrow> False)"

definition forward_charger_frame ::
    "ext \<Rightarrow> 'u ws_send \<Rightarrow> session_config \<Rightarrow> utc \<Rightarrow> nat \<Rightarrow> string \<Rightarrow> ocpp_frame \<Rightarrow> 'u \<Rightarrow> session \<Rightarrow> 'u verdict" where
  "forward_charger_frame E ws_send cfg now inst text f u s =
     (case forward_upstream (upstream_sink_send ws_send) now f u (forwarder s) of
        (Inr _, u', fw) \<Rightarrow>
          (let s' = s\<lparr>forwarder := fw, manager := record_forwarded ChargerToCentral (manager s)\<rparr>
           in if queue_is_empty (local s') then (None, u', s')
              else or_charger_gone u' (send_local_calls E (sc_charging cfg) now inst s'))
      | (Inl _, u', fw) \<Rightarrow>
          (Some UpstreamLost, u',
           s\<lparr>forwarder := (case parse E now text of Inr f' \<Rightarrow> buffer_upstream f' fw | Inl _ \<Rightarrow> fw)\<rparr>))"

definition charger_text ::
    "ext \<Rightarrow> 'u ws_send \<Rightarrow> session_config \<Rightarrow> utc \<Rightarrow> nat \<Rightarrow> string \<Rightarrow> 'u \<Rightarrow> session \<Rightarrow> 'u verdict" where
  "charger_text E ws_send cfg now inst text u s =
     (case parse E now text of
        Inr f \<Rightarrow>
          (case (if is_call f then (None, local s) else take_response (unique_id f) (local s)) of
             (Some fl, q) \<Rightarrow>
               or_charger_gone u (send_local_calls E (sc_charging cfg) now inst
                 (complete_local_call E now fl f (s\<lparr>local := q\<rparr>)))
           | (None, q) \<Rightarrow> forward_charger_frame E ws_send cfg now inst text f u s)
      | Inl _ \<Rightarrow>
          (case upstream_sink_send ws_send u text of
             (Inl _, u') \<Rightarrow> (Some UpstreamLost, u', s)
           | (Inr _, u') \<Rightarrow> (None, u', s)))"

definition from_charger ::
    "ext \<Rightarrow> 'u ws_send \<Rightarrow> session_config \<Rightarrow> utc \<Rightarrow> nat \<Rightarrow> charger_input \<Rightarrow> 'u \<Rightarrow> session \<Rightarrow> 'u verdict" where
  "from_charger E ws_send cfg now inst inp u s =
     (case inp of
        CText text \<Rightarrow> charger_text E ws_send cfg now inst text u s
      | CBinary _ \<Rightarrow> (None, u, s)
      | CPingPong \<Rightarrow> (None, u, s)
      | CClose \<Rightarrow> (Some ChargerGone, u, s)
      | CEnd \<Rightarrow> (Some ChargerGone, u, s)
      | CError \<Rightarrow> (Some ChargerGone, u, s))"

definition central_text :: "ext \<Rightarrow> utc \<Rightarrow> string \<Rightarrow> session \<Rightarrow> loop_outcome option \<times> session" where
  "central_text E now text s =
     (case parse E now text of
        Inr f \<Rightarrow>
          (case forward_downstream charger_sink_send now f (charger_tx s) (forwarder s) of
             (Inr _, t, fw) \<Rightarrow>
               (None, s\<lparr>charger_tx := t, forwarder := fw,
                        manager := record_forwarded CentralToCharger (manager s)\<rparr>)
           | (Inl _, t, fw) \<Rightarrow> (Some ChargerGone, s\<lparr>charger_tx := t, forwarder := fw\<rparr>))
      | Inl _ \<Rightarrow>
          (case charger_sink_send (charger_tx s) text of
             (Inl _, t) \<Rightarrow> (Some ChargerGone, s\<lparr>charger_tx := t\<rparr>)
           | (Inr _, t) \<Rightarrow> (None, s\<lparr>charger_tx := t\<rparr>)))"

definition from_central ::
    "ext \<Rightarrow> 'u ws_send \<Rightarrow> utc \<Rightarrow> central_input \<Rightarrow> 'u \<Rightarrow> session \<Rightarrow> 'u verdict" where
  "from_central E ws_send now inp u s =
     (case inp of
        UText text \<Rightarrow> (let (r, s') = central_text E now text s in (r, u, s'))
      | UPing data \<Rightarrow>
          (case ws_send u (TPong data) of
             (Inl _, u') \<Rightarrow> (Some UpstreamLost, u', s)
           | (Inr _, u') \<Rightarrow> (None, u', s))
      | UClose \<Rightarrow> (Some UpstreamLost, u, s)
      | UEnd \<Rightarrow> (Some UpstreamLost, u, s)
      | UOther \<Rightarrow> (None, u, s)
      | UError \<Rightarrow> (Some UpstreamLost, u, s))"

definition displaced_result :: "ext \<Rightarrow> utc \<Rightarrow> command_request \<Rightarrow> command_result" where
  "displaced_result E now req =
     (if is_limit_command (command req)
      then result_for_request E now req Superseded (Some ''a newer limit command arrived before this one was sent'')
      else result_for_request E now req Rejected (Some ''command queue full; oldest dropped''))"

definition command_received ::
    "ext \<Rightarrow> session_config \<Rightarrow> utc \<Rightarrow> nat \<Rightarrow> command_request \<Rightarrow> session \<Rightarrow> (unit + unit) \<times> session" where
  "command_received E cfg now inst req s =
     (let (displaced, q) = push req (local s);
          s' = fold (\<lambda>d. emit_command_result (displaced_result E now d)) displaced (s\<lparr>local := q\<rparr>)
      in send_local_calls E (sc_charging cfg) now inst s')"

definition unsent_result :: "ext \<Rightarrow> session_config \<Rightarrow> utc \<Rightarrow> command_request \<Rightarrow> command_result" where
  "unsent_result E cfg now req =
     result_for_request E now req Timeout
       (Some (''not sent within '' @ show_nat (command_timeout_seconds (sc_charging cfg))
          @ '' s (the charger was busy answering the Central System, or the line was down)''))"

definition unanswered_result :: "ext \<Rightarrow> session_config \<Rightarrow> utc \<Rightarrow> in_flight_call \<Rightarrow> command_result" where
  "unanswered_result E cfg now fl =
     result_for_in_flight E now fl Timeout None
       (Some (''no answer from the charger within '' @ show_nat (command_timeout_seconds (sc_charging cfg)) @ '' s''))"

definition command_tick ::
    "ext \<Rightarrow> session_config \<Rightarrow> utc \<Rightarrow> nat \<Rightarrow> session \<Rightarrow> (unit + unit) \<times> session" where
  "command_tick E cfg now inst s =
     (let ((expired, fl), q) = expire now inst (local s);
          s1 = fold (\<lambda>r. emit_command_result (unsent_result E cfg now r)) expired (s\<lparr>local := q\<rparr>);
          s2 = (case fl of None \<Rightarrow> s1 | Some x \<Rightarrow> emit_command_result (unanswered_result E cfg now x) s1)
      in send_local_calls E (sc_charging cfg) now inst s2)"

definition housekeeping :: "utc \<Rightarrow> session \<Rightarrow> session" where
  "housekeeping now s =
     s\<lparr>forwarder := snd (cleanup_expired_calls now (snd (evict_expired_messages now (forwarder s))))\<rparr>"

text \<open>A branch whose guard is false is not polled: such an event changes nothing.\<close>

definition loop_step ::
    "ext \<Rightarrow> 'u ws_send \<Rightarrow> session_config \<Rightarrow> utc \<Rightarrow> nat \<Rightarrow> loop_event \<Rightarrow> 'u \<Rightarrow> session \<Rightarrow> 'u verdict" where
  "loop_step E ws_send cfg now inst ev u s =
     (case ev of
        FromCharger inp \<Rightarrow> from_charger E ws_send cfg now inst inp u s
      | FromCentral inp \<Rightarrow> from_central E ws_send now inp u s
      | CommandRecv r \<Rightarrow>
          if \<not> commands_open s then (None, u, s)
          else (case r of
                  None \<Rightarrow> (None, u, s\<lparr>commands_open := False\<rparr>)
                | Some req \<Rightarrow> or_charger_gone u (command_received E cfg now inst req s))
      | CommandTick \<Rightarrow>
          if queue_is_empty (local s) then (None, u, s)
          else or_charger_gone u (command_tick E cfg now inst s)
      | HousekeepingTick \<Rightarrow> (None, u, housekeeping now s)
      | Cancelled \<Rightarrow> (Some ShutdownRequested, u, s))"

text \<open>Events carry the wall clock and the monotonic clock.\<close>

type_synonym timed_event = "utc \<times> nat \<times> loop_event"

fun forward_loop ::
    "ext \<Rightarrow> 'u ws_send \<Rightarrow> session_config \<Rightarrow> timed_event list \<Rightarrow> 'u \<Rightarrow> session \<Rightarrow> 'u verdict" where
  "forward_loop E ws_send cfg [] u s = (None, u, s)"
| "forward_loop E ws_send cfg ((now, inst, ev) # evs) u s =
     (case loop_step E ws_send cfg now inst ev u s of
        (Some outcome, u', s') \<Rightarrow> (Some outcome, u', s')
      | (None, u', s') \<Rightarrow> forward_loop E ws_send cfg evs u' s')"

section \<open>The reconnection loop\<close>

definition session_new ::
    "session_config \<Rightarrow> string \<Rightarrow> mqtt_event channel \<Rightarrow> state_manager \<Rightarrow> session" where
  "session_new cfg cp mtx m =
     \<lparr>forwarder = with_charge_point_id mtx (sc_message_buffer_size cfg) (sc_max_buffer_duration cfg)
        (call_tracker_max_age cfg) cp,
      local = queue_new (command_timeout (sc_charging cfg)) COMMAND_CHANNEL_CAPACITY,
      charger_tx = channel_new 256, manager = m, commands_open = True,
      sess_backoff = with_defaults (sc_initial_backoff cfg) (sc_max_backoff cfg),
      reconnecting_since = None, close_code = CLOSE_NORMAL, last_delay = 0\<rparr>"

text \<open>How the wait before the next attempt ends.\<close>

datatype wake = SleepDone | WakeCancelled | WakeCharger charger_input

text \<open>
  A round of the outer loop: a failed connection attempt with its wait, or a connection \<open>u\<close>, the
  events it carries and, if it is lost, the wait that follows. \<open>now\<close> and \<open>inst\<close> are the clocks when
  the attempt returned, \<open>later\<close> and \<open>inst'\<close> when the loop ended.
\<close>

datatype 'u round =
    AttemptFailed wake
  | Attempt 'u "timed_event list" utc nat wake

datatype 'a step_result = Continue 'a | Break 'a | Waiting 'a

definition wake_result :: "wake \<Rightarrow> session \<Rightarrow> session step_result" where
  "wake_result w s =
     (case w of
        SleepDone \<Rightarrow> Continue s
      | WakeCancelled \<Rightarrow> Break s
      | WakeCharger inp \<Rightarrow> if inp \<in> {CEnd, CError, CClose} then Break s else Continue s)"

text \<open>The wait after a failed attempt never outlasts the reconnection window.\<close>

definition retry_delay :: "session_config \<Rightarrow> duration \<Rightarrow> duration \<Rightarrow> duration" where
  "retry_delay cfg elapsed d = min d (max (max_reconnect_window cfg - elapsed) (from_millis 1))"

definition record_replayed :: "nat \<Rightarrow> session \<Rightarrow> session" where
  "record_replayed n s = s\<lparr>manager := (record_forwarded ChargerToCentral ^^ n) (manager s)\<rparr>"

text \<open>The wait after a lost connection has no charger branch.\<close>

definition after_lost :: "utc \<Rightarrow> nat \<Rightarrow> wake \<Rightarrow> session \<Rightarrow> session step_result option" where
  "after_lost now inst w s =
     (let s1 = s\<lparr>forwarder := discard_downstream_buffer (forwarder s)\<rparr>;
          s2 = set_upstream_state now Reconnecting s1;
          s3 = s2\<lparr>reconnecting_since := (case reconnecting_since s2 of None \<Rightarrow> Some inst | x \<Rightarrow> x)\<rparr>
      in case next_delay (sess_backoff s3) of
           None \<Rightarrow> None
         | Some (delay, b) \<Rightarrow>
             (let s4 = s3\<lparr>sess_backoff := b, last_delay := delay\<rparr>
              in Some (if w = WakeCancelled then Break s4 else Continue s4)))"

text \<open>\<open>None\<close> is the panic of \<open>next_delay\<close>.\<close>

definition session_round ::
    "ext \<Rightarrow> 'u ws_send \<Rightarrow> session_config \<Rightarrow> utc \<Rightarrow> nat \<Rightarrow> 'u round \<Rightarrow> session \<Rightarrow> session step_result option" where
  "session_round E ws_send cfg now inst r s =
     (let s0 = set_upstream_state now Connecting s
      in case r of
           AttemptFailed w \<Rightarrow>
             (let started = (case reconnecting_since s0 of None \<Rightarrow> inst | Some t \<Rightarrow> t);
                  s1 = s0\<lparr>reconnecting_since := Some started\<rparr>;
                  elapsed = inst - started
              in if max_reconnect_window cfg \<le> elapsed then Some (Break (s1\<lparr>close_code := CLOSE_GOING_AWAY\<rparr>))
                 else
                   (let s2 = set_upstream_state now Reconnecting s1
                    in case next_delay (sess_backoff s2) of
                         None \<Rightarrow> None
                       | Some (d, b) \<Rightarrow>
                           Some (wake_result w (s2\<lparr>sess_backoff := b, last_delay := retry_delay cfg elapsed d\<rparr>))))
         | Attempt u evs later inst' w \<Rightarrow>
             (let s1 = s0\<lparr>sess_backoff := reset (sess_backoff s0), reconnecting_since := None\<rparr>;
                  s2 = set_upstream_state now Connected s1
              in case flush_upstream (upstream_sink_send ws_send) u (forwarder s2) of
                   (Inl _, u', fw) \<Rightarrow> Some (Continue (s2\<lparr>forwarder := fw\<rparr>))
                 | (Inr n, u', fw) \<Rightarrow>
                    (case forward_loop E ws_send cfg evs u' (record_replayed n (s2\<lparr>forwarder := fw\<rparr>)) of
                       (None, _, s3) \<Rightarrow> Some (Waiting s3)
                     | (Some UpstreamLost, _, s3) \<Rightarrow> after_lost later inst' w s3
                     | (Some _, _, s3) \<Rightarrow> Some (Break s3))))"

text \<open>
  Rounds until the session breaks out of its loop. \<open>Waiting\<close>: the session has not ended with the
  events given.
\<close>

fun session_rounds ::
    "ext \<Rightarrow> 'u ws_send \<Rightarrow> session_config \<Rightarrow> (utc \<times> nat \<times> 'u round) list \<Rightarrow> session \<Rightarrow> session step_result option" where
  "session_rounds E ws_send cfg [] s = Some (Waiting s)"
| "session_rounds E ws_send cfg ((now, inst, r) # rs) s =
     (case session_round E ws_send cfg now inst r s of
        Some (Continue s') \<Rightarrow> session_rounds E ws_send cfg rs s'
      | x \<Rightarrow> x)"

section \<open>Teardown\<close>

definition count_dropped :: "session \<Rightarrow> session" where
  "count_dropped s =
     (let fw = forwarder s;
          dropped = length (upstream_buffer fw) + length (downstream_buffer fw)
      in if 0 < dropped
         then s\<lparr>manager := record_dropped CentralToCharger (of_nat (length (downstream_buffer fw)))
                 (record_dropped ChargerToCentral (of_nat (length (upstream_buffer fw))) (manager s))\<rparr>
         else s)"

definition ended_result :: "ext \<Rightarrow> utc \<Rightarrow> command_request \<Rightarrow> command_result" where
  "ended_result E now req =
     result_for_request E now req NotConnected (Some ''charger session ended before the command was sent'')"

definition ended_in_flight :: "ext \<Rightarrow> utc \<Rightarrow> in_flight_call \<Rightarrow> command_result" where
  "ended_in_flight E now fl =
     result_for_in_flight E now fl Timeout None (Some ''charger session ended before it answered'')"

text \<open>\<open>waiting\<close> is what the command channel still holds when the session drains it.\<close>

definition teardown :: "ext \<Rightarrow> utc \<Rightarrow> command_request list \<Rightarrow> session \<Rightarrow> session" where
  "teardown E now waiting s =
     (let s1 = count_dropped s;
          ((rest, fl), q) = drain (local s1);
          s2 = fold (\<lambda>r. emit_command_result (ended_result E now r)) rest (s1\<lparr>local := q\<rparr>);
          s3 = (case fl of None \<Rightarrow> s2 | Some x \<Rightarrow> emit_command_result (ended_in_flight E now x) s2);
          s4 = fold (\<lambda>r. emit_command_result (ended_result E now r)) waiting s3;
          s5 = s4\<lparr>charger_tx := snd (channel_send (charger_tx s4)
                 (AClose (Some (close_code s4, ''Proxy session ending''))))\<rparr>
      in set_upstream_state now Disconnected s5)"

definition run_session ::
    "ext \<Rightarrow> 'u ws_send \<Rightarrow> session_config \<Rightarrow> string \<Rightarrow> mqtt_event channel \<Rightarrow> state_manager
      \<Rightarrow> (utc \<times> nat \<times> 'u round) list \<Rightarrow> utc \<Rightarrow> command_request list \<Rightarrow> session step_result option" where
  "run_session E ws_send cfg cp mtx m rounds stop waiting =
     (case session_rounds E ws_send cfg rounds (session_new cfg cp mtx m) of
        Some (Break s) \<Rightarrow> Some (Break (teardown E stop waiting s))
      | x \<Rightarrow> x)"

text \<open>
  The writer task: it relays the channel to the charger's socket until a send fails, a close frame has gone
  out or the channel is closed and empty, and then closes the socket. \<open>put\<close> is \<open>SinkExt::send\<close> on that socket,
  \<open>shut\<close> is \<open>SinkExt::close\<close>, whose result is ignored.
\<close>

fun charger_writer ::
    "('w \<Rightarrow> axum_message \<Rightarrow> (unit + unit) \<times> 'w) \<Rightarrow> ('w \<Rightarrow> 'w) \<Rightarrow> axum_message list \<Rightarrow> 'w \<Rightarrow> 'w" where
  "charger_writer put shut [] w = shut w"
| "charger_writer put shut (m # ms) w =
     (case put w m of
        (Inl _, w') \<Rightarrow> shut w'
      | (Inr _, w') \<Rightarrow> (case m of AClose _ \<Rightarrow> shut w' | _ \<Rightarrow> charger_writer put shut ms w'))"

text \<open>The writer neither reorders nor invents: what a socket that keeps its history receives is a prefix of the channel.\<close>

fun up_to_close :: "axum_message list \<Rightarrow> axum_message list" where
  "up_to_close [] = []"
| "up_to_close (m # ms) = (case m of AClose _ \<Rightarrow> [m] | _ \<Rightarrow> m # up_to_close ms)"

lemma charger_writer_relays:
  "charger_writer (\<lambda>w m. (Inr (), w @ [m])) shut ms w = shut (w @ up_to_close ms)"
  by (induction ms arbitrary: w) (auto split: axum_message.split)

end
