(* ===== verification/Command_Facts.thy ===== *)
theory Command_Facts
  imports Commands
begin

text \<open>
  Facts about the stateless part of \<open>src/command.rs\<close>: the language of the command topics, the JSON
  round trip, the limit policy, and the frames the proxy builds and reads.
\<close>

fun topic_of :: "command_topic_kind \<Rightarrow> string \<Rightarrow> string" where
  "topic_of TopicCommand cp = command_topic cp"
| "topic_of TopicCurrentLimit cp = current_limit_topic cp"

lemma split_topic:
  assumes "CHR ''/'' \<notin> set cp"
  shows "split_on CHR ''/'' (''ocpp/'' @ cp @ CHR ''/'' # s) = ''ocpp'' # cp # split_on CHR ''/'' s"
  using assms split_on_append[of "CHR ''/''" cp s] by simp

lemma parse_topic_of:
  assumes "cp \<noteq> []" "CHR ''/'' \<notin> set cp"
  shows "parse_command_topic (topic_of k cp) = Some (cp, k)"
proof -
  have "split_on CHR ''/'' (topic_of k cp) = ''ocpp'' # cp # (case k of TopicCommand \<Rightarrow> [''command'']
      | TopicCurrentLimit \<Rightarrow> [''command'', ''current_limit''])"
    using split_topic[OF assms(2), of "''command''"]
      split_topic[OF assms(2), of "''command/current_limit''"]
    by (cases k) (auto simp: wire_format)
  then show ?thesis using assms by (cases k) (auto simp: parse_command_topic_def)
qed

lemma split_on_no_sep: "w \<in> set (split_on c s) \<Longrightarrow> c \<notin> set w"
  by (induction s arbitrary: w) (auto split: if_splits list.splits)

lemma parse_command_topic_iff:
  "parse_command_topic t = Some (cp, k) \<longleftrightarrow> cp \<noteq> [] \<and> CHR ''/'' \<notin> set cp \<and> t = topic_of k cp"
proof
  assume p: "parse_command_topic t = Some (cp, k)"
  then have s: "split_on CHR ''/'' t = ''ocpp'' # cp # (case k of TopicCommand \<Rightarrow> [''command'']
      | TopicCurrentLimit \<Rightarrow> [''command'', ''current_limit''])" and "cp \<noteq> []"
    by (auto simp: parse_command_topic_def split: list.splits if_splits)
  moreover have "CHR ''/'' \<notin> set cp" using split_on_no_sep[of cp "CHR ''/''" t] s by simp
  moreover have "t = topic_of k cp"
    using join_split_on[of "CHR ''/''" t] s by (cases k) (auto simp: wire_format)
  ultimately show "cp \<noteq> [] \<and> CHR ''/'' \<notin> set cp \<and> t = topic_of k cp" by simp
qed (simp add: parse_topic_of)

lemma result_topic_not_command: "parse_command_topic (command_result_topic cp) = None"
proof (cases "parse_command_topic (command_result_topic cp)")
  case (Some r)
  obtain cp' k where "parse_command_topic (command_result_topic cp) = Some (cp', k)"
    using Some by (cases r) auto
  then have "command_result_topic cp = topic_of k cp'" by (simp add: parse_command_topic_iff)
  then have "rev (command_result_topic cp) = rev (topic_of k cp')" by simp
  then show ?thesis by (cases k) (auto simp: wire_format)
qed

lemma de_strings_map_Str: "de_strings (map Str ks) = Some ks"
  by (induction ks) auto

text \<open>A command survives its JSON form when its numbers are ones JSON can carry.\<close>

fun json_safe :: "proxy_command \<Rightarrow> bool" where
  "json_safe (SetCurrentLimit a) = is_finite a"
| "json_safe (TriggerMessage _ (Some n)) = (n < 2 ^ 32)"
| "json_safe (GetCompositeSchedule c d) = (d < 2 ^ 32 \<and> (case c of None \<Rightarrow> True | Some n \<Rightarrow> n < 2 ^ 32))"
| "json_safe _ = True"

lemma command_json_object: "\<exists>kvs. command_json c = Obj kvs"
  by (cases c) auto

lemma command_round_trip:
  assumes "json_safe c" "command_json c = Obj kvs"
  shows "command_of_object kvs = Some c"
proof (cases c)
  case (SetCurrentLimit a)
  then show ?thesis using assms
    by (auto simp: command_of_object_def json_f64_def)
next
  case (GetConfiguration ks)
  then show ?thesis using assms
    by (auto simp: command_of_object_def de_keys_def de_strings_map_Str)
next
  case (TriggerMessage m conn)
  then show ?thesis using assms
    by (cases conn) (auto simp: command_of_object_def de_opt_u32_def json_of_opt_def)
next
  case (GetCompositeSchedule conn d)
  then show ?thesis using assms
    by (cases conn) (auto simp: command_of_object_def de_opt_u32_def json_of_opt_def)
qed (use assms in \<open>auto simp: command_of_object_def\<close>)

section \<open>The limit policy\<close>

lemma f64_le_total: "is_finite a \<Longrightarrow> is_finite b \<Longrightarrow> a \<le> b \<or> b \<le> a"
  by (auto simp: is_finite_iff)

lemma round_tenth_Fin:
  "round_tenth (Fin q) = f64_div_const (f64_round (rnd (q * 10))) 10"
  by (simp add: round_tenth_def)

lemma div10_mono:
  assumes "a \<le> b" shows "f64_div_const a 10 \<le> f64_div_const b 10"
  using assms by (cases a; cases b) (auto simp: f64_signed_inf_def intro!: rnd_mono)

lemma f64_round_mono: "a \<le> b \<Longrightarrow> f64_round a \<le> f64_round b"
  by (cases a; cases b) (auto intro: round_away_mono)

lemma round_tenth_mono: "q \<le> r \<Longrightarrow> round_tenth (Fin q) \<le> round_tenth (Fin r)"
  unfolding round_tenth_Fin by (intro div10_mono f64_round_mono rnd_mono) simp

lemma resolve_limit_Inl_iff:
  "(\<exists>e. resolve_limit E c a = Inl e) \<longleftrightarrow> \<not> (\<exists>q \<ge> 0. a = Fin q)"
  by (cases a) (auto simp: resolve_limit_def is_finite_def less_f64_def)

lemma resolve_limit_bounds:
  assumes ok: "charging_ok c" and r: "resolve_limit E c a = Inr r"
  shows "applied_a r = Fin 0
       \<or> round_tenth (min_limit_a c) \<le> applied_a r \<and> applied_a r \<le> round_tenth (max_limit_a c)"
proof -
  obtain mx mn where m: "max_limit_a c = Fin mx" "min_limit_a c = Fin mn" "mn \<le> mx"
    using ok by (auto simp: charging_ok_def)
  obtain q where q: "a = Fin q" using r by (cases a) (auto simp: resolve_limit_def is_finite_def)
  show ?thesis
    using r m q round_tenth_mono[of mn mx] round_tenth_mono[of mn q] round_tenth_mono[of q mx]
      round_tenth_mono[of mx mx]
    by (auto simp: resolve_limit_def split: if_splits)
qed

section \<open>Frames\<close>

lemma prepare_call_Inr:
  "prepare_call E c req uid now = Inr p \<Longrightarrow>
     \<exists>payload applied detail. command_payload E c now (command req) = Inr (payload, applied, detail)
       \<and> to_str E (call_json uid (action_of (command req)) payload) = Inr (prep_raw p)
       \<and> prep_unique_id p = uid \<and> prep_action p = action_of (command req)
       \<and> prep_applied_limit_a p = applied \<and> prep_detail p = detail"
  by (auto simp: prepare_call_def Let_def split: sum.splits prod.splits)

lemma prepared_frame_parses:
  assumes "prepare_call E c req uid now = Inr p"
    and "\<And>payload a d. command_payload E c now (command req) = Inr (payload, a, d)
          \<Longrightarrow> faithful_on E (call_json uid (action_of (command req)) payload)"
  shows "parse E t (prep_raw p) = Inr \<lparr>raw = prep_raw p, message_type = Call (prep_action p),
           unique_id = uid, received_at = t\<rparr>"
proof -
  obtain payload a d where p: "command_payload E c now (command req) = Inr (payload, a, d)"
    "to_str E (call_json uid (action_of (command req)) payload) = Inr (prep_raw p)"
    "prep_action p = action_of (command req)"
    using prepare_call_Inr[OF assms(1)] by blast
  then have "from_str E (prep_raw p) = Inr (call_json uid (prep_action p) payload)"
    using assms(2)[OF p(1)] by (simp add: faithful_on_def)
  then show ?thesis
    unfolding parse_Inr_iff by (simp add: checked_frame_def call_json_def)
qed

lemma payload_guards:
  "command_payload E c now (ChangeConfiguration k v) = Inr x \<Longrightarrow> k \<in> set (allowed_configuration_keys c)"
  "command_payload E c now (TriggerMessage m conn) = Inr y \<Longrightarrow> m \<in> set TRIGGERABLE_MESSAGES"
  by (auto split: if_splits)

lemma interpret_accepted_iff:
  assumes "message_type f = CallResult" "from_str E (raw f) = Inr v"
    and "Option.bind (Option.bind (get_idx 2 v) (get_key ''status'')) as_str = st"
  shows "fst (interpret_response E act f) = Accepted \<longleftrightarrow>
      st = None \<or> st = Some ''Accepted'' \<or> act = ''ClearChargingProfile'' \<and> st = Some ''Unknown''
      \<or> act = ''ChangeConfiguration'' \<and> st = Some ''RebootRequired''"
proof -
  have "Option.bind (get_key ''status'' (case get_idx 2 v of None \<Rightarrow> Null | Some w \<Rightarrow> w)) as_str = st"
    using assms(3) by (cases "get_idx 2 v") auto
  then show ?thesis using assms(1,2)
    by (auto simp: interpret_response_def call_result_status_def Let_def split: option.splits prod.splits)
qed

section \<open>Properties\<close>

text \<open>
  The command topics are exactly \<open>ocpp/ID/command\<close> and \<open>ocpp/ID/command/current_limit\<close> with a
  non-empty id that contains no slash; in particular the topic the proxy publishes results on is
  never read as a command.
\<close>

lemma command_topics_exact:
  "(parse_command_topic t = Some (cp, k) \<longleftrightarrow> cp \<noteq> [] \<and> CHR ''/'' \<notin> set cp \<and> t = topic_of k cp)
   \<and> parse_command_topic (command_result_topic cp') = None"
  using parse_command_topic_iff result_topic_not_command by blast

text \<open>
  C31: A command survives its JSON form: what the proxy writes into a result as the command reads back
  as the same command, for finite amps and 32-bit numbers.
\<close>

theorem command_json_round_trip:
  assumes "json_safe c"
  shows "\<exists>kvs. command_json c = Obj kvs \<and> command_of_object kvs = Some c"
  using command_json_object[of c] command_round_trip[OF assms] by blast

theorem command_json_round_trip_witness:
  "\<exists>kvs. command_json (GetCompositeSchedule (Some 1) 3600) = Obj kvs
     \<and> command_of_object kvs = Some (GetCompositeSchedule (Some 1) 3600)"
  using command_json_round_trip[of "GetCompositeSchedule (Some 1) 3600"] by simp

text \<open>
  C17: The limit policy. A requested limit is refused exactly when it is not a non-negative finite
  number; under a valid configuration an accepted one is sent as zero or between the configured
  minimum and ceiling, each rounded to a tenth of an ampere; anything below the minimum pauses.
\<close>

theorem limit_policy:
  assumes "charging_ok c"
  shows "((\<exists>e. resolve_limit E c a = Inl e) \<longleftrightarrow> \<not> (\<exists>q \<ge> 0. a = Fin q))
    \<and> (\<forall>r. resolve_limit E c a = Inr r \<longrightarrow>
         (applied_a r = Fin 0
          \<or> round_tenth (min_limit_a c) \<le> applied_a r \<and> applied_a r \<le> round_tenth (max_limit_a c))
         \<and> (a < min_limit_a c \<longrightarrow> applied_a r = Fin 0))"
proof -
  have "applied_a r = Fin 0" if "resolve_limit E c a = Inr r" "a < min_limit_a c" for r
    using that by (auto simp: resolve_limit_def split: if_splits)
  then show ?thesis using resolve_limit_Inl_iff[of E c a] resolve_limit_bounds[OF assms, of E a] by blast
qed

theorem limit_policy_witness:
  "\<exists>r. resolve_limit (table_ext []) charging_config_default (Fin 4) = Inr r \<and> applied_a r = Fin 0"
proof -
  note policy = limit_policy[OF charging_default_ok, of "table_ext []" "Fin 4"]
  obtain r where "resolve_limit (table_ext []) charging_config_default (Fin 4) = Inr r"
    using policy by (cases "resolve_limit (table_ext []) charging_config_default (Fin 4)") auto
  moreover have "Fin 4 < min_limit_a charging_config_default" by (simp add: charging_config_default_def)
  ultimately show ?thesis using policy by blast
qed

lemma rnd_32nds: "rnd (10225 / 32) = Fin (10225 / 32)"
proof -
  have "(2::rat) ^ 10 \<le> 2 ^ 1024" by (rule power_increasing) auto
  then have "\<not> (2::rat) ^ 1024 \<le> 10225 / 32" "\<not> (10225 / 32 :: rat) \<le> - (2 ^ 1024)" by simp_all
  moreover have "rnd_rat (10225 / 32) = 10225 / 32"
    using rnd_rat_exact[of 10225 "- 5"] by (simp add: power_int_minus_divide)
  ultimately show ?thesis by (simp add: rnd_def Let_def)
qed

text \<open>
  C40: Rounding to a tenth is applied after the clamp, so the limit sent can exceed the configured
  ceiling: with a ceiling of 31.953125 A a request for 40 A is sent as 32.0 A.
\<close>

theorem rounding_exceeds_ceiling:
  "\<exists>c r. charging_ok c \<and> max_limit_a c = Fin (31953125 / 1000000)
     \<and> resolve_limit E c (Fin 40) = Inr r \<and> applied_a r = Fin 32"
proof -
  let ?c = "charging_config_default\<lparr>max_limit_a := Fin (31953125 / 1000000)\<rparr>"
  have "charging_ok ?c"
    unfolding charging_ok_def
    by (intro conjI exI[of _ "31953125 / 1000000"] exI[of _ 6] exI[of _ 230]) (simp_all add: charging_config_default_def)
  moreover have "\<lfloor>10241 / 32 :: rat\<rfloor> = 320" by (simp add: floor_eq_iff)
  then have "round_tenth (Fin (31953125 / 1000000)) = Fin 32"
    using rnd_32nds by (simp add: round_tenth_Fin round_away_def rnd_of_int[of 32, simplified])
  ultimately show ?thesis
    by (intro exI[of _ ?c]) (simp add: resolve_limit_def charging_config_default_def is_finite_def f64_eq_def)
qed

text \<open>
  C32: The Call the proxy builds is a valid OCPP frame: whenever serde_json reads back the frame it
  printed, the text sent parses as a Call with the proxy's unique id and the command's action.
\<close>

theorem prepared_call_is_frame:
  assumes "prepare_call E c req uid now = Inr p"
    and "\<And>payload a d. command_payload E c now (command req) = Inr (payload, a, d)
          \<Longrightarrow> faithful_on E (call_json uid (action_of (command req)) payload)"
  shows "parse E t (prep_raw p) = Inr \<lparr>raw = prep_raw p, message_type = Call (action_of (command req)),
           unique_id = uid, received_at = t\<rparr>"
  using prepared_frame_parses[OF assms] prepare_call_Inr[OF assms(1)] by auto

theorem prepared_call_is_frame_witness:
  "\<exists>p. prepare_call (table_ext [(''f'', call_json ''proxy-0-1'' ''ClearChargingProfile''
         (clear_charging_profile_payload charging_config_default))]) charging_config_default
         \<lparr>req_id = ''r'', command = ClearCurrentLimit, source = SourceMqtt, issued_at = 0\<rparr> ''proxy-0-1'' 0 = Inr p
     \<and> parse (table_ext [(''f'', call_json ''proxy-0-1'' ''ClearChargingProfile''
         (clear_charging_profile_payload charging_config_default))]) 9 (prep_raw p)
       = Inr \<lparr>raw = prep_raw p, message_type = Call ''ClearChargingProfile'', unique_id = ''proxy-0-1'', received_at = 9\<rparr>"
proof -
  let ?E = "table_ext [(''f'', call_json ''proxy-0-1'' ''ClearChargingProfile'' (clear_charging_profile_payload charging_config_default))]"
  let ?req = "\<lparr>req_id = ''r'', command = ClearCurrentLimit, source = SourceMqtt, issued_at = 0\<rparr>"
  obtain p where p: "prepare_call ?E charging_config_default ?req ''proxy-0-1'' 0 = Inr p"
    by (simp add: prepare_call_def table_ext_def)
  have "parse ?E 9 (prep_raw p) = Inr \<lparr>raw = prep_raw p, message_type = Call (action_of (command ?req)),
      unique_id = ''proxy-0-1'', received_at = 9\<rparr>"
    by (rule prepared_call_is_frame[OF p]) (auto simp: faithful_on_def table_ext_def)
  with p show ?thesis by auto
qed

text \<open>
  Guarded commands: no frame is built for a configuration key outside the allow-list or for a
  message that OCPP 1.6 does not let a Central System trigger.
\<close>

lemma guarded_commands_refused:
  assumes "prepare_call E c req uid now = Inr p"
  shows "(\<forall>k v. command req = ChangeConfiguration k v \<longrightarrow> k \<in> set (allowed_configuration_keys c))
    \<and> (\<forall>m conn. command req = TriggerMessage m conn \<longrightarrow> m \<in> set TRIGGERABLE_MESSAGES)"
  using prepare_call_Inr[OF assms] payload_guards by fastforce

end
