(* ===== verification/Session_Facts.thy ===== *)
theory Session_Facts
  imports Session Command_Facts "HOL-Library.Sublist"
begin

text \<open>
  Facts about \<open>src/session.rs\<close>: what every handler leaves alone, the invariant of a session, and the
  accounting of command requests.
\<close>

section \<open>What the handlers leave alone\<close>

lemma send_event_frame [record_frame, simp]:
  "local (send_event ev s) = local s" "charger_tx (send_event ev s) = charger_tx s"
  "manager (send_event ev s) = manager s" "commands_open (send_event ev s) = commands_open s"
  "sess_backoff (send_event ev s) = sess_backoff s" "reconnecting_since (send_event ev s) = reconnecting_since s"
  "close_code (send_event ev s) = close_code s"
  "upstream_buffer (forwarder (send_event ev s)) = upstream_buffer (forwarder s)"
  "downstream_buffer (forwarder (send_event ev s)) = downstream_buffer (forwarder s)"
  "max_buffer_size (forwarder (send_event ev s)) = max_buffer_size (forwarder s)"
  "call_tracker (forwarder (send_event ev s)) = call_tracker (forwarder s)"
  "charge_point_id (forwarder (send_event ev s)) = charge_point_id (forwarder s)"
  "offered (mqtt_tx (forwarder (send_event ev s))) = offered (mqtt_tx (forwarder s)) @ [ev]"
  by (simp_all add: send_event_def)

lemma emit_frame [record_frame, simp]:
  "local (emit_command_result r s) = local s" "charger_tx (emit_command_result r s) = charger_tx s"
  "manager (emit_command_result r s) = manager s"
  "commands_open (emit_command_result r s) = commands_open s"
  "sess_backoff (emit_command_result r s) = sess_backoff s"
  "close_code (emit_command_result r s) = close_code s"
  "upstream_buffer (forwarder (emit_command_result r s)) = upstream_buffer (forwarder s)"
  "downstream_buffer (forwarder (emit_command_result r s)) = downstream_buffer (forwarder s)"
  "max_buffer_size (forwarder (emit_command_result r s)) = max_buffer_size (forwarder s)"
  "call_tracker (forwarder (emit_command_result r s)) = call_tracker (forwarder s)"
  "charge_point_id (forwarder (emit_command_result r s)) = charge_point_id (forwarder s)"
  by (simp_all add: emit_command_result_def)

lemma forwarder_ok_fields:
  "forwarder_ok (forwarder s) \<Longrightarrow> upstream_buffer (forwarder s') = upstream_buffer (forwarder s)
   \<Longrightarrow> downstream_buffer (forwarder s') = downstream_buffer (forwarder s)
   \<Longrightarrow> max_buffer_size (forwarder s') = max_buffer_size (forwarder s)
   \<Longrightarrow> call_tracker (forwarder s') = call_tracker (forwarder s) \<Longrightarrow> forwarder_ok (forwarder s')"
  by (simp add: forwarder_ok_def)

text \<open>A sequence of results: local state is untouched by all of them.\<close>

lemma fold_emit_frame [record_frame, simp]:
  "local (fold (\<lambda>x. emit_command_result (f x)) xs s) = local s"
  "charger_tx (fold (\<lambda>x. emit_command_result (f x)) xs s) = charger_tx s"
  "manager (fold (\<lambda>x. emit_command_result (f x)) xs s) = manager s"
  "commands_open (fold (\<lambda>x. emit_command_result (f x)) xs s) = commands_open s"
  "sess_backoff (fold (\<lambda>x. emit_command_result (f x)) xs s) = sess_backoff s"
  "close_code (fold (\<lambda>x. emit_command_result (f x)) xs s) = close_code s"
  "upstream_buffer (forwarder (fold (\<lambda>x. emit_command_result (f x)) xs s)) = upstream_buffer (forwarder s)"
  "downstream_buffer (forwarder (fold (\<lambda>x. emit_command_result (f x)) xs s)) = downstream_buffer (forwarder s)"
  "max_buffer_size (forwarder (fold (\<lambda>x. emit_command_result (f x)) xs s)) = max_buffer_size (forwarder s)"
  "call_tracker (forwarder (fold (\<lambda>x. emit_command_result (f x)) xs s)) = call_tracker (forwarder s)"
  by (induction xs arbitrary: s) simp_all

section \<open>Accounting of command requests\<close>

definition result_id :: "mqtt_event \<Rightarrow> string list" where
  "result_id ev = (case ev of CommandResultEvent _ r \<Rightarrow> [res_id r] | _ \<Rightarrow> [])"

text \<open>The ids of all results reported so far.\<close>

definition reported_by :: "message_forwarder \<Rightarrow> string multiset" where
  "reported_by fw = mset (concat (map result_id (offered (mqtt_tx fw))))"

definition reported :: "session \<Rightarrow> string multiset" where
  "reported s = reported_by (forwarder s)"

text \<open>Reported, or still the queue's responsibility.\<close>

definition accounted :: "session \<Rightarrow> string multiset" where
  "accounted s = reported s + image_mset req_id (held (local s))"

lemma reported_send_event [simp]: "reported (send_event ev s) = reported s + mset (result_id ev)"
  by (simp add: reported_def reported_by_def)

lemma reported_emit [simp]: "reported (emit_command_result r s) = reported s + {#res_id r#}"
  by (simp add: emit_command_result_def result_id_def)

lemma reported_fold_emit:
  "(\<And>x. res_id (f x) = req_id x) \<Longrightarrow>
     reported (fold (\<lambda>x. emit_command_result (f x)) xs s) = reported s + image_mset req_id (mset xs)"
  by (induction xs arbitrary: s) (simp_all add: add_ac)

lemma reported_cong: "offered (mqtt_tx (forwarder s')) = offered (mqtt_tx (forwarder s)) \<Longrightarrow> reported s' = reported s"
  by (simp add: reported_def reported_by_def)

lemma reported_updates [simp]:
  "reported (s\<lparr>local := q\<rparr>) = reported s" "reported (s\<lparr>charger_tx := t\<rparr>) = reported s"
  "reported (s\<lparr>manager := m\<rparr>) = reported s" "reported (s\<lparr>commands_open := b\<rparr>) = reported s"
  "reported (s\<lparr>sess_backoff := bo\<rparr>) = reported s" "reported (s\<lparr>reconnecting_since := rs\<rparr>) = reported s"
  "reported (s\<lparr>last_delay := d\<rparr>) = reported s"
  "reported (s\<lparr>close_code := c\<rparr>) = reported s" "reported (s\<lparr>forwarder := fw\<rparr>) = reported_by fw"
  by (simp_all add: reported_def)

lemma accounted_updates [simp]:
  "accounted (s\<lparr>charger_tx := t\<rparr>) = accounted s" "accounted (s\<lparr>manager := m\<rparr>) = accounted s"
  "accounted (s\<lparr>commands_open := b\<rparr>) = accounted s" "accounted (s\<lparr>sess_backoff := bo\<rparr>) = accounted s"
  "accounted (s\<lparr>last_delay := d\<rparr>) = accounted s"
  "accounted (s\<lparr>reconnecting_since := rs\<rparr>) = accounted s" "accounted (s\<lparr>close_code := c\<rparr>) = accounted s"
  by (simp_all add: accounted_def)

lemma result_ids [simp]:
  "res_id (result_for_request E now req st d) = req_id req"
  "res_id (result_for_in_flight E now fl st resp d) = req_id (fl_request fl)"
  "res_id (displaced_result E now req) = req_id req"
  "res_id (unsent_result E cfg now req) = req_id req"
  "res_id (unanswered_result E cfg now fl) = req_id (fl_request fl)"
  "res_id (ended_result E now req) = req_id req"
  "res_id (ended_in_flight E now fl) = req_id (fl_request fl)"
  by (simp_all add: result_for_request_def result_for_in_flight_def displaced_result_def unsent_result_def
      unanswered_result_def ended_result_def ended_in_flight_def)

text \<open>The queue's own steps.\<close>

lemma pop_next_NoneD: "pop_next q = (None, q') \<Longrightarrow> q' = q"
  by (auto simp: pop_next_def split: if_splits list.splits)

lemma pop_next_SomeD:
  "pop_next q = (Some r, q') \<Longrightarrow> held q = {#r#} + held q' \<and> in_flight q = None \<and> in_flight q' = None
     \<and> queued q = r # queued q' \<and> q_capacity q' = q_capacity q \<and> sequence q' = sequence q"
  by (auto simp: pop_next_def held_def split: if_splits list.splits)

lemma next_unique_id_frame:
  "next_unique_id now q = (uid, q') \<Longrightarrow> queued q' = queued q \<and> in_flight q' = in_flight q \<and> held q' = held q
     \<and> q_capacity q' = q_capacity q \<and> sequence q' = sequence q + 1"
  by (auto simp: next_unique_id_def held_def Let_def)

lemma set_in_flight_held: "in_flight q = None \<Longrightarrow> held (set_in_flight inst req p q) = {#req#} + held q"
  by (simp add: set_in_flight_def held_def)

text \<open>One turn of the sending loop, as the cases a proof needs.\<close>

lemma send_queued_cases:
  assumes "pop_next (local s) = (Some req, q)" "next_unique_id now q = (uid, q')"
  obtains
    (invalid) reason where "prepare_call E c req uid now = Inl reason"
      "send_queued E c now inst s = send_queued E c now inst
         (emit_command_result (result_for_request E now req Invalid (Some reason)) (s\<lparr>local := q'\<rparr>))"
  | (gone) prep e t where "prepare_call E c req uid now = Inr prep"
      "charger_sink_send (charger_tx s) (prep_raw prep) = (Inl e, t)"
      "send_queued E c now inst s = (Inl (), emit_command_result (result_for_request E now req NotConnected
         (Some ''charger connection closed before the command was sent'')) (s\<lparr>local := q', charger_tx := t\<rparr>))"
  | (sent) prep t where "prepare_call E c req uid now = Inr prep"
      "charger_sink_send (charger_tx s) (prep_raw prep) = (Inr (), t)"
      "send_queued E c now inst s = (Inr (), s\<lparr>local := set_in_flight inst req prep q', charger_tx := t\<rparr>)"
proof (cases "prepare_call E c req uid now")
  case (Inl reason)
  with assms show ?thesis by (intro invalid) (simp_all add: send_queued.simps[of E c now inst s])
next
  case (Inr prep)
  obtain r t where send: "charger_sink_send (charger_tx s) (prep_raw prep) = (r, t)" by fastforce
  show ?thesis
  proof (cases r)
    case (Inl e)
    with assms Inr send show ?thesis by (intro gone) (simp_all add: send_queued.simps[of E c now inst s])
  next
    case (Inr u)
    with assms \<open>prepare_call E c req uid now = Inr prep\<close> send show ?thesis
      by (intro sent) (simp_all add: send_queued.simps[of E c now inst s])
  qed
qed

text \<open>Induction over the sending loop: a relation that its turns establish holds of the whole.\<close>

lemma send_queued_rule:
  assumes finished: "\<And>s. R s s"
    and invalid: "\<And>s s' req q uid q' reason.
      pop_next (local s) = (Some req, q) \<Longrightarrow> next_unique_id now q = (uid, q') \<Longrightarrow>
      R (emit_command_result (result_for_request E now req Invalid (Some reason)) (s\<lparr>local := q'\<rparr>)) s' \<Longrightarrow> R s s'"
    and gone: "\<And>s req q uid q' (prep :: prepared_call) e t d.
      pop_next (local s) = (Some req, q) \<Longrightarrow> next_unique_id now q = (uid, q') \<Longrightarrow>
      charger_sink_send (charger_tx s) (prep_raw prep) = (Inl e, t) \<Longrightarrow>
      R s (emit_command_result (result_for_request E now req NotConnected d) (s\<lparr>local := q', charger_tx := t\<rparr>))"
    and sent: "\<And>s req q uid q' prep t.
      pop_next (local s) = (Some req, q) \<Longrightarrow> next_unique_id now q = (uid, q') \<Longrightarrow>
      prepare_call E c req uid now = Inr prep \<Longrightarrow> charger_sink_send (charger_tx s) (prep_raw prep) = (Inr (), t) \<Longrightarrow>
      R s (s\<lparr>local := set_in_flight inst req prep q', charger_tx := t\<rparr>)"
  shows "R s (snd (send_queued E c now inst s))"
proof (induction "length (queued (local s))" arbitrary: s rule: less_induct)
  case less
  obtain r q where pop: "pop_next (local s) = (r, q)" by fastforce
  show ?case
  proof (cases r)
    case None
    then have "snd (send_queued E c now inst s) = s"
      using pop pop_next_NoneD[of "local s" q] by (simp add: send_queued.simps[of E c now inst s])
    then show ?thesis using finished by simp
  next
    case (Some req)
    obtain uid q' where u: "next_unique_id now q = (uid, q')" by fastforce
    have "length (queued q') < length (queued (local s))"
      using pop_next_SomeD[OF pop[unfolded Some]] next_unique_id_frame[OF u] by simp
    then have less': "R s' (snd (send_queued E c now inst s'))" if "local s' = q'" for s'
      using less[of s'] that by simp
    show ?thesis
    proof (rule send_queued_cases[OF pop[unfolded Some] u, of E c inst])
      fix reason
      let ?s = "emit_command_result (result_for_request E now req Invalid (Some reason)) (s\<lparr>local := q'\<rparr>)"
      assume "send_queued E c now inst s = send_queued E c now inst ?s"
      then show ?thesis using invalid[OF pop[unfolded Some] u] less'[of ?s] by simp
    next
      fix prep :: prepared_call and e t
      assume c: "charger_sink_send (charger_tx s) (prep_raw prep) = (Inl e, t)"
        and eq: "send_queued E c now inst s = (Inl (), emit_command_result (result_for_request E now req NotConnected
          (Some ''charger connection closed before the command was sent'')) (s\<lparr>local := q', charger_tx := t\<rparr>))"
      then show ?thesis using gone[OF pop[unfolded Some] u c] by simp
    next
      fix prep t
      assume "prepare_call E c req uid now = Inr prep" "charger_sink_send (charger_tx s) (prep_raw prep) = (Inr (), t)"
        "send_queued E c now inst s = (Inr (), s\<lparr>local := set_in_flight inst req prep q', charger_tx := t\<rparr>)"
      then show ?thesis using sent[OF pop[unfolded Some] u] by simp
    qed
  qed
qed

lemma accounted_send_queued: "accounted (snd (send_queued E c now inst s)) = accounted s"
proof (rule send_queued_rule[where R = "\<lambda>s s'. accounted s' = accounted s"])
qed (auto simp: accounted_def set_in_flight_held add_ac dest!: pop_next_SomeD next_unique_id_frame)

lemma accounted_send_local_calls: "accounted (snd (send_local_calls E c now inst s)) = accounted s"
  by (simp add: send_local_calls_def accounted_send_queued)

lemma reported_by_forwarder [simp]:
  "reported_by (snd (snd (forward_message send now d f sink fw))) = reported_by fw"
  "reported_by (buffer_upstream f fw) = reported_by fw"
  "reported_by (discard_downstream_buffer fw) = reported_by fw"
  "reported_by (snd (evict_expired_messages now fw)) = reported_by fw"
  "reported_by (snd (cleanup_expired_calls now fw)) = reported_by fw"
  "reported_by (snd (snd (flush_upstream send sink fw))) = reported_by fw"
proof -
  show "reported_by (snd (snd (forward_message send now d f sink fw))) = reported_by fw"
    by (cases "fst (send sink (raw f))") (simp_all add: forward_message_cases reported_by_def result_id_def)
qed (simp_all add: reported_by_def buffer_upstream_def discard_downstream_buffer_def evict_expired_messages_def
      cleanup_expired_calls_def flush_upstream_unfold Let_def split: prod.splits)

lemma accounted_cong:
  "local s' = local s \<Longrightarrow> reported s' = reported s \<Longrightarrow> accounted s' = accounted s"
  by (simp add: accounted_def)

lemma or_charger_gone_parts [simp]:
  "snd (snd (or_charger_gone u r)) = snd r" "fst (snd (or_charger_gone u r)) = u"
  "fst (or_charger_gone u r) = None \<or> fst (or_charger_gone u r) = Some ChargerGone"
  by (auto simp: or_charger_gone_def split: prod.splits sum.splits)

lemma forward_charger_frame_parts:
  fixes s :: session
  assumes r: "forward_upstream (upstream_sink_send ws) now f u (forwarder s) = r"
  shows "isl (fst r) \<Longrightarrow> forward_charger_frame E ws cfg now inst text f u s =
      (Some UpstreamLost, fst (snd r), s\<lparr>forwarder :=
         (case parse E now text of Inr f' \<Rightarrow> buffer_upstream f' (snd (snd r)) | Inl _ \<Rightarrow> snd (snd r))\<rparr>)"
    and "\<not> isl (fst r) \<Longrightarrow> forward_charger_frame E ws cfg now inst text f u s =
      (let s' = s\<lparr>forwarder := snd (snd r), manager := record_forwarded ChargerToCentral (manager s)\<rparr>
       in if queue_is_empty (local s) then (None, fst (snd r), s')
          else or_charger_gone (fst (snd r)) (send_local_calls E (sc_charging cfg) now inst s'))"
  unfolding forward_charger_frame_def r
  by (auto simp: Let_def split: prod.splits sum.splits)

lemma accounted_forward_charger_frame:
  "accounted (snd (snd (forward_charger_frame E ws cfg now inst text f u s))) = accounted s"
proof (cases "isl (fst (forward_upstream (upstream_sink_send ws) now f u (forwarder s)))")
  case True
  show ?thesis
    unfolding forward_charger_frame_parts(1)[OF refl True]
    by (auto simp: forward_upstream_def accounted_def reported_def split: sum.splits)
next
  case False
  let ?fw = "snd (snd (forward_upstream (upstream_sink_send ws) now f u (forwarder s)))"
  let ?s = "s\<lparr>forwarder := ?fw, manager := record_forwarded ChargerToCentral (manager s)\<rparr>"
  have "accounted ?s = accounted s" by (simp add: forward_upstream_def accounted_def reported_def)
  then show ?thesis
    unfolding forward_charger_frame_parts(2)[OF refl False] by (simp add: Let_def accounted_send_local_calls)
qed

lemma accounted_complete:
  assumes "take_response uid (local s) = (Some fl, q)"
  shows "accounted (complete_local_call E now fl f (s\<lparr>local := q\<rparr>)) = accounted s"
  using take_response_held[OF assms]
  by (simp add: complete_local_call_def Let_def accounted_def add_ac split: prod.splits)

lemma accounted_charger_text: "accounted (snd (snd (charger_text E ws cfg now inst text u s))) = accounted s"
  by (auto simp: charger_text_def accounted_forward_charger_frame accounted_send_local_calls accounted_complete
      split: sum.splits prod.splits option.splits if_splits)

lemma accounted_central_text: "accounted (snd (central_text E now text s)) = accounted s"
proof -
  have "reported_by (snd (snd (forward_downstream charger_sink_send now f t fw))) = reported_by fw" for f t fw
    by (simp add: forward_downstream_def)
  then show ?thesis
    by (auto simp: central_text_def accounted_def reported_def split: sum.splits prod.splits) (metis snd_conv)+
qed

lemma accounted_command_received:
  "accounted (snd (command_received E cfg now inst req s)) = accounted s + {#req_id req#}"
proof -
  obtain displaced q where p: "push req (local s) = (displaced, q)" by fastforce
  have "image_mset req_id (mset displaced) + image_mset req_id (held q) = image_mset req_id (held (local s)) + {#req_id req#}"
    using arg_cong[OF push_held[of req "local s"], of "image_mset req_id"] p by simp
  then show ?thesis
    by (simp add: command_received_def p accounted_send_local_calls)
       (simp add: accounted_def reported_fold_emit add_ac)
qed

lemma accounted_command_tick: "accounted (snd (command_tick E cfg now inst s)) = accounted s"
proof -
  obtain expired fl q where p: "expire now inst (local s) = ((expired, fl), q)" by (metis prod.collapse)
  have "image_mset req_id (mset expired) + image_mset req_id (case fl of None \<Rightarrow> {#} | Some f \<Rightarrow> {#fl_request f#})
      + image_mset req_id (held q) = image_mset req_id (held (local s))"
    using arg_cong[OF expire_held[of now inst "local s"], of "image_mset req_id"] p by (simp add: taken_back_def)
  then show ?thesis
    by (cases fl; simp add: command_tick_def p accounted_send_local_calls)
       (simp_all add: accounted_def reported_fold_emit add_ac)
qed

text \<open>The requests a step takes from the command channel.\<close>

definition received :: "loop_event \<Rightarrow> session \<Rightarrow> string multiset" where
  "received ev s = (case ev of CommandRecv (Some r) \<Rightarrow> if commands_open s then {#req_id r#} else {#} | _ \<Rightarrow> {#})"

lemma accounted_loop_step:
  "accounted (snd (snd (loop_step E ws cfg now inst ev u s))) = accounted s + received ev s"
proof (cases ev)
  case (FromCharger inp)
  then show ?thesis
    by (cases inp) (simp_all add: loop_step_def received_def from_charger_def accounted_charger_text)
next
  case (FromCentral inp)
  then show ?thesis
    by (cases inp) (simp_all add: loop_step_def received_def from_central_def Let_def case_prod_unfold
        accounted_central_text split: sum.splits)
next
  case HousekeepingTick
  then show ?thesis by (simp add: loop_step_def received_def housekeeping_def accounted_def reported_def)
qed (auto simp: loop_step_def received_def accounted_command_received accounted_command_tick
      split: option.splits)

fun loop_received where
  "loop_received E ws cfg [] u s = {#}"
| "loop_received E ws cfg ((now, inst, ev) # evs) u s =
     received ev s + (case loop_step E ws cfg now inst ev u s of
        (None, u', s') \<Rightarrow> loop_received E ws cfg evs u' s' | _ \<Rightarrow> {#})"

lemma accounted_forward_loop:
  "accounted (snd (snd (forward_loop E ws cfg evs u s))) = accounted s + loop_received E ws cfg evs u s"
proof (induction evs arbitrary: u s)
  case (Cons e evs)
  obtain now inst ev where e: "e = (now, inst, ev)" by (metis prod_cases3)
  obtain r u' s' where l: "loop_step E ws cfg now inst ev u s = (r, u', s')" by (metis prod_cases3)
  have "accounted s' = accounted s + received ev s"
    using accounted_loop_step[of E ws cfg now inst ev u s] l by simp
  then show ?case using Cons.IH[of u' s'] l e by (cases r) (simp_all add: add_ac)
qed simp

lemma accounted_set_upstream_state [simp]: "accounted (set_upstream_state now st s) = accounted s"
  by (simp add: set_upstream_state_def publish_status_def Let_def accounted_def result_id_def)

definition round_received where
  "round_received E ws cfg now r s =
     (case r of
        AttemptFailed w \<Rightarrow> {#}
      | Attempt u evs later inst' w \<Rightarrow>
          (let s0 = set_upstream_state now Connecting s;
               s1 = s0\<lparr>sess_backoff := reset (sess_backoff s0), reconnecting_since := None\<rparr>;
               s2 = set_upstream_state now Connected s1
           in case flush_upstream (upstream_sink_send ws) u (forwarder s2) of
                (Inl _, u', fw) \<Rightarrow> {#}
              | (Inr n, u', fw) \<Rightarrow> loop_received E ws cfg evs u' (record_replayed n (s2\<lparr>forwarder := fw\<rparr>))))"

fun result_state :: "'a step_result \<Rightarrow> 'a" where
  "result_state (Continue s) = s"
| "result_state (Break s) = s"
| "result_state (Waiting s) = s"

lemma accounted_after_lost: "after_lost now inst w s = Some r \<Longrightarrow> accounted (result_state r) = accounted s"
proof -
  have "accounted (s\<lparr>forwarder := discard_downstream_buffer (forwarder s)\<rparr>) = accounted s"
    by (simp add: accounted_def reported_def)
  then show "after_lost now inst w s = Some r \<Longrightarrow> accounted (result_state r) = accounted s"
    by (auto simp: after_lost_def Let_def split: option.splits if_splits)
qed

lemma accounted_wake: "accounted (result_state (wake_result w s)) = accounted s"
  by (simp add: wake_result_def split: wake.splits)

lemma accounted_round_failed:
  "session_round E ws cfg now inst (AttemptFailed w) s = Some r \<Longrightarrow> accounted (result_state r) = accounted s"
  by (auto simp: session_round_def Let_def accounted_wake split: option.splits if_splits)

lemma accounted_round_attempt:
  assumes "session_round E ws cfg now inst (Attempt u evs later inst' w) s = Some r"
  shows "accounted (result_state r) = accounted s + round_received E ws cfg now (Attempt u evs later inst' w) s"
proof -
  define s0 where "s0 = set_upstream_state now Connecting s"
  define s2 where "s2 = set_upstream_state now Connected
     (s0\<lparr>sess_backoff := reset (sess_backoff s0), reconnecting_since := None\<rparr>)"
  have s2: "accounted s2 = accounted s"
    by (simp add: s2_def s0_def)
  obtain fr u' fw where fl: "flush_upstream (upstream_sink_send ws) u (forwarder s2) = (fr, u', fw)"
    by (metis prod_cases3)
  have fw: "reported_by fw = reported_by (forwarder s2)"
    using reported_by_forwarder(6)[of "upstream_sink_send ws" u "forwarder s2"] fl by simp
  show ?thesis
  proof (cases fr)
    case (Inl e)
    then have "r = Continue (s2\<lparr>forwarder := fw\<rparr>)" "round_received E ws cfg now (Attempt u evs later inst' w) s = {#}"
      using assms fl by (simp_all add: session_round_def round_received_def Let_def flip: s0_def s2_def)
    then show ?thesis using s2 fw by (simp add: accounted_def reported_def)
  next
    case (Inr n)
    define s3 where "s3 = record_replayed n (s2\<lparr>forwarder := fw\<rparr>)"
    have s3: "accounted s3 = accounted s"
      using s2 fw by (simp add: s3_def record_replayed_def accounted_def reported_def)
    obtain oc u4 s4 where loop: "forward_loop E ws cfg evs u' s3 = (oc, u4, s4)" by (metis prod_cases3)
    have "round_received E ws cfg now (Attempt u evs later inst' w) s = loop_received E ws cfg evs u' s3"
      using Inr fl by (simp add: round_received_def Let_def s3_def flip: s0_def s2_def)
    then have s4: "accounted s4 = accounted s + round_received E ws cfg now (Attempt u evs later inst' w) s"
      using accounted_forward_loop[of E ws cfg evs u' s3] loop s3 by simp
    have "session_round E ws cfg now inst (Attempt u evs later inst' w) s =
        (case oc of None \<Rightarrow> Some (Waiting s4) | Some UpstreamLost \<Rightarrow> after_lost later inst' w s4 | Some _ \<Rightarrow> Some (Break s4))"
      using Inr fl loop by (simp add: session_round_def Let_def s3_def flip: s0_def s2_def
          split: option.split loop_outcome.split)
    then show ?thesis
      using assms s4 accounted_after_lost[of later inst' w s4 r]
      by (auto split: option.splits loop_outcome.splits)
  qed
qed

lemma accounted_round:
  "session_round E ws cfg now inst rd s = Some r \<Longrightarrow> accounted (result_state r) = accounted s + round_received E ws cfg now rd s"
  using accounted_round_failed accounted_round_attempt by (cases rd) (fastforce simp: round_received_def)+

fun rounds_received where
  "rounds_received E ws cfg [] s = {#}"
| "rounds_received E ws cfg ((now, inst, rd) # rs) s =
     round_received E ws cfg now rd s +
     (case session_round E ws cfg now inst rd s of
        Some (Continue s') \<Rightarrow> rounds_received E ws cfg rs s' | _ \<Rightarrow> {#})"

lemma accounted_rounds:
  "session_rounds E ws cfg rs s = Some r \<Longrightarrow> accounted (result_state r) = accounted s + rounds_received E ws cfg rs s"
proof (induction rs arbitrary: s)
  case (Cons x rs)
  obtain now inst rd where x: "x = (now, inst, rd)" by (metis prod_cases3)
  obtain r' where r': "session_round E ws cfg now inst rd s = Some r'"
    using Cons.prems x by (cases "session_round E ws cfg now inst rd s") auto
  show ?case
    using Cons.prems Cons.IH x r' accounted_round[OF r'] by (cases r') (auto simp: add_ac)
qed auto

lemma teardown_reports_all:
  "reported (teardown E now waiting s) = accounted s + image_mset req_id (mset waiting)
   \<and> held (local (teardown E now waiting s)) = {#}"
proof -
  have cd: "local (count_dropped s) = local s" "reported (count_dropped s) = reported s"
    by (simp_all add: count_dropped_def Let_def)
  have su: "reported (set_upstream_state now st s') = reported s'" "local (set_upstream_state now st s') = local s'" for st s'
    by (simp_all add: set_upstream_state_def publish_status_def Let_def result_id_def)
  show ?thesis
    by (cases "in_flight (local s)")
       (simp_all add: teardown_def Let_def su cd drain_def reported_fold_emit accounted_def held_def add_ac)
qed

end
