(* ===== verification/Session_Relay.thy ===== *)
theory Session_Relay
  imports Session_Facts
begin

text \<open>
  What a session of \<open>src/session.rs\<close> puts on its two sockets: the relay is byte for byte and in order
  in both directions, replies to the proxy's own Calls never reach the Central System, and a proxy
  Call goes out only on a clear line.
\<close>

section \<open>The sinks\<close>

definition texts_up :: "tung_message list \<Rightarrow> string list" where
  "texts_up ms = concat (map (\<lambda>m. case m of TText t \<Rightarrow> [t] | _ \<Rightarrow> []) ms)"

definition texts_down :: "axum_message channel \<Rightarrow> string list" where
  "texts_down c = concat (map (\<lambda>m. case m of AText t \<Rightarrow> [t] | _ \<Rightarrow> []) (passed c))"

lemma texts_up_append [simp]: "texts_up (xs @ ys) = texts_up xs @ texts_up ys"
  by (simp add: texts_up_def)

lemma upstream_sink_outlet:
  assumes "outlet ws sent"
  shows "outlet (upstream_sink_send ws) (\<lambda>u. texts_up (sent u))"
proof
  fix u t
  show "texts_up (sent (snd (upstream_sink_send ws u t))) =
      (if isl (fst (upstream_sink_send ws u t)) then texts_up (sent u) else texts_up (sent u) @ [t])"
    using outlet.taken_put[OF assms, of u "TText t"]
    by (auto simp: upstream_sink_send_def texts_up_def split: prod.splits sum.splits)
qed

interpretation charger_sink: outlet charger_sink_send texts_down
proof
  fix c t
  show "texts_down (snd (charger_sink_send c t)) =
      (if isl (fst (charger_sink_send c t)) then texts_down c else texts_down c @ [t])"
    using waiting_channel.taken_put[of c "AText t"]
    by (auto simp: charger_sink_send_def texts_down_def split: prod.splits sum.splits)
qed

section \<open>Sending proxy Calls\<close>

text \<open>A Call goes out: exactly one frame, and it is the one now in flight.\<close>

definition sent_call :: "utc \<Rightarrow> session \<Rightarrow> session \<Rightarrow> bool" where
  "sent_call now s s' \<longleftrightarrow>
     (\<exists>fl. in_flight (local s) = None \<and> in_flight (local s') = Some fl
        \<and> texts_down (charger_tx s') = texts_down (charger_tx s) @ [prep_raw (fl_prepared fl)]
        \<and> fl_request fl \<in> set (queued (local s))
        \<and> starts_with UNIQUE_ID_PREFIX (prep_unique_id (fl_prepared fl)))"

lemma unique_id_prefix: "starts_with UNIQUE_ID_PREFIX (fst (next_unique_id now q))"
  by (simp add: next_unique_id_def starts_with_def Let_def)

lemma send_queued_one:
  "sent_call now s (snd (send_queued E c now inst s))
   \<or> texts_down (charger_tx (snd (send_queued E c now inst s))) = texts_down (charger_tx s)"
proof (rule send_queued_rule[where R = "\<lambda>s s'. sent_call now s s' \<or> texts_down (charger_tx s') = texts_down (charger_tx s)"])
  fix s s' :: session and req q uid q' reason
  assume "pop_next (local s) = (Some req, q)" "next_unique_id now q = (uid, q')"
    "sent_call now (emit_command_result (result_for_request E now req Invalid (Some reason)) (s\<lparr>local := q'\<rparr>)) s'
     \<or> texts_down (charger_tx s') = texts_down (charger_tx
         (emit_command_result (result_for_request E now req Invalid (Some reason)) (s\<lparr>local := q'\<rparr>)))"
  then show "sent_call now s s' \<or> texts_down (charger_tx s') = texts_down (charger_tx s)"
    by (auto simp: sent_call_def dest!: pop_next_SomeD next_unique_id_frame)
next
  fix s :: session and req q uid q' and prep :: prepared_call and e t d
  assume "charger_sink_send (charger_tx s) (prep_raw prep) = (Inl e, t)"
  then show "sent_call now s (emit_command_result (result_for_request E now req NotConnected d) (s\<lparr>local := q', charger_tx := t\<rparr>))
    \<or> texts_down (charger_tx (emit_command_result (result_for_request E now req NotConnected d)
         (s\<lparr>local := q', charger_tx := t\<rparr>))) = texts_down (charger_tx s)"
    using charger_sink.taken_put[of "charger_tx s" "prep_raw prep"] by simp
next
  fix s :: session and req q uid q' prep t
  assume s: "pop_next (local s) = (Some req, q)" "next_unique_id now q = (uid, q')"
    "prepare_call E c req uid now = Inr prep" "charger_sink_send (charger_tx s) (prep_raw prep) = (Inr (), t)"
  have "starts_with UNIQUE_ID_PREFIX (prep_unique_id prep)"
    using prepare_call_Inr[OF s(3)] unique_id_prefix[of now q] s(2) by auto
  then show "sent_call now s (s\<lparr>local := set_in_flight inst req prep q', charger_tx := t\<rparr>)
    \<or> texts_down (charger_tx (s\<lparr>local := set_in_flight inst req prep q', charger_tx := t\<rparr>)) = texts_down (charger_tx s)"
    using s charger_sink.taken_put[of "charger_tx s" "prep_raw prep"] pop_next_SomeD[OF s(1)]
    by (simp add: sent_call_def set_in_flight_def)
qed simp

text \<open>What sending leaves alone.\<close>

definition quiet_view where
  "quiet_view s = (call_tracker (forwarder s), upstream_buffer (forwarder s), downstream_buffer (forwarder s),
     max_buffer_size (forwarder s), manager s, commands_open s, sess_backoff s, close_code s)"

lemma quiet_view_updates [simp]:
  "quiet_view (emit_command_result r s) = quiet_view s"
  "quiet_view (s\<lparr>local := q\<rparr>) = quiet_view s" "quiet_view (s\<lparr>charger_tx := t\<rparr>) = quiet_view s"
  by (simp_all add: quiet_view_def)

lemma quiet_view_fold_emit [simp]: "quiet_view (fold (\<lambda>x. emit_command_result (f x)) xs s) = quiet_view s"
  by (simp add: quiet_view_def)

lemma send_queued_quiet: "quiet_view (snd (send_queued E c now inst s)) = quiet_view s"
  by (rule send_queued_rule[where R = "\<lambda>s s'. quiet_view s' = quiet_view s"]) simp_all

lemma send_local_calls_quiet: "quiet_view (snd (send_local_calls E c now inst s)) = quiet_view s"
  by (simp add: send_local_calls_def send_queued_quiet)

lemma send_local_calls_frame [record_frame, simp]:
  "call_tracker (forwarder (snd (send_local_calls E c now inst s))) = call_tracker (forwarder s)"
  "upstream_buffer (forwarder (snd (send_local_calls E c now inst s))) = upstream_buffer (forwarder s)"
  "downstream_buffer (forwarder (snd (send_local_calls E c now inst s))) = downstream_buffer (forwarder s)"
  "max_buffer_size (forwarder (snd (send_local_calls E c now inst s))) = max_buffer_size (forwarder s)"
  "manager (snd (send_local_calls E c now inst s)) = manager s"
  using send_local_calls_quiet[of E c now inst s] by (simp_all add: quiet_view_def)

definition line_clear :: "utc \<Rightarrow> session \<Rightarrow> bool" where
  "line_clear now s \<longleftrightarrow> \<not> has_recent_pending_call now CentralToCharger CENTRAL_CALL_GRACE (forwarder s)"

lemma line_clear_tracker: "call_tracker (forwarder s') = call_tracker (forwarder s) \<Longrightarrow> line_clear now s' = line_clear now s"
  by (simp add: line_clear_def has_recent_pending_call_def)

lemma send_local_calls_one:
  assumes "send_local_calls E c now inst s = (r, s')"
  shows "sent_call now s s' \<and> line_clear now s \<or> texts_down (charger_tx s') = texts_down (charger_tx s)"
  using send_queued_one[of now s E c inst] assms
  by (auto simp: send_local_calls_def line_clear_def split: if_splits)

section \<open>Charger to Central System\<close>

text \<open>The text answers a Call of the proxy.\<close>

definition reply_to_proxy :: "ext \<Rightarrow> utc \<Rightarrow> string \<Rightarrow> session \<Rightarrow> bool" where
  "reply_to_proxy E now t s =
     (case parse E now t of Inr f \<Rightarrow> \<not> is_call f \<and> is_ours (unique_id f) (local s) | Inl _ \<Rightarrow> False)"

text \<open>What a step owes the Central System and the charger.\<close>

definition due_up :: "ext \<Rightarrow> utc \<Rightarrow> loop_event \<Rightarrow> session \<Rightarrow> string list" where
  "due_up E now ev s =
     (case ev of FromCharger (CText t) \<Rightarrow> if reply_to_proxy E now t s then [] else [t] | _ \<Rightarrow> [])"

definition due_down :: "loop_event \<Rightarrow> string list" where
  "due_down ev = (case ev of FromCentral (UText t) \<Rightarrow> [t] | _ \<Rightarrow> [])"

lemma take_response_None: "take_response uid q = (None, q') \<longleftrightarrow> \<not> is_ours uid q \<and> q' = q"
  by (auto simp: take_response_def is_ours_def split: option.splits)

lemma charger_text_consumed:
  assumes "reply_to_proxy E now t s"
  shows "fst (snd (charger_text E ws cfg now inst t u s)) = u"
proof -
  obtain f where f: "parse E now t = Inr f" "\<not> is_call f" "is_ours (unique_id f) (local s)"
    using assms by (auto simp: reply_to_proxy_def split: sum.splits)
  then obtain fl q where "take_response (unique_id f) (local s) = (Some fl, q)"
    using take_response_None[of "unique_id f" "local s"] by (metis not_None_eq prod.collapse)
  with f show ?thesis by (simp add: charger_text_def)
qed

lemma charger_text_relayed:
  assumes "\<not> reply_to_proxy E now t s"
  shows "charger_text E ws cfg now inst t u s =
    (case parse E now t of
       Inr f \<Rightarrow> forward_charger_frame E ws cfg now inst t f u s
     | Inl _ \<Rightarrow> (if isl (fst (upstream_sink_send ws u t)) then Some UpstreamLost else None,
                 snd (upstream_sink_send ws u t), s))"
  using assms
  by (auto simp: charger_text_def reply_to_proxy_def take_response_None split: sum.splits prod.splits option.splits)
     (auto simp: take_response_def split: if_splits)

lemma forward_charger_frame_up:
  "fst (snd (forward_charger_frame E ws cfg now inst t f u s)) = snd (upstream_sink_send ws u (raw f))"
  "isl (fst (upstream_sink_send ws u (raw f))) \<Longrightarrow> parse E now t = Inr f \<Longrightarrow>
     fst (forward_charger_frame E ws cfg now inst t f u s) = Some UpstreamLost
     \<and> upstream_buffer (forwarder (snd (snd (forward_charger_frame E ws cfg now inst t f u s)))) =
         push_evict (max_buffer_size (forwarder s)) f (upstream_buffer (forwarder s))"
proof -
  let ?r = "forward_upstream (upstream_sink_send ws) now f u (forwarder s)"
  have r: "fst (snd ?r) = snd (upstream_sink_send ws u (raw f))" "isl (fst ?r) = isl (fst (upstream_sink_send ws u (raw f)))"
    by (simp_all add: forward_upstream_def)
  show "fst (snd (forward_charger_frame E ws cfg now inst t f u s)) = snd (upstream_sink_send ws u (raw f))"
    using r by (cases "isl (fst ?r)")
       (simp_all add: forward_charger_frame_parts(1)[OF refl] forward_charger_frame_parts(2)[OF refl] Let_def)
  assume "isl (fst (upstream_sink_send ws u (raw f)))" "parse E now t = Inr f"
  then show "fst (forward_charger_frame E ws cfg now inst t f u s) = Some UpstreamLost
     \<and> upstream_buffer (forwarder (snd (snd (forward_charger_frame E ws cfg now inst t f u s)))) =
         push_evict (max_buffer_size (forwarder s)) f (upstream_buffer (forwarder s))"
    using r(2) by (simp add: forward_charger_frame_parts(1)[OF refl] up_buffer.contents_add)
      (simp add: forward_upstream_def)
qed

lemma loop_step_up:
  assumes o: "outlet ws sent" and l: "loop_step E ws cfg now inst ev u s = (oc, u', s')"
  shows "texts_up (sent u') = texts_up (sent u) @ due_up E now ev s
    \<or> texts_up (sent u') = texts_up (sent u) \<and> oc = Some UpstreamLost
      \<and> (\<exists>t. due_up E now ev s = [t] \<and> (\<forall>f. parse E now t = Inr f \<longrightarrow>
           upstream_buffer (forwarder s') = push_evict (max_buffer_size (forwarder s)) f (upstream_buffer (forwarder s))))"
proof (cases "\<exists>t. ev = FromCharger (CText t)")
  case False
  then have due: "due_up E now ev s = []" by (auto simp: due_up_def split: loop_event.splits charger_input.splits)
  have pong: "texts_up (sent (snd (ws u (TPong d)))) = texts_up (sent u)" for d
    using outlet.taken_put[OF o, of u "TPong d"] by (simp add: texts_up_def)
  have "texts_up (sent u') = texts_up (sent u)"
    using False arg_cong[OF l, of "\<lambda>x. fst (snd x)"] pong
    by (cases ev) (auto simp: loop_step_def from_charger_def from_central_def case_prod_unfold Let_def
        split: charger_input.splits central_input.splits sum.splits option.splits if_splits)
  with due show ?thesis by simp
next
  case True
  then obtain t where t: "ev = FromCharger (CText t)" by blast
  then have l': "charger_text E ws cfg now inst t u s = (oc, u', s')"
    using l by (simp add: loop_step_def from_charger_def)
  show ?thesis
  proof (cases "reply_to_proxy E now t s")
    case True
    then show ?thesis using charger_text_consumed[OF True, of ws cfg inst u] l' t by (simp add: due_up_def)
  next
    case False
    note put = outlet.taken_put[OF upstream_sink_outlet[OF o], of u t]
    have due: "due_up E now ev s = [t]" using False t by (simp add: due_up_def)
    show ?thesis
    proof (cases "parse E now t")
      case (Inl e)
      then show ?thesis using charger_text_relayed[OF False, of ws cfg inst u] l' put due by (auto split: if_splits)
    next
      case (Inr f)
      have raw: "raw f = t" using parse_raw[OF Inr] .
      have eq: "forward_charger_frame E ws cfg now inst t f u s = (oc, u', s')"
        using charger_text_relayed[OF False, of ws cfg inst u] l' Inr by simp
      then show ?thesis
        using forward_charger_frame_up[where E = E and ws = ws and cfg = cfg and now = now and inst = inst and t = t and f = f and u = u and s = s] Inr raw put due by auto
    qed
  qed
qed

section \<open>Central System to charger\<close>

text \<open>
  The Call that was outstanding at \<open>s\<close>, if any, has been answered or timed out by \<open>s'\<close>: its result has been handed over.
\<close>

definition vacated :: "session \<Rightarrow> session \<Rightarrow> bool" where
  "vacated s s' \<longleftrightarrow> (\<forall>fl. in_flight (local s) = Some fl \<longrightarrow> reported s + {#req_id (fl_request fl)#} \<subseteq># reported s')"

text \<open>
  One proxy Call has been added to what the charger was sent, on a clear line, for a command that was queued or has just
  \<open>arrived\<close>, after the Call before it was settled.
\<close>

definition call_out :: "utc \<Rightarrow> command_request set \<Rightarrow> session \<Rightarrow> session \<Rightarrow> bool" where
  "call_out now arrived s s' \<longleftrightarrow>
     (\<exists>fl. in_flight (local s') = Some fl \<and> fl_request fl \<in> set (queued (local s)) \<union> arrived
        \<and> vacated s s' \<and> line_clear now s'
        \<and> texts_down (charger_tx s') = texts_down (charger_tx s) @ [prep_raw (fl_prepared fl)]
        \<and> starts_with UNIQUE_ID_PREFIX (prep_unique_id (fl_prepared fl)))"

lemma send_queued_reports: "reported s \<subseteq># reported (snd (send_queued E c now inst s))"
proof (rule send_queued_rule[where R = "\<lambda>s s'. reported s \<subseteq># reported s'"])
  fix s s' :: session and req q uid q' reason
  assume "reported (emit_command_result (result_for_request E now req Invalid (Some reason)) (s\<lparr>local := q'\<rparr>)) \<subseteq># reported s'"
  moreover have "reported s \<subseteq># reported (emit_command_result (result_for_request E now req Invalid (Some reason)) (s\<lparr>local := q'\<rparr>))" by simp
  ultimately show "reported s \<subseteq># reported s'" by (rule subset_mset.order_trans[rotated])
qed simp_all

lemma send_local_calls_down:
  assumes "texts_down (charger_tx s1) = texts_down (charger_tx s)" "in_flight (local s1) = None \<Longrightarrow> vacated s s1"
    and "set (queued (local s1)) \<subseteq> set (queued (local s)) \<union> arrived" and s': "snd (send_local_calls E c now inst s1) = s'"
  shows "texts_down (charger_tx s') = texts_down (charger_tx s) \<or> call_out now arrived s s'"
proof -
  obtain r where r: "send_local_calls E c now inst s1 = (r, s')" using s' by (metis prod.collapse)
  have "line_clear now s' = line_clear now s1"
    using s' by (intro line_clear_tracker) auto
  moreover have "reported s1 \<subseteq># reported s'" using send_queued_reports s' by (auto simp: send_local_calls_def split: if_splits)
  then have "vacated s s1 \<Longrightarrow> vacated s s'" unfolding vacated_def by (meson subset_mset.order_trans)
  ultimately show ?thesis
    using send_local_calls_one[OF r] assms(1-3) unfolding sent_call_def call_out_def by (metis subsetD)
qed

lemma charger_text_down:
  "texts_down (charger_tx (snd (snd (charger_text E ws cfg now inst t u s)))) = texts_down (charger_tx s)
   \<or> call_out now {} s (snd (snd (charger_text E ws cfg now inst t u s)))"
proof (cases "reply_to_proxy E now t s")
  case True
  then obtain f where f: "parse E now t = Inr f" "\<not> is_call f" "is_ours (unique_id f) (local s)"
    by (auto simp: reply_to_proxy_def split: sum.splits)
  then obtain fl q where tr: "take_response (unique_id f) (local s) = (Some fl, q)"
    using take_response_None[of "unique_id f" "local s"] by (metis not_None_eq prod.collapse)
  let ?s = "complete_local_call E now fl f (s\<lparr>local := q\<rparr>)"
  have "texts_down (charger_tx ?s) = texts_down (charger_tx s)"
    by (simp add: complete_local_call_def Let_def split: prod.splits)
  moreover have "vacated s ?s" "set (queued (local ?s)) \<subseteq> set (queued (local s)) \<union> {}"
    using tr by (auto simp: vacated_def complete_local_call_def take_response_def Let_def split: prod.splits if_splits)
  ultimately show ?thesis
    using send_local_calls_down[OF _ _ _ refl, of ?s s "{}"] f tr by (simp add: charger_text_def)
next
  case False
  show ?thesis
  proof (cases "parse E now t")
    case (Inl e)
    then show ?thesis using charger_text_relayed[OF False, of ws cfg inst u] by simp
  next
    case (Inr f)
    let ?r = "forward_upstream (upstream_sink_send ws) now f u (forwarder s)"
    have eq: "charger_text E ws cfg now inst t u s = forward_charger_frame E ws cfg now inst t f u s"
      using charger_text_relayed[OF False, of ws cfg inst u] Inr by simp
    show ?thesis
    proof (cases "isl (fst ?r)")
      case True
      show ?thesis unfolding eq forward_charger_frame_parts(1)[OF refl True] by simp
    next
      case False
      show ?thesis
        unfolding eq forward_charger_frame_parts(2)[OF refl False]
        using send_local_calls_down[OF _ _ _ refl, of "s\<lparr>forwarder := snd (snd ?r), manager := record_forwarded ChargerToCentral (manager s)\<rparr>" s "{}"]
        by (simp add: Let_def vacated_def)
    qed
  qed
qed

lemma central_text_down:
  "central_text E now t s = (oc, s') \<Longrightarrow>
     texts_down (charger_tx s') = texts_down (charger_tx s) @ [t] \<and> oc = None
   \<or> texts_down (charger_tx s') = texts_down (charger_tx s) \<and> oc = Some ChargerGone"
proof -
  assume c: "central_text E now t s = (oc, s')"
  show ?thesis
  proof (cases "parse E now t")
    case (Inl e)
    then show ?thesis
      using c charger_sink.taken_put[of "charger_tx s" t]
      by (auto simp: central_text_def split: prod.splits sum.splits)
  next
    case (Inr f)
    let ?r = "forward_downstream charger_sink_send now f (charger_tx s) (forwarder s)"
    have "fst (snd ?r) = snd (charger_sink_send (charger_tx s) t)" "fst ?r = fst (charger_sink_send (charger_tx s) t)"
      using parse_raw[OF Inr] by (simp_all add: forward_downstream_def)
    then show ?thesis
      using c Inr charger_sink.taken_put[of "charger_tx s" t]
      by (auto simp: central_text_def split: prod.splits sum.splits)
  qed
qed

lemma push_source: "set (queued (snd (push req q))) \<subseteq> set (queued q) \<union> {req}" "in_flight (snd (push req q)) = in_flight q"
proof -
  have tail: "x \<in> set xs" if "filter P xs = y # ys" "x \<in> set ys" for P x y ys and xs :: "command_request list"
  proof -
    have "x \<in> set (filter P xs)" unfolding that(1) using that(2) by simp
    then show ?thesis by simp
  qed
  show "set (queued (snd (push req q))) \<subseteq> set (queued q) \<union> {req}"
    by (auto simp: push_def Let_def split: list.splits if_splits prod.splits dest: tail)
  show "in_flight (snd (push req q)) = in_flight q" by (auto simp: push_def Let_def split: list.splits prod.splits)
qed

lemma command_received_down:
  "texts_down (charger_tx (snd (command_received E cfg now inst req s))) = texts_down (charger_tx s)
   \<or> call_out now {req} s (snd (command_received E cfg now inst req s))"
  unfolding command_received_def Let_def case_prod_unfold
  using push_source[of req "local s"] by (intro send_local_calls_down[OF _ _ _ refl]) (simp_all add: vacated_def)

lemma command_tick_down:
  "texts_down (charger_tx (snd (command_tick E cfg now inst s))) = texts_down (charger_tx s)
   \<or> call_out now {} s (snd (command_tick E cfg now inst s))"
proof -
  obtain expired late q where e: "expire now inst (local s) = ((expired, late), q)" by (metis prod.collapse)
  let ?s1 = "fold (\<lambda>r. emit_command_result (unsent_result E cfg now r)) expired (s\<lparr>local := q\<rparr>)"
  let ?s2 = "case late of None \<Rightarrow> ?s1 | Some x \<Rightarrow> emit_command_result (unanswered_result E cfg now x) ?s1"
  have "reported s \<subseteq># reported ?s1" by (simp add: reported_fold_emit unsent_result_def)
  then have "in_flight (local ?s2) = None \<Longrightarrow> vacated s ?s2"
    using e by (auto simp: vacated_def expire_def unanswered_result_def Let_def split: option.splits if_splits)
  moreover have "set (queued (local ?s2)) \<subseteq> set (queued (local s)) \<union> {}" "texts_down (charger_tx ?s2) = texts_down (charger_tx s)"
    using e by (auto simp: expire_def Let_def split: option.splits)
  ultimately show ?thesis
    using send_local_calls_down[OF _ _ _ refl, of ?s2 s "{}"] by (simp add: command_tick_def e Let_def)
qed

text \<open>The command a step receives.\<close>

definition arrival :: "loop_event \<Rightarrow> command_request set" where
  "arrival ev = (case ev of CommandRecv (Some req) \<Rightarrow> {req} | _ \<Rightarrow> {})"

lemma loop_step_down:
  assumes l: "loop_step E ws cfg now inst ev u s = (oc, u', s')"
  shows "texts_down (charger_tx s') = texts_down (charger_tx s) @ due_down ev
    \<or> texts_down (charger_tx s') = texts_down (charger_tx s) \<and> oc = Some ChargerGone
    \<or> due_down ev = [] \<and> call_out now (arrival ev) s s'"
proof (cases ev)
  case (FromCharger inp)
  then show ?thesis
    using arg_cong[OF l, of "\<lambda>x. snd (snd x)"] charger_text_down[where E = E and ws = ws and cfg = cfg and now = now and inst = inst and u = u and s = s]
    by (cases inp) (auto simp: loop_step_def from_charger_def due_down_def arrival_def)
next
  case (FromCentral inp)
  then show ?thesis
    using l central_text_down[of E now _ s]
    by (cases inp) (fastforce simp: loop_step_def from_central_def due_down_def Let_def split: prod.splits sum.splits)+
next
  case (CommandRecv r)
  then show ?thesis
    using arg_cong[OF l, of "\<lambda>x. snd (snd x)"] command_received_down[of E cfg now inst _ s]
    by (auto simp: loop_step_def due_down_def arrival_def split: option.splits if_splits)
next
  case CommandTick
  then show ?thesis
    using arg_cong[OF l, of "\<lambda>x. snd (snd x)"] command_tick_down[of E cfg now inst s]
    by (auto simp: loop_step_def due_down_def arrival_def split: if_splits)
qed (use l in \<open>auto simp: loop_step_def due_down_def housekeeping_def\<close>)

end
