(* ===== verification/Session_Properties.thy ===== *)
theory Session_Properties
  imports Session_Relay
begin

text \<open>
  The invariant of a session and the theorems about whole sessions of \<open>src/session.rs\<close>: every
  command request is answered once, the relay in both directions, replay after a reconnection, and
  the end of the reconnection window.
\<close>

section \<open>Invariant\<close>

definition session_ok :: "session \<Rightarrow> bool" where
  "session_ok s \<longleftrightarrow> queue_ok (local s) \<and> forwarder_ok (forwarder s) \<and> history_ok (manager s)"

lemma history_ok_counters:
  "history_ok m \<Longrightarrow> history_ok (record_forwarded d m)" "history_ok m \<Longrightarrow> history_ok (record_dropped d n m)"
proof -
  have "state_of c (record_forwarded d m) = state_of c m" "state_of c (record_dropped d n m) = state_of c m" for c
    by (cases c; simp)+
  then show "history_ok m \<Longrightarrow> history_ok (record_forwarded d m)" "history_ok m \<Longrightarrow> history_ok (record_dropped d n m)"
    by (simp_all add: history_ok_def)
qed

lemma history_ok_replayed: "history_ok m \<Longrightarrow> history_ok ((record_forwarded d ^^ n) m)"
  by (induction n) (simp_all add: history_ok_counters)

lemma queue_ok_send_queued: "queue_ok (local s) \<Longrightarrow> queue_ok (local (snd (send_queued E c now inst s)))"
proof -
  have tail: "queue_ok q'" if "pop_next q = (Some r, p)" "next_unique_id now p = (uid, q')" "queue_ok q" for q r p uid q'
    using queue_ok_tail[of q r "queued q'"] pop_next_SomeD[OF that(1)] next_unique_id_frame[OF that(2)] that(3)
    by (auto intro: queue_ok_cong)
  have "queue_ok (local s) \<longrightarrow> queue_ok (local (snd (send_queued E c now inst s)))"
    by (rule send_queued_rule[where R = "\<lambda>s s'. queue_ok (local s) \<longrightarrow> queue_ok (local s')"])
       (use tail in \<open>auto simp: set_in_flight_def queue_ok_def\<close>)
  then show "queue_ok (local s) \<Longrightarrow> queue_ok (local (snd (send_queued E c now inst s)))" by simp
qed

lemma forwarder_ok_quiet: "quiet_view s' = quiet_view s \<Longrightarrow> forwarder_ok (forwarder s) \<Longrightarrow> forwarder_ok (forwarder s')"
  by (simp add: quiet_view_def forwarder_ok_def)

lemma session_ok_quiet:
  "session_ok s \<Longrightarrow> quiet_view s' = quiet_view s \<Longrightarrow> queue_ok (local s') \<Longrightarrow> session_ok s'"
  using forwarder_ok_quiet[of s' s] by (simp add: session_ok_def) (simp add: quiet_view_def)

lemma session_ok_send_local_calls: "session_ok s \<Longrightarrow> session_ok (snd (send_local_calls E c now inst s))"
  using session_ok_quiet[of s "snd (send_local_calls E c now inst s)"] send_local_calls_quiet[of E c now inst s]
    queue_ok_send_queued[of s E c now inst]
  by (simp add: session_ok_def send_local_calls_def)

lemma session_ok_forwarder:
  "session_ok s \<Longrightarrow> forwarder_ok fw \<Longrightarrow> session_ok (s\<lparr>forwarder := fw\<rparr>)"
  by (simp add: session_ok_def)

lemma session_ok_forward_charger_frame:
  assumes ok: "session_ok s"
  shows "session_ok (snd (snd (forward_charger_frame E ws cfg now inst text f u s)))"
proof -
  let ?r = "forward_upstream (upstream_sink_send ws) now f u (forwarder s)"
  have fw: "forwarder_ok (snd (snd ?r))" using ok by (simp add: session_ok_def forward_upstream_def forwarder_ok_forward)
  then have s': "session_ok (s\<lparr>forwarder := snd (snd ?r), manager := record_forwarded ChargerToCentral (manager s)\<rparr>)"
    using ok by (simp add: session_ok_def history_ok_counters del: record_forwarded.simps)
  show ?thesis
  proof (cases "isl (fst ?r)")
    case True
    show ?thesis
      unfolding forward_charger_frame_parts(1)[OF refl True]
      using ok fw by (simp add: session_ok_forwarder forwarder_ok_buffer split: sum.splits)
  next
    case False
    show ?thesis
      unfolding forward_charger_frame_parts(2)[OF refl False]
      using s' by (simp add: Let_def session_ok_send_local_calls)
  qed
qed

lemma session_ok_charger_text:
  assumes "session_ok s"
  shows "session_ok (snd (snd (charger_text E ws cfg now inst text u s)))"
proof -
  have replied: "session_ok (complete_local_call E now fl f (s\<lparr>local := q\<rparr>))"
    if "take_response uid (local s) = (Some fl, q)" for fl f q uid
  proof (rule session_ok_quiet[OF assms])
    have "queue_ok q" using assms take_response_held[OF that] by (auto simp: session_ok_def intro: queue_ok_cong)
    then show "queue_ok (local (complete_local_call E now fl f (s\<lparr>local := q\<rparr>)))"
      by (simp add: complete_local_call_def Let_def split: prod.splits)
    show "quiet_view (complete_local_call E now fl f (s\<lparr>local := q\<rparr>)) = quiet_view s"
      by (simp add: complete_local_call_def Let_def split: prod.splits)
  qed
  show ?thesis
    using assms session_ok_forward_charger_frame session_ok_send_local_calls[OF replied]
    by (auto simp: charger_text_def split: sum.splits prod.splits option.splits if_splits)
qed

lemma session_ok_central_text: "session_ok s \<Longrightarrow> session_ok (snd (central_text E now text s))"
proof -
  assume ok: "session_ok s"
  have "forwarder_ok (snd (snd (forward_downstream charger_sink_send now f t (forwarder s))))" for f t
    using ok by (simp add: session_ok_def forward_downstream_def forwarder_ok_forward)
  then show "session_ok (snd (central_text E now text s))"
    using ok by (simp add: central_text_def session_ok_def history_ok_counters case_prod_unfold
        del: record_forwarded.simps split: sum.splits)
qed

lemma session_ok_commands:
  assumes "session_ok s"
  shows "session_ok (snd (command_received E cfg now inst req s))" "session_ok (snd (command_tick E cfg now inst s))"
proof -
  have pushed: "queue_ok (snd (push req (local s)))" "queue_ok (snd (expire now inst (local s)))"
    using assms by (simp_all add: session_ok_def queue_ok_push queue_ok_expire)
  show "session_ok (snd (command_received E cfg now inst req s))"
    unfolding command_received_def Let_def case_prod_unfold
    by (rule session_ok_send_local_calls, rule session_ok_quiet[OF assms]) (use pushed in simp_all)
  show "session_ok (snd (command_tick E cfg now inst s))"
    unfolding command_tick_def Let_def case_prod_unfold
    by (rule session_ok_send_local_calls, rule session_ok_quiet[OF assms]) (use pushed in \<open>simp_all split: option.split\<close>)
qed

lemma session_ok_loop_step:
  assumes ok: "session_ok s"
  shows "session_ok (snd (snd (loop_step E ws cfg now inst ev u s)))"
proof (cases ev)
  case (FromCharger inp)
  then show ?thesis using ok by (cases inp) (simp_all add: loop_step_def from_charger_def session_ok_charger_text)
next
  case (FromCentral inp)
  then show ?thesis using ok
    by (cases inp) (simp_all add: loop_step_def from_central_def Let_def case_prod_unfold session_ok_central_text
        split: sum.splits)
next
  case HousekeepingTick
  then show ?thesis using ok forwarder_ok_housekeeping
    by (simp add: loop_step_def housekeeping_def session_ok_def)
qed (use ok session_ok_commands in \<open>auto simp: loop_step_def session_ok_def split: option.splits\<close>)

lemma session_ok_forward_loop: "session_ok s \<Longrightarrow> session_ok (snd (snd (forward_loop E ws cfg evs u s)))"
proof (induction evs arbitrary: u s)
  case (Cons e evs)
  obtain now inst ev where e: "e = (now, inst, ev)" by (metis prod_cases3)
  obtain r u' s' where l: "loop_step E ws cfg now inst ev u s = (r, u', s')" by (metis prod_cases3)
  have "session_ok s'" using session_ok_loop_step[OF Cons.prems, of E ws cfg now inst ev u] l by simp
  then show ?case using Cons.IH[of s' u'] l e by (cases r) simp_all
qed simp

lemma session_ok_set_upstream_state: "session_ok s \<Longrightarrow> session_ok (set_upstream_state now st s)"
  by (auto simp: set_upstream_state_def publish_status_def Let_def session_ok_def history_ok_transition forwarder_ok_def)

lemma session_ok_cong:
  "session_ok s \<Longrightarrow> local s' = local s \<Longrightarrow> forwarder s' = forwarder s \<Longrightarrow> manager s' = manager s \<Longrightarrow> session_ok s'"
  by (simp add: session_ok_def)

lemma session_ok_fields [simp]:
  "session_ok (s\<lparr>sess_backoff := b\<rparr>) = session_ok s" "session_ok (s\<lparr>reconnecting_since := x\<rparr>) = session_ok s"
  "session_ok (s\<lparr>last_delay := d\<rparr>) = session_ok s"
  "session_ok (s\<lparr>close_code := c\<rparr>) = session_ok s" "session_ok (s\<lparr>charger_tx := t\<rparr>) = session_ok s"
  by (simp_all add: session_ok_def)

lemma session_ok_after_lost: "session_ok s \<Longrightarrow> after_lost now inst w s = Some r \<Longrightarrow> session_ok (result_state r)"
  using session_ok_set_upstream_state[of "s\<lparr>forwarder := discard_downstream_buffer (forwarder s)\<rparr>" now Reconnecting]
    session_ok_forwarder[of s "discard_downstream_buffer (forwarder s)"] forwarder_ok_housekeeping(1)[of "forwarder s"]
  by (auto simp: after_lost_def Let_def session_ok_def[of s] split: option.splits if_splits)

lemma wake_result_state [simp]: "result_state (wake_result w s) = s"
  by (simp add: wake_result_def split: wake.splits)

lemma session_ok_round:
  assumes ok: "session_ok s" and r: "session_round E ws cfg now inst rd s = Some r"
  shows "session_ok (result_state r)"
proof (cases rd)
  case (AttemptFailed w)
  then show ?thesis
    using ok r by (auto simp: session_round_def Let_def session_ok_set_upstream_state split: option.splits if_splits)
next
  case (Attempt u evs later inst' w)
  define s2 where "s2 = set_upstream_state now Connected ((set_upstream_state now Connecting s)
     \<lparr>sess_backoff := reset (sess_backoff (set_upstream_state now Connecting s)), reconnecting_since := None\<rparr>)"
  have s2: "session_ok s2" using ok by (simp add: s2_def session_ok_set_upstream_state)
  obtain fr u' fw where fl: "flush_upstream (upstream_sink_send ws) u (forwarder s2) = (fr, u', fw)"
    by (metis prod_cases3)
  have fw: "session_ok (s2\<lparr>forwarder := fw\<rparr>)"
    using forwarder_ok_flush(1)[of "forwarder s2" "upstream_sink_send ws" u] s2 fl
    by (simp add: session_ok_forwarder) (simp add: session_ok_def)
  have loop: "session_ok (snd (snd (forward_loop E ws cfg evs u' (record_replayed n (s2\<lparr>forwarder := fw\<rparr>)))))" for n
    using fw by (intro session_ok_forward_loop) (simp add: record_replayed_def session_ok_def history_ok_replayed)
  show ?thesis
    using r fl fw loop session_ok_after_lost
    by (auto simp: session_round_def Let_def Attempt s2_def[symmetric]
        split: sum.splits prod.splits option.splits loop_outcome.splits) (metis snd_conv)+
qed

lemma session_ok_new: "history_ok m \<Longrightarrow> session_ok (session_new cfg cp mtx m)"
  by (simp add: session_ok_def session_new_def queue_ok_new forwarder_ok_new)

lemma session_ok_rounds:
  "session_ok s \<Longrightarrow> session_rounds E ws cfg rs s = Some r \<Longrightarrow> session_ok (result_state r)"
proof (induction rs arbitrary: s)
  case (Cons x rs)
  obtain now inst rd where x: "x = (now, inst, rd)" by (metis prod_cases3)
  obtain r' where r': "session_round E ws cfg now inst rd s = Some r'"
    using Cons.prems(2) x by (cases "session_round E ws cfg now inst rd s") auto
  show ?case
    using Cons.prems(2) Cons.IH x r' session_ok_round[OF Cons.prems(1) r'] by (cases r') auto
qed auto

lemma set_upstream_state_frame [record_frame, simp]:
  "local (set_upstream_state now st s) = local s" "commands_open (set_upstream_state now st s) = commands_open s"
  "charger_tx (set_upstream_state now st s) = charger_tx s"
  "upstream_buffer (forwarder (set_upstream_state now st s)) = upstream_buffer (forwarder s)"
  "reconnecting_since (set_upstream_state now st s) = reconnecting_since s"
  "sess_backoff (set_upstream_state now st s) = sess_backoff s"
  "close_code (set_upstream_state now st s) = close_code s"
  by (simp_all add: set_upstream_state_def publish_status_def Let_def)

section \<open>The relay over a whole connection\<close>

text \<open>The charger's texts that a run of the loop owes the Central System, in order.\<close>

fun loop_due_up where
  "loop_due_up E ws cfg [] u s = []"
| "loop_due_up E ws cfg ((now, inst, ev) # evs) u s =
     due_up E now ev s @ (case loop_step E ws cfg now inst ev u s of
        (None, u', s') \<Rightarrow> loop_due_up E ws cfg evs u' s' | _ \<Rightarrow> [])"

text \<open>The one text that did not get out when the connection broke is kept, unless it was no OCPP frame.\<close>

definition kept_or_malformed :: "ext \<Rightarrow> string \<Rightarrow> session \<Rightarrow> bool" where
  "kept_or_malformed E t s \<longleftrightarrow>
     (\<exists>q f. upstream_buffer (forwarder s) = q @ [f] \<and> raw f = t) \<or> (\<exists>now e. parse E now t = Inl e)"

lemma loop_up:
  assumes o: "outlet ws sent" and l: "forward_loop E ws cfg evs u s = (oc, u', s')"
  shows "texts_up (sent u') = texts_up (sent u) @ loop_due_up E ws cfg evs u s
    \<or> oc = Some UpstreamLost \<and> (\<exists>t. texts_up (sent u') @ [t] = texts_up (sent u) @ loop_due_up E ws cfg evs u s
        \<and> kept_or_malformed E t s')"
  using l
proof (induction evs arbitrary: u s)
  case (Cons e evs)
  obtain now inst ev where e: "e = (now, inst, ev)" by (metis prod_cases3)
  obtain r u1 s1 where step: "loop_step E ws cfg now inst ev u s = (r, u1, s1)" by (metis prod_cases3)
  consider (ok) "texts_up (sent u1) = texts_up (sent u) @ due_up E now ev s"
    | (lost) t where "texts_up (sent u1) = texts_up (sent u)" "r = Some UpstreamLost" "due_up E now ev s = [t]"
        "\<forall>f. parse E now t = Inr f \<longrightarrow> upstream_buffer (forwarder s1) = push_evict (max_buffer_size (forwarder s)) f (upstream_buffer (forwarder s))"
    using loop_step_up[OF o step] by blast
  then show ?case
  proof cases
    case ok
    then show ?thesis using Cons.IH[of u1 s1] Cons.prems e step by (cases r) auto
  next
    case lost
    have "kept_or_malformed E t s1"
    proof (cases "parse E now t")
      case (Inr f)
      then show ?thesis using lost(4) parse_raw[OF Inr] by (auto simp: kept_or_malformed_def push_evict_def)
    qed (auto simp: kept_or_malformed_def)
    then show ?thesis using lost Cons.prems e step by auto
  qed
qed simp

section \<open>A concrete session\<close>

definition channel_ws :: "tung_message channel ws_send" where
  "channel_ws c m = (case channel_send c m of (Inl _, c') \<Rightarrow> (Inl ''closed'', c') | (Inr _, c') \<Rightarrow> (Inr (), c'))"

lemma channel_ws_outlet: "outlet channel_ws passed"
proof
  fix c m
  show "passed (snd (channel_ws c m)) = (if isl (fst (channel_ws c m)) then passed c else passed c @ [m])"
    using waiting_channel.taken_put[of c m] by (auto simp: channel_ws_def split: prod.splits sum.splits)
qed

definition demo_config :: session_config where
  "demo_config = \<lparr>sc_central_system_url = ''ws://cs.example/ocpp'', sc_upstream_bind_address = None,
     sc_subprotocol = ''ocpp1.6'', sc_connect_timeout = from_secs 10,
     sc_message_buffer_size = 100, sc_max_buffer_duration = from_secs 30, sc_initial_backoff = from_secs 1,
     sc_max_backoff = from_secs 60, max_reconnect_window = from_secs 300, call_tracker_max_age = from_secs 300,
     sc_charging = charging_config_default\<rparr>"

definition demo_codec :: ext where
  "demo_codec = table_ext
     [(''hb'', Arr [Num (PosInt 2), Str ''1'', Str ''Heartbeat'', Obj []]),
      (''hbr'', Arr [Num (PosInt 3), Str ''1'', Obj []])]"

definition demo_request :: command_request where
  "demo_request = \<lparr>req_id = ''r1'', command = GetConfiguration [], source = SourceMqtt, issued_at = 0\<rparr>"

definition demo_rounds :: "(utc \<times> nat \<times> tung_message channel round) list" where
  "demo_rounds = [(0, 0, Attempt (channel_new 8) [(0, 0, CommandRecv (Some demo_request)), (0, 0, Cancelled)] 0 0 SleepDone)]"

lemma demo_session:
  "\<exists>s1. session_rounds demo_codec channel_ws demo_config demo_rounds
       (session_new demo_config ''CP1'' (channel_new 64) manager_new) = Some (Break s1)
   \<and> rounds_received demo_codec channel_ws demo_config demo_rounds
       (session_new demo_config ''CP1'' (channel_new 64) manager_new) = {#''r1''#}"
proof -
  let ?new = "session_new demo_config ''CP1'' (channel_new 64) manager_new"
  have new: "upstream_buffer (forwarder ?new) = []" "commands_open ?new"
    by (simp_all add: session_new_def with_charge_point_id_def)
  have loop: "\<exists>oc s1. forward_loop demo_codec channel_ws demo_config
        [(0, 0, CommandRecv (Some demo_request)), (0, 0, Cancelled)] u s = (Some oc, u, s1) \<and> oc \<noteq> UpstreamLost
      \<and> loop_received demo_codec channel_ws demo_config
        [(0, 0, CommandRecv (Some demo_request)), (0, 0, Cancelled)] u s = {#''r1''#}" if "commands_open s" for u s
    using that by (auto simp: loop_step_def or_charger_gone_def received_def demo_request_def
        split: prod.splits sum.splits)
  define s0 where "s0 = set_upstream_state 0 Connecting ?new"
  define s2 where "s2 = set_upstream_state 0 Connected (s0\<lparr>sess_backoff := reset (sess_backoff s0), reconnecting_since := None\<rparr>)"
  let ?u = "channel_new 8 :: tung_message channel"
  let ?s3 = "record_replayed 0 (s2\<lparr>forwarder := (forwarder s2)\<lparr>upstream_buffer := []\<rparr>\<rparr>)"
  have flush: "flush_upstream (upstream_sink_send channel_ws) ?u (forwarder s2) =
      (Inr 0, ?u, (forwarder s2)\<lparr>upstream_buffer := []\<rparr>)"
    using new by (simp add: flush_upstream_unfold s2_def s0_def)
  have "commands_open ?s3" using new by (simp add: record_replayed_def s2_def s0_def)
  then obtain oc s1 where l: "forward_loop demo_codec channel_ws demo_config
        [(0, 0, CommandRecv (Some demo_request)), (0, 0, Cancelled)] ?u ?s3 = (Some oc, ?u, s1)" "oc \<noteq> UpstreamLost"
      "loop_received demo_codec channel_ws demo_config
        [(0, 0, CommandRecv (Some demo_request)), (0, 0, Cancelled)] ?u ?s3 = {#''r1''#}"
    using loop by blast
  have "session_rounds demo_codec channel_ws demo_config demo_rounds ?new = Some (Break s1)"
    using flush l(1,2) by (simp add: demo_rounds_def session_round_def Let_def s0_def[symmetric] s2_def[symmetric]
        split: loop_outcome.splits)
  moreover have rr: "rounds_received demo_codec channel_ws demo_config demo_rounds ?new = {#''r1''#}"
    using flush l by (simp add: demo_rounds_def round_received_def session_round_def Let_def s0_def[symmetric]
        s2_def[symmetric] split: loop_outcome.splits)
  ultimately show ?thesis by blast
qed

section \<open>Properties\<close>

text \<open>
  C2: Every command request gets exactly one result. When a session ends, the ids of the results it
  reported are exactly, with multiplicity, the ids of the requests it took from its command channel
  together with those it found there while draining it, whatever the charger, the Central System,
  the timers and the reconnections did. A result is reported when it is handed to the event channel, which may refuse it
  when it is full or closed.
\<close>

theorem every_command_answered_once:
  assumes "run_session E ws cfg cp mtx m rounds stop waiting = Some (Break s')" "offered mtx = []"
  shows "reported s' = rounds_received E ws cfg rounds (session_new cfg cp mtx m) + mset (map req_id waiting)"
proof -
  obtain s where s: "session_rounds E ws cfg rounds (session_new cfg cp mtx m) = Some (Break s)"
    "s' = teardown E stop waiting s"
    using assms(1) by (auto simp: run_session_def split: option.splits step_result.splits)
  have "accounted (session_new cfg cp mtx m) = {#}"
    using assms(2) by (simp add: accounted_def reported_def reported_by_def session_new_def with_charge_point_id_def
        held_def queue_new_def)
  then show ?thesis using accounted_rounds[OF s(1)] teardown_reports_all[of E stop waiting s] s(2) by simp
qed

theorem every_command_answered_once_witness:
  "\<exists>s'. run_session demo_codec channel_ws demo_config ''CP1'' (channel_new 64) manager_new demo_rounds 0
       [demo_request\<lparr>req_id := ''r2''\<rparr>] = Some (Break s') \<and> reported s' = {#''r1'', ''r2''#}"
proof -
  let ?w = "[demo_request\<lparr>req_id := ''r2''\<rparr>]"
  obtain s1 where s1: "session_rounds demo_codec channel_ws demo_config demo_rounds
       (session_new demo_config ''CP1'' (channel_new 64) manager_new) = Some (Break s1)"
    and rr: "rounds_received demo_codec channel_ws demo_config demo_rounds
       (session_new demo_config ''CP1'' (channel_new 64) manager_new) = {#''r1''#}"
    using demo_session by blast
  then have r: "run_session demo_codec channel_ws demo_config ''CP1'' (channel_new 64) manager_new demo_rounds 0 ?w
      = Some (Break (teardown demo_codec 0 ?w s1))"
    by (simp add: run_session_def)
  have "reported (teardown demo_codec 0 ?w s1) = {#''r1'', ''r2''#}"
    using every_command_answered_once[OF r] rr by (simp add: channel_new_def add_mset_commute)
  with r show ?thesis by blast
qed

text \<open>
  C3: The relay to the Central System is transparent. Over any run of the forwarding loop the texts
  sent upstream are, byte for byte and in order, the charger's texts except its replies to the
  proxy's own Calls; only when the connection breaks is the last one missing, and then it is in
  the buffer unless it was not an OCPP frame.
\<close>

theorem relay_upstream:
  assumes "outlet ws sent" "forward_loop E ws cfg evs u s = (oc, u', s')"
  shows "texts_up (sent u') = texts_up (sent u) @ loop_due_up E ws cfg evs u s
    \<or> oc = Some UpstreamLost \<and> (\<exists>t. texts_up (sent u') @ [t] = texts_up (sent u) @ loop_due_up E ws cfg evs u s
        \<and> kept_or_malformed E t s')"
  by (rule loop_up[OF assms])

lemma demo_heartbeat:
  "parse demo_codec 0 ''hb'' = Inr \<lparr>raw = ''hb'', message_type = Call ''Heartbeat'', unique_id = ''1'', received_at = 0\<rparr>"
  by (simp add: parse_def frame_message_type_def demo_codec_def table_ext_def)

lemma demo_heartbeat_forwarded:
  "\<exists>u' s'. forward_loop demo_codec channel_ws demo_config [(0, 0, FromCharger (CText ''hb''))] (channel_new 8)
       (session_new demo_config ''CP1'' (channel_new 64) manager_new) = (None, u', s')"
  by (simp add: loop_step_def from_charger_def charger_text_def demo_heartbeat is_call_def forward_charger_frame_def
      forward_upstream_def forward_message_def upstream_sink_send_def channel_ws_def channel_send_def channel_new_def
      queue_is_empty_def session_new_def queue_new_def Let_def case_prod_unfold)

theorem relay_upstream_witness:
  "\<exists>u' s'. forward_loop demo_codec channel_ws demo_config [(0, 0, FromCharger (CText ''hb''))] (channel_new 8)
       (session_new demo_config ''CP1'' (channel_new 64) manager_new) = (None, u', s') \<and> texts_up (passed u') = [''hb'']"
proof -
  let ?s = "session_new demo_config ''CP1'' (channel_new 64) manager_new"
  let ?ev = "[(0, 0, FromCharger (CText ''hb''))] :: timed_event list"
  obtain u' s' where l: "forward_loop demo_codec channel_ws demo_config ?ev (channel_new 8) ?s = (None, u', s')"
    using demo_heartbeat_forwarded by blast
  have "loop_due_up demo_codec channel_ws demo_config ?ev (channel_new 8) ?s = [''hb'']"
    by (simp add: due_up_def reply_to_proxy_def demo_heartbeat is_call_def split: prod.splits option.splits)
  then have "texts_up (passed u') = [''hb'']"
    using relay_upstream[OF channel_ws_outlet l] by (simp add: channel_new_def texts_up_def)
  with l show ?thesis by blast
qed

text \<open>
  C4: The relay to the charger is transparent, and proxy Calls wait for their turn. Every step sends
  the charger exactly the Central System's text of that step, byte for byte, or, when there is
  none, at most one Call of the proxy. That Call carries a proxy id and a command that was queued or has just
  arrived; a Call of the proxy that was outstanding before the step has been settled in it, its result (an answer or a
  timeout) handed to the event channel, so an unanswered Call is never overtaken; and the tracker holds no Call of the Central
  System younger than ten seconds (it holds one entry per unique id, so a Call of the charger with the
  same id hides the Central System's). A text is withheld only when the charger's connection is gone.
\<close>

theorem relay_downstream:
  assumes "loop_step E ws cfg now inst ev u s = (oc, u', s')"
  shows "texts_down (charger_tx s') = texts_down (charger_tx s) @ due_down ev
    \<or> texts_down (charger_tx s') = texts_down (charger_tx s) \<and> oc = Some ChargerGone
    \<or> due_down ev = []
      \<and> (\<exists>fl. in_flight (local s') = Some fl \<and> fl_request fl \<in> set (queued (local s)) \<union> arrival ev
           \<and> (\<forall>before. in_flight (local s) = Some before \<longrightarrow> reported s + {#req_id (fl_request before)#} \<subseteq># reported s')
           \<and> texts_down (charger_tx s') = texts_down (charger_tx s) @ [prep_raw (fl_prepared fl)]
           \<and> starts_with UNIQUE_ID_PREFIX (prep_unique_id (fl_prepared fl))
           \<and> \<not> has_recent_pending_call now CentralToCharger CENTRAL_CALL_GRACE (forwarder s'))"
  using loop_step_down[OF assms] unfolding call_out_def line_clear_def vacated_def by blast

theorem relay_downstream_witness:
  "\<exists>u' s'. loop_step demo_codec channel_ws demo_config 0 0 (FromCentral (UText ''hbr'')) (channel_new 8)
       (session_new demo_config ''CP1'' (channel_new 64) manager_new) = (None, u', s')
     \<and> texts_down (charger_tx s') = [''hbr'']"
proof -
  let ?s = "session_new demo_config ''CP1'' (channel_new 64) manager_new"
  obtain u' s' where l: "loop_step demo_codec channel_ws demo_config 0 0 (FromCentral (UText ''hbr'')) (channel_new 8) ?s = (None, u', s')"
    by (simp add: loop_step_def from_central_def central_text_def parse_def frame_message_type_def demo_codec_def
        table_ext_def forward_downstream_def forward_message_def charger_sink_send_def channel_send_def channel_new_def
        session_new_def Let_def case_prod_unfold)
  moreover have "texts_down (charger_tx ?s) = []" by (simp add: texts_down_def session_new_def channel_new_def)
  ultimately have "texts_down (charger_tx s') = [''hbr'']"
    using relay_downstream[OF l] by (simp add: due_down_def)
  with l show ?thesis by blast
qed

text \<open>
  The invariant of a session. From its start, through every round, both buffers stay within
  their bound, the tracker holds one entry per id, the command queue stays within its capacity with
  at most one limit command, and the shared state's notifications form a gap-free history.
\<close>

lemma session_invariant:
  assumes "history_ok m" "session_rounds E ws cfg rounds (session_new cfg cp mtx m) = Some r"
  shows "queue_ok (local (result_state r)) \<and> forwarder_ok (forwarder (result_state r))
    \<and> history_ok (manager (result_state r))"
  using session_ok_rounds[OF session_ok_new[OF assms(1)] assms(2)] by (simp add: session_ok_def)

text \<open>
  C15: Buffered frames are replayed before anything new. After a reconnection whose replay succeeds, the
  Central System receives first the buffered frames in order and then the charger's new texts, the
  buffer is empty and the number counted as forwarded is the number replayed.
\<close>

theorem replay_before_new:
  assumes "outlet ws sent" "flush_upstream (upstream_sink_send ws) u (forwarder s) = (Inr n, u1, fw)"
    and "s1 = record_replayed n (s\<lparr>forwarder := fw\<rparr>)"
    and "forward_loop E ws cfg evs u1 s1 = (oc, u2, s2)" "oc \<noteq> Some UpstreamLost"
  shows "texts_up (sent u2) = texts_up (sent u) @ map raw (upstream_buffer (forwarder s)) @ loop_due_up E ws cfg evs u1 s1
    \<and> upstream_buffer (forwarder s1) = [] \<and> n = length (upstream_buffer (forwarder s))"
proof -
  let ?f = "flush_loop (upstream_sink_send ws) raw (upstream_buffer (forwarder s)) u"
  have none: "fst (fst ?f) = None" and n: "n = length (upstream_buffer (forwarder s))"
    and u1: "u1 = snd ?f" and fw: "fw = (forwarder s)\<lparr>upstream_buffer := snd (fst ?f)\<rparr>"
    using assms(2) by (auto simp: flush_upstream_unfold split: option.splits)
  have "texts_up (sent u1) = texts_up (sent u) @ map raw (upstream_buffer (forwarder s))"
    using outlet.flush_all[OF upstream_sink_outlet[OF assms(1)] none] u1 by simp
  moreover have "upstream_buffer (forwarder s1) = []"
    using flush_loop_ok[OF none] fw by (simp add: assms(3) record_replayed_def)
  ultimately show ?thesis using loop_up[OF assms(1,4)] assms(5) n by auto
qed

definition demo_frame :: ocpp_frame where
  "demo_frame = \<lparr>raw = ''old'', message_type = CallResult, unique_id = ''0'', received_at = 0\<rparr>"

theorem replay_before_new_witness:
  "\<exists>n u1 fw oc u2 s2. let s = (session_new demo_config ''CP1'' (channel_new 64) manager_new);
        s0 = s\<lparr>forwarder := buffer_upstream demo_frame (forwarder s)\<rparr>
     in flush_upstream (upstream_sink_send channel_ws) (channel_new 8) (forwarder s0) = (Inr n, u1, fw)
      \<and> forward_loop demo_codec channel_ws demo_config [] u1 (record_replayed n (s0\<lparr>forwarder := fw\<rparr>)) = (oc, u2, s2)
      \<and> texts_up (passed u2) = [''old'']"
proof -
  let ?s = "session_new demo_config ''CP1'' (channel_new 64) manager_new"
  let ?s0 = "?s\<lparr>forwarder := buffer_upstream demo_frame (forwarder ?s)\<rparr>"
  have b: "upstream_buffer (forwarder ?s0) = [demo_frame]"
    by (simp add: buffer_upstream_def session_new_def with_charge_point_id_def)
  obtain n u1 fw where f: "flush_upstream (upstream_sink_send channel_ws) (channel_new 8) (forwarder ?s0) = (Inr n, u1, fw)"
    using b by (simp add: flush_upstream_unfold upstream_sink_send_def channel_ws_def channel_send_def channel_new_def Let_def)
  have "texts_up (passed u1) = [''old'']"
    using replay_before_new[OF channel_ws_outlet f refl, of demo_codec demo_config "[]" None u1] b
    by (simp add: demo_frame_def channel_new_def texts_up_def)
  with f show ?thesis by (auto simp: Let_def)
qed










text \<open>
  A text the charger sends while the upstream connection is down is discarded: the round ends in
  exactly the state in which it would have ended without the text. It is not buffered for replay
  and not counted as dropped.
\<close>

lemma text_discarded_while_down:
  "session_round E ws cfg now inst (AttemptFailed (WakeCharger (CText t))) s =
   session_round E ws cfg now inst (AttemptFailed SleepDone) s"
proof -
  have same: "wake_result (WakeCharger (CText t)) = wake_result SleepDone"
    by (simp add: wake_result_def fun_eq_iff)
  show ?thesis unfolding session_round_def Let_def round.case same ..
qed

text \<open>
  Every session that ends reports the shared upstream state as disconnected, also when another
  session has meanwhile set it to connected; the health endpoint then answers 503 while a charger is
  connected, although a session may be forwarding normally.
\<close>

lemma teardown_disconnects_shared_state:
  "upstream_state (manager (teardown E now waiting s)) = Disconnected
   \<and> (listener_bound (manager s) \<and> downstream_state (manager s) = Connected
        \<longrightarrow> fst (health_handler (manager (teardown E now waiting s)) t) = 503)"
proof -
  have sus: "upstream_state (manager (set_upstream_state now Disconnected x)) = Disconnected"
    "downstream_state (manager (set_upstream_state now Disconnected x)) = downstream_state (manager x)"
    "listener_bound (manager (set_upstream_state now Disconnected x)) = listener_bound (manager x)" for x
    by (simp_all add: set_upstream_state_def publish_status_def Let_def)
  have cd: "downstream_state (manager (count_dropped x)) = downstream_state (manager x)"
    "listener_bound (manager (count_dropped x)) = listener_bound (manager x)" for x
    by (simp_all add: count_dropped_def Let_def)
  show ?thesis
    by (simp add: health_503_iff teardown_def Let_def case_prod_unfold sus cd split: option.split)
qed

end
