(* ===== verification/Snapshot.thy ===== *)
theory Snapshot
  imports Commands "HOL-Library.AList"
begin

text \<open>
  \<open>src/mqtt.rs\<close>, the retained charge point snapshot (\<open>ChargePointState\<close>), and
  \<open>src/snapshot_store.rs\<close>, its file. The lemmas show how a transaction moves through the snapshot,
  that a snapshot changes only when its content does, that its JSON form reads back, and that a
  save interrupted anywhere leaves either the old file or the new one.
\<close>

section \<open>The snapshot\<close>

record charge_point_state =
  connector_status :: "string option"
  error_code :: "string option"
  transaction_id :: "int option"
  id_tag :: "string option"
  meter_start_wh :: "int option"
  last_meter_stop_wh :: "int option"
  last_session_energy_wh :: "int option"
  last_transaction_id :: "int option"
  last_stop_reason :: "string option"
  last_stop_time :: "string option"
  current_limit_a :: "f64 option"
  current_limit_status :: "string option"
  current_limit_updated :: "string option"
  last_updated :: "string option"

definition state_default :: charge_point_state where
  "state_default =
     \<lparr>connector_status = None, error_code = None, transaction_id = None, id_tag = None,
      meter_start_wh = None, last_meter_stop_wh = None, last_session_energy_wh = None,
      last_transaction_id = None, last_stop_reason = None, last_stop_time = None,
      current_limit_a = None, current_limit_status = None, current_limit_updated = None,
      last_updated = None\<rparr>"

text \<open>The derived \<open>PartialEq\<close> compares the limit as doubles.\<close>

definition opt_f64_eq :: "f64 option \<Rightarrow> f64 option \<Rightarrow> bool" where
  "opt_f64_eq a b = (case (a, b) of (None, None) \<Rightarrow> True | (Some x, Some y) \<Rightarrow> f64_eq x y | _ \<Rightarrow> False)"

definition state_eq :: "charge_point_state \<Rightarrow> charge_point_state \<Rightarrow> bool" where
  "state_eq s t \<longleftrightarrow>
     opt_f64_eq (current_limit_a s) (current_limit_a t)
     \<and> s\<lparr>current_limit_a := None\<rparr> = t\<lparr>current_limit_a := None\<rparr>"

text \<open>\<open>i64\<close> subtraction of a release build.\<close>

definition wrap_i64 :: "int \<Rightarrow> int" where
  "wrap_i64 i = (i + 2 ^ 63) mod 2 ^ 64 - 2 ^ 63"

definition ocpp_args :: "ext \<Rightarrow> string \<Rightarrow> ocpp_message_type \<Rightarrow> (string \<times> json) list option" where
  "ocpp_args E text mt =
     (case from_str E text of
        Inl _ \<Rightarrow> None
      | Inr v \<Rightarrow> Option.bind (as_array v) (\<lambda>arr.
          let index = (case mt of Call _ \<Rightarrow> 3 | _ \<Rightarrow> 2)
          in if index < length arr then as_object (arr ! index) else None))"

definition str_arg :: "(string \<times> json) list \<Rightarrow> string \<Rightarrow> string option" where
  "str_arg args k = Option.bind (map_of args k) as_str"

definition i64_arg :: "(string \<times> json) list \<Rightarrow> string \<Rightarrow> int option" where
  "i64_arg args k = Option.bind (map_of args k) as_i64"

text \<open>The four arms of the \<open>match\<close> in \<open>apply\<close>.\<close>

definition fold_status :: "(string \<times> json) list \<Rightarrow> charge_point_state \<Rightarrow> charge_point_state" where
  "fold_status args s =
     s\<lparr>connector_status := (case str_arg args ''status'' of None \<Rightarrow> connector_status s | Some v \<Rightarrow> Some v),
       error_code := (case str_arg args ''errorCode'' of None \<Rightarrow> error_code s | Some v \<Rightarrow> Some v)\<rparr>"

definition fold_start :: "(string \<times> json) list \<Rightarrow> charge_point_state \<Rightarrow> charge_point_state" where
  "fold_start args s = s\<lparr>meter_start_wh := i64_arg args ''meterStart'', id_tag := str_arg args ''idTag''\<rparr>"

definition fold_started :: "(string \<times> json) list \<Rightarrow> charge_point_state \<Rightarrow> charge_point_state" where
  "fold_started args s = s\<lparr>transaction_id := i64_arg args ''transactionId''\<rparr>"

definition session_energy :: "int option \<Rightarrow> int option \<Rightarrow> int option" where
  "session_energy meter_stop meter_start =
     (case (meter_stop, meter_start) of (Some stop, Some start) \<Rightarrow> Some (wrap_i64 (stop - start)) | _ \<Rightarrow> None)"

definition fold_stop :: "(string \<times> json) list \<Rightarrow> charge_point_state \<Rightarrow> charge_point_state" where
  "fold_stop args s =
     (let meter_stop = i64_arg args ''meterStop''
      in s\<lparr>last_meter_stop_wh := meter_stop,
           last_session_energy_wh := session_energy meter_stop (meter_start_wh s),
           last_transaction_id :=
             (case i64_arg args ''transactionId'' of None \<Rightarrow> transaction_id s | Some i \<Rightarrow> Some i),
           last_stop_reason := str_arg args ''reason'',
           last_stop_time := str_arg args ''timestamp'',
           transaction_id := None, id_tag := None, meter_start_wh := None\<rparr>)"

text \<open>\<open>None\<close> is its \<open>return false\<close>.\<close>

definition fold_message ::
    "string \<Rightarrow> ocpp_message_type \<Rightarrow> (string \<times> json) list \<Rightarrow> charge_point_state \<Rightarrow> charge_point_state option" where
  "fold_message act mt args s =
     (let is_call = (case mt of Call _ \<Rightarrow> True | _ \<Rightarrow> False)
      in if act = ''StatusNotification'' \<and> is_call then Some (fold_status args s)
         else if act = ''StartTransaction'' \<and> is_call then Some (fold_start args s)
         else if act = ''StartTransaction'' \<and> mt = CallResult then Some (fold_started args s)
         else if act = ''StopTransaction'' \<and> is_call then Some (fold_stop args s)
         else None)"

definition apply_message ::
    "ext \<Rightarrow> utc \<Rightarrow> string \<Rightarrow> ocpp_message_type \<Rightarrow> string \<Rightarrow> charge_point_state \<Rightarrow> bool \<times> charge_point_state" where
  "apply_message E now act mt text s =
     (case ocpp_args E text mt of
        None \<Rightarrow> (False, s)
      | Some args \<Rightarrow>
         (case fold_message act mt args s of
            None \<Rightarrow> (False, s)
          | Some s' \<Rightarrow>
             if state_eq s' s then (False, s') else (True, s'\<lparr>last_updated := Some (rfc3339 E now)\<rparr>)))"

definition apply_command_result ::
    "ext \<Rightarrow> utc \<Rightarrow> command_result \<Rightarrow> charge_point_state \<Rightarrow> bool \<times> charge_point_state" where
  "apply_command_result E now r s =
     (if \<not> is_limit_result r then (False, s)
      else
        (let s1 = s\<lparr>current_limit_status := Some (status_str (res_status r))\<rparr>;
             s2 = (if res_status r = Accepted
                   then s1\<lparr>current_limit_a :=
                          (if res_action r = Some ''SetChargingProfile'' then applied_limit_a r else None)\<rparr>
                   else s1)
         in if state_eq s2 s then (False, s2)
            else (True, s2\<lparr>current_limit_updated := Some (rfc3339 E now),
                           last_updated := Some (rfc3339 E now)\<rparr>)))"

section \<open>JSON form\<close>

definition state_json :: "charge_point_state \<Rightarrow> json" where
  "state_json s =
     (let str = json_of_opt Str; num = json_of_opt json_int
      in Obj [(''connector_status'', str (connector_status s)), (''error_code'', str (error_code s)),
              (''transaction_id'', num (transaction_id s)), (''id_tag'', str (id_tag s)),
              (''meter_start_wh'', num (meter_start_wh s)),
              (''last_meter_stop_wh'', num (last_meter_stop_wh s)),
              (''last_session_energy_wh'', num (last_session_energy_wh s)),
              (''last_transaction_id'', num (last_transaction_id s)),
              (''last_stop_reason'', str (last_stop_reason s)),
              (''last_stop_time'', str (last_stop_time s)),
              (''current_limit_a'', json_of_opt json_f64 (current_limit_a s)),
              (''current_limit_status'', str (current_limit_status s)),
              (''current_limit_updated'', str (current_limit_updated s)),
              (''last_updated'', str (last_updated s))])"

text \<open>An optional field of a derived \<open>Deserialize\<close>: absent and \<open>null\<close> are both \<open>None\<close>.\<close>

definition de_opt :: "(json \<Rightarrow> 'a option) \<Rightarrow> json option \<Rightarrow> 'a option option" where
  "de_opt de v = (case v of None \<Rightarrow> Some None | Some Null \<Rightarrow> Some None | Some w \<Rightarrow> map_option Some (de w))"

definition state_of_json :: "json \<Rightarrow> charge_point_state option" where
  "state_of_json v =
     Option.bind (as_object v) (\<lambda>kvs.
     let str = (\<lambda>k. de_opt as_str (map_of kvs k)); num = (\<lambda>k. de_opt as_i64 (map_of kvs k)) in
     Option.bind (str ''connector_status'') (\<lambda>a. Option.bind (str ''error_code'') (\<lambda>b.
     Option.bind (num ''transaction_id'') (\<lambda>c. Option.bind (str ''id_tag'') (\<lambda>d.
     Option.bind (num ''meter_start_wh'') (\<lambda>e. Option.bind (num ''last_meter_stop_wh'') (\<lambda>f.
     Option.bind (num ''last_session_energy_wh'') (\<lambda>g. Option.bind (num ''last_transaction_id'') (\<lambda>h.
     Option.bind (str ''last_stop_reason'') (\<lambda>i. Option.bind (str ''last_stop_time'') (\<lambda>j.
     Option.bind (de_opt de_f64 (map_of kvs ''current_limit_a'')) (\<lambda>k.
     Option.bind (str ''current_limit_status'') (\<lambda>l. Option.bind (str ''current_limit_updated'') (\<lambda>m.
     Option.bind (str ''last_updated'') (\<lambda>n.
       Some \<lparr>connector_status = a, error_code = b, transaction_id = c, id_tag = d, meter_start_wh = e,
             last_meter_stop_wh = f, last_session_energy_wh = g, last_transaction_id = h,
             last_stop_reason = i, last_stop_time = j, current_limit_a = k, current_limit_status = l,
             current_limit_updated = m, last_updated = n\<rparr>)))))))))))))))"

section \<open>Facts about the snapshot\<close>

lemma wrap_i64_id: "- (2 ^ 63) \<le> i \<Longrightarrow> i < 2 ^ 63 \<Longrightarrow> wrap_i64 i = i"
  by (simp add: wrap_i64_def)

lemma state_eq_refl: "(\<forall>a. current_limit_a s = Some a \<longrightarrow> f64_eq a a) \<Longrightarrow> state_eq s s"
  by (simp add: state_eq_def opt_f64_eq_def split: option.splits)

lemma state_eqD:
  "state_eq s t \<Longrightarrow> opt_f64_eq (current_limit_a s) (current_limit_a t) \<and> current_limit_status s = current_limit_status t"
  by (auto simp: state_eq_def dest: arg_cong[where f = current_limit_status])

definition i64_ok :: "int option \<Rightarrow> bool" where
  "i64_ok x \<longleftrightarrow> (case x of None \<Rightarrow> True | Some i \<Rightarrow> - (2 ^ 63) \<le> i \<and> i < 2 ^ 63)"

text \<open>A snapshot whose integers are 64-bit ones and whose limit satisfies \<open>P\<close>.\<close>

definition state_fits :: "(f64 \<Rightarrow> bool) \<Rightarrow> charge_point_state \<Rightarrow> bool" where
  "state_fits P s \<longleftrightarrow>
     i64_ok (transaction_id s) \<and> i64_ok (meter_start_wh s) \<and> i64_ok (last_meter_stop_wh s)
     \<and> i64_ok (last_session_energy_wh s) \<and> i64_ok (last_transaction_id s)
     \<and> (case current_limit_a s of None \<Rightarrow> True | Some a \<Rightarrow> P a)"

definition state_safe :: "charge_point_state \<Rightarrow> bool" where
  "state_safe s \<longleftrightarrow> state_fits is_finite s"

lemma de_opt_str: "de_opt as_str (Some (json_of_opt Str x)) = Some x"
  by (cases x) (auto simp: de_opt_def json_of_opt_def)

lemma de_opt_int: "i64_ok x \<Longrightarrow> de_opt as_i64 (Some (json_of_opt json_int x)) = Some x"
  by (cases x) (auto simp: de_opt_def json_of_opt_def json_int_def i64_ok_def nat_less_iff)

lemma de_opt_f64:
  "(case x of None \<Rightarrow> True | Some a \<Rightarrow> is_finite a) \<Longrightarrow> de_opt de_f64 (Some (json_of_opt json_f64 x)) = Some x"
  by (cases x) (auto simp: de_opt_def json_of_opt_def json_f64_def)

lemma state_round_trip: "state_safe s \<Longrightarrow> state_of_json (state_json s) = Some s"
  by (simp add: state_of_json_def state_json_def state_safe_def state_fits_def Let_def de_opt_str de_opt_int de_opt_f64)

text \<open>Integers read from a message are in range, so a snapshot stays safe.\<close>

lemma as_i64_range: "as_i64 v = Some i \<Longrightarrow> - (2 ^ 63) \<le> i \<and> i < 2 ^ 63"
  by (cases v rule: as_i64.cases) (auto split: if_splits)

lemma i64_arg_ok: "i64_ok (i64_arg args k)"
  using as_i64_range by (fastforce simp: i64_arg_def i64_ok_def split: option.splits bind_splits)

lemma i64_ok_wrap: "i64_ok (Some (wrap_i64 i))"
  using pos_mod_bound[of "2 ^ 64" "i + 2 ^ 63"] pos_mod_sign[of "2 ^ 64" "i + 2 ^ 63"]
  by (simp add: i64_ok_def wrap_i64_def)

lemma state_fits_default: "state_fits P state_default"
  by (simp add: state_fits_def state_default_def i64_ok_def)

lemma session_energy_ok: "i64_ok (session_energy a b)"
  using i64_ok_wrap by (auto simp: session_energy_def i64_ok_def[of None] split: option.splits)

lemma state_fits_arms:
  assumes "state_fits P s"
  shows "state_fits P (fold_status args s)" "state_fits P (fold_start args s)"
    "state_fits P (fold_started args s)" "state_fits P (fold_stop args s)"
proof -
  have none: "i64_ok None" by (simp add: i64_ok_def)
  have "i64_ok (case i64_arg args ''transactionId'' of None \<Rightarrow> transaction_id s | Some i \<Rightarrow> Some i)"
    using assms i64_arg_ok[of args "''transactionId''"] by (auto simp: state_fits_def split: option.splits)
  with assms none show "state_fits P (fold_stop args s)"
    by (simp add: state_fits_def fold_stop_def Let_def i64_arg_ok session_energy_ok)
qed (use assms in \<open>simp_all add: state_fits_def fold_status_def fold_start_def fold_started_def i64_arg_ok\<close>)

lemma state_fits_fold:
  "state_fits P s \<Longrightarrow> fold_message act mt args s = Some s' \<Longrightarrow> state_fits P s'"
  by (auto simp: fold_message_def Let_def state_fits_arms split: if_splits)

lemma state_fits_apply: "state_fits P s \<Longrightarrow> state_fits P (snd (apply_message E now act mt text s))"
  using state_fits_fold[of P s act mt]
  by (auto simp: apply_message_def state_fits_def split: option.splits)

lemma state_fits_apply_result:
  "state_fits P s \<Longrightarrow> (\<forall>a. applied_limit_a r = Some a \<longrightarrow> P a)
     \<Longrightarrow> state_fits P (snd (apply_command_result E now r s))"
  by (auto simp: apply_command_result_def state_fits_def Let_def split: option.splits)

section \<open>src/snapshot_store.rs\<close>

text \<open>
  A snapshot map is an association list with distinct keys; the order in which \<open>HashMap\<close> iterates
  is the order of the list.
\<close>

type_synonym snapshot_map = "(string \<times> charge_point_state) list"

definition map_json :: "snapshot_map \<Rightarrow> json" where
  "map_json m = Obj (map (\<lambda>(k, s). (k, state_json s)) m)"

fun states_of_fields :: "(string \<times> json) list \<Rightarrow> snapshot_map option" where
  "states_of_fields [] = Some []"
| "states_of_fields ((k, v) # kvs) =
     Option.bind (state_of_json v) (\<lambda>s. map_option (AList.update k s) (states_of_fields kvs))"

definition map_of_json :: "json \<Rightarrow> snapshot_map option" where
  "map_of_json v = Option.bind (as_object v) states_of_fields"

text \<open>
  The file system: the contents of every file, and the outcomes of the next operations. An operation
  whose outcome is \<open>Some e\<close> fails with \<open>e\<close>; a failing \<open>write_all\<close> may have written any prefix.
\<close>

record disk =
  files :: "string \<rightharpoonup> string"
  faults :: "(string \<times> nat) option list"

datatype fs_op = CreateDirAll string | CreateFile string | WriteAll string string | SyncAll string | Rename string string

fun fs_effect :: "fs_op \<Rightarrow> (string \<rightharpoonup> string) \<Rightarrow> (string \<rightharpoonup> string)" where
  "fs_effect (CreateDirAll d) m = m"
| "fs_effect (CreateFile p) m = m(p \<mapsto> [])"
| "fs_effect (WriteAll p bs) m = m(p \<mapsto> (case m p of None \<Rightarrow> [] | Some old \<Rightarrow> old) @ bs)"
| "fs_effect (SyncAll p) m = m"
| "fs_effect (Rename p p') m = (case m p of None \<Rightarrow> m | Some bs \<Rightarrow> m(p := None, p' \<mapsto> bs))"

fun fs_partial :: "nat \<Rightarrow> fs_op \<Rightarrow> (string \<rightharpoonup> string) \<Rightarrow> (string \<rightharpoonup> string)" where
  "fs_partial n (WriteAll p bs) m = fs_effect (WriteAll p (take n bs)) m"
| "fs_partial n _ m = m"

definition fs_do :: "fs_op \<Rightarrow> disk \<Rightarrow> (string + unit) \<times> disk" where
  "fs_do oper d =
     (case faults d of
        Some (e, n) # fs \<Rightarrow> (Inl e, d\<lparr>files := fs_partial n oper (files d), faults := fs\<rparr>)
      | None # fs \<Rightarrow> (Inr (), d\<lparr>files := fs_effect oper (files d), faults := fs\<rparr>)
      | [] \<Rightarrow> (Inr (), d\<lparr>files := fs_effect oper (files d)\<rparr>))"

text \<open>A sequence of operations joined by \<open>?\<close>.\<close>

fun fs_seq :: "fs_op list \<Rightarrow> disk \<Rightarrow> (string + unit) \<times> disk" where
  "fs_seq [] d = (Inr (), d)"
| "fs_seq (x # xs) d =
     (case fs_do x d of (Inl e, d') \<Rightarrow> (Inl e, d') | (Inr _, d') \<Rightarrow> fs_seq xs d')"

text \<open>
  \<open>Path::parent\<close> and \<open>Path::with_extension\<close> on a path whose last component is a file name: the
  extension is what follows the last dot that is not the first character of the name.
\<close>

definition file_name :: "string \<Rightarrow> string" where
  "file_name p = rev (takeWhile (\<lambda>c. c \<noteq> CHR ''/'') (rev p))"

definition parent :: "string \<Rightarrow> string" where
  "parent p = (case dropWhile (\<lambda>c. c \<noteq> CHR ''/'') (rev p) of
     [] \<Rightarrow> [] | [slash] \<Rightarrow> [slash] | slash # rest \<Rightarrow> rev rest)"

definition file_stem :: "string \<Rightarrow> string" where
  "file_stem nm =
     (let before = rev (drop 1 (dropWhile (\<lambda>c. c \<noteq> CHR ''.'') (rev nm)))
      in if CHR ''.'' \<notin> set nm \<or> before = [] then nm else before)"

definition with_extension :: "string \<Rightarrow> string \<Rightarrow> string" where
  "with_extension ex p =
     (let nm = file_name p in take (length p - length nm) p @ file_stem nm @ ''.'' @ ex)"

record snapshot_store =
  store_path :: "string option"

text \<open>\<open>fs::read\<close>; a missing file and any other error are one branch in \<open>load\<close>, but for the log line.\<close>

definition fs_read :: "string \<Rightarrow> disk \<Rightarrow> string option" where
  "fs_read path d = (case faults d of Some _ # _ \<Rightarrow> None | _ \<Rightarrow> files d path)"

definition store_load :: "ext \<Rightarrow> snapshot_store \<Rightarrow> disk \<Rightarrow> snapshot_map" where
  "store_load E st d =
     (case store_path st of
        None \<Rightarrow> []
      | Some path \<Rightarrow>
         (case fs_read path d of
            None \<Rightarrow> []
          | Some bytes \<Rightarrow>
             (case from_str E bytes of
                Inl _ \<Rightarrow> []
              | Inr v \<Rightarrow> (case map_of_json v of None \<Rightarrow> [] | Some m \<Rightarrow> m))))"

definition save_ops :: "string \<Rightarrow> string \<Rightarrow> fs_op list" where
  "save_ops path bytes =
     (let tmp = with_extension ''json.tmp'' path
      in [CreateFile tmp, WriteAll tmp bytes, SyncAll tmp, Rename tmp path])"

definition save_inner :: "ext \<Rightarrow> string \<Rightarrow> snapshot_map \<Rightarrow> disk \<Rightarrow> (string + unit) \<times> disk" where
  "save_inner E path m d =
     (case fs_seq (if parent path \<noteq> [] then [CreateDirAll (parent path)] else []) d of
        (Inl e, d') \<Rightarrow> (Inl e, d')
      | (Inr _, d') \<Rightarrow>
         (case to_str E (map_json m) of
            Inl e \<Rightarrow> (Inl e, d')
          | Inr bytes \<Rightarrow> fs_seq (save_ops path bytes) d'))"

definition store_save :: "ext \<Rightarrow> snapshot_store \<Rightarrow> snapshot_map \<Rightarrow> disk \<Rightarrow> disk" where
  "store_save E st m d =
     (case store_path st of None \<Rightarrow> d | Some path \<Rightarrow> snd (save_inner E path m d))"

section \<open>Facts about the store\<close>

lemma states_of_fields_map:
  assumes "\<forall>(k, s) \<in> set m. state_safe s"
  shows "states_of_fields (map (\<lambda>(k, s). (k, state_json s)) m) = Some (foldr (\<lambda>(k, s). AList.update k s) m [])"
  using assms by (induction m) (auto simp: state_round_trip)

lemma map_of_foldr_update: "map_of (foldr (\<lambda>(k, s). AList.update k s) m []) = map_of m"
  by (induction m) (auto simp: update_conv' fun_eq_iff)

lemma map_json_round_trip:
  assumes "\<forall>(k, s) \<in> set m. state_safe s"
  shows "\<exists>m'. map_of_json (map_json m) = Some m' \<and> map_of m' = map_of m"
  using states_of_fields_map[OF assms] map_of_foldr_update[of m]
  by (auto simp: map_of_json_def map_json_def)

lemma split_at_last:
  assumes "c \<in> set xs"
  shows "xs = rev (drop 1 (dropWhile (\<lambda>x. x \<noteq> c) (rev xs))) @ c # rev (takeWhile (\<lambda>x. x \<noteq> c) (rev xs))"
proof -
  have "dropWhile (\<lambda>x. x \<noteq> c) (rev xs) \<noteq> []" using assms by (simp add: dropWhile_eq_Nil_conv)
  then obtain y ys where d: "dropWhile (\<lambda>x. x \<noteq> c) (rev xs) = y # ys" by (cases "dropWhile (\<lambda>x. x \<noteq> c) (rev xs)") auto
  then have "y = c" using hd_dropWhile[of "\<lambda>x. x \<noteq> c" "rev xs"] by simp
  moreover have "rev xs = takeWhile (\<lambda>x. x \<noteq> c) (rev xs) @ y # ys"
    using takeWhile_dropWhile_id[of "\<lambda>x. x \<noteq> c" "rev xs"] d by simp
  ultimately have "rev (rev xs) = rev (takeWhile (\<lambda>x. x \<noteq> c) (rev xs) @ c # ys)" by simp
  then show ?thesis using d by simp
qed

lemma file_stem_dotted: "CHR ''.'' \<in> set ex \<Longrightarrow> file_stem nm @ ''.'' @ ex \<noteq> nm"
proof
  assume dot: "CHR ''.'' \<in> set ex" and eq: "file_stem nm @ ''.'' @ ex = nm"
  let ?after = "rev (takeWhile (\<lambda>c. c \<noteq> CHR ''.'') (rev nm))"
  have nm: "CHR ''.'' \<in> set nm" using arg_cong[OF eq, of set] by auto
  have "file_stem nm \<noteq> nm" using arg_cong[OF eq, of length] by auto
  then have "nm = file_stem nm @ CHR ''.'' # ?after"
    using split_at_last[OF nm] nm by (auto simp: file_stem_def Let_def)
  with eq have "ex = ?after" by (metis append_Cons append_Nil same_append_eq list.inject)
  then show False using dot by (auto dest: set_takeWhileD)
qed

lemma tmp_differs: "with_extension ''json.tmp'' p \<noteq> p"
proof
  assume eq: "with_extension ''json.tmp'' p = p"
  have "take (length p - length (file_name p)) p @ file_name p = p"
    using arg_cong[OF takeWhile_dropWhile_id[of "\<lambda>c. c \<noteq> CHR ''/''" "rev p"], of rev]
    by (metis append_eq_conv_conj append_take_drop_id diff_diff_cancel file_name_def length_append
        length_rev rev_append rev_rev_ident add_diff_cancel_right')
  with eq have "file_stem (file_name p) @ ''.'' @ ''json.tmp'' = file_name p"
    unfolding with_extension_def Let_def by (metis same_append_eq)
  then show False using file_stem_dotted[of "''json.tmp''" "file_name p"] by simp
qed

text \<open>The operations before the rename leave every file but the temporary one alone.\<close>

fun only_touches :: "string \<Rightarrow> fs_op \<Rightarrow> bool" where
  "only_touches t (CreateDirAll _) = True"
| "only_touches t (CreateFile p) = (p = t)"
| "only_touches t (WriteAll p _) = (p = t)"
| "only_touches t (SyncAll p) = True"
| "only_touches t (Rename _ _) = False"

lemma fs_do_untouched: "only_touches t x \<Longrightarrow> p \<noteq> t \<Longrightarrow> files (snd (fs_do x d)) p = files d p"
  by (cases x) (auto simp: fs_do_def split: list.splits option.splits)

lemma fs_seq_untouched:
  "\<forall>x \<in> set xs. only_touches t x \<Longrightarrow> p \<noteq> t \<Longrightarrow> files (snd (fs_seq xs d)) p = files d p"
proof (induction xs arbitrary: d)
  case (Cons x xs)
  then show ?case
    using fs_do_untouched[of t x p d] Cons.IH[of "snd (fs_do x d)"]
    by (auto split: prod.splits sum.splits)
qed simp

lemma fs_seq_append:
  "fs_seq (xs @ ys) d = (case fs_seq xs d of (Inl e, d') \<Rightarrow> (Inl e, d') | (Inr _, d') \<Rightarrow> fs_seq ys d')"
  by (induction xs arbitrary: d) (auto split: prod.splits sum.splits)

lemma fs_do_ok: "fst (fs_do x d) = Inr u \<Longrightarrow> files (snd (fs_do x d)) = fs_effect x (files d)"
  by (auto simp: fs_do_def split: list.splits option.splits)

lemma fs_seq_ok: "fst (fs_seq xs d) = Inr u \<Longrightarrow> files (snd (fs_seq xs d)) = fold fs_effect xs (files d)"
proof (induction xs arbitrary: d)
  case (Cons x xs)
  obtain r d' where d': "fs_do x d = (r, d')" by fastforce
  with Cons.prems obtain v where "r = Inr v" by (cases r) auto
  with d' Cons show ?case using fs_do_ok[of x d] by auto
qed simp

lemma rename_ok_or_same:
  "files (snd (fs_do (Rename t p) d)) p \<in> {files d p, files d t}"
  by (auto simp: fs_do_def split: list.splits option.splits)

lemma save_prefix_quiet:
  "x \<in> set [CreateFile t, WriteAll t bytes, SyncAll t] \<Longrightarrow> only_touches t x"
  by auto

lemma save_before_rename:
  assumes "t \<noteq> path"
  shows "files (snd (fs_seq (take n [CreateFile t, WriteAll t bytes, SyncAll t]) d)) path = files d path"
proof (rule fs_seq_untouched[of _ t])
  show "\<forall>x \<in> set (take n [CreateFile t, WriteAll t bytes, SyncAll t]). only_touches t x"
    by (meson in_set_takeD save_prefix_quiet)
qed (use assms in simp)

lemma save_temp_complete:
  "fst (fs_seq [CreateFile t, WriteAll t bytes, SyncAll t] d) = Inr u \<Longrightarrow>
     files (snd (fs_seq [CreateFile t, WriteAll t bytes, SyncAll t] d)) t = Some bytes"
  by (drule fs_seq_ok) simp

lemma save_ops_split:
  "save_ops path bytes = [CreateFile t, WriteAll t bytes, SyncAll t] @ [Rename t path]"
  if "t = with_extension ''json.tmp'' path"
  using that by (simp add: save_ops_def Let_def)

lemma save_all_ops: "files (snd (fs_seq (save_ops path bytes) d)) path \<in> {files d path, Some bytes}"
proof -
  let ?t = "with_extension ''json.tmp'' path"
  let ?w = "[CreateFile ?t, WriteAll ?t bytes, SyncAll ?t]"
  obtain r d' where w: "fs_seq ?w d = (r, d')" by fastforce
  have old: "files d' path = files d path" using save_before_rename[OF tmp_differs, of 3 path bytes d] w by simp
  show ?thesis
  proof (cases r)
    case (Inl e)
    then show ?thesis using w old by (simp add: save_ops_split[OF refl] fs_seq_append del: fs_seq.simps append.simps)
  next
    case (Inr u)
    have "files d' ?t = Some bytes" using save_temp_complete[of ?t bytes d u] w Inr by simp
    moreover have "fs_seq (save_ops path bytes) d = fs_seq [Rename ?t path] d'"
      using w Inr by (simp add: save_ops_split[OF refl] fs_seq_append del: fs_seq.simps append.simps)
    moreover have "files (snd (fs_seq [Rename ?t path] d')) = files (snd (fs_do (Rename ?t path) d'))"
      by (simp split: prod.splits sum.splits)
    ultimately show ?thesis using rename_ok_or_same[of ?t path d'] old by auto
  qed
qed

lemma save_ops_done: "fst (fs_seq (save_ops path bytes) d) = Inr u \<Longrightarrow> files (snd (fs_seq (save_ops path bytes) d)) path = Some bytes"
  by (drule fs_seq_ok) (simp add: save_ops_def Let_def tmp_differs)

lemma fs_seq_no_faults: "faults d = [] \<Longrightarrow> fst (fs_seq xs d) = Inr () \<and> faults (snd (fs_seq xs d)) = []"
  by (induction xs arbitrary: d) (auto simp: fs_do_def)

lemma save_inner_no_faults:
  assumes "faults d = []" "to_str E (map_json m) = Inr bytes"
  shows "files (snd (save_inner E path m d)) path = Some bytes \<and> faults (snd (save_inner E path m d)) = []"
proof -
  let ?mk = "if parent path \<noteq> [] then [CreateDirAll (parent path)] else []"
  obtain d' where mk: "fs_seq ?mk d = (Inr (), d')" "faults d' = []"
    using fs_seq_no_faults[OF assms(1), of ?mk] by (metis prod.collapse)
  then have "snd (save_inner E path m d) = snd (fs_seq (save_ops path bytes) d')"
    using assms(2) by (simp only: save_inner_def) simp
  then show ?thesis
    using fs_seq_no_faults[OF mk(2), of "save_ops path bytes"] save_ops_done[of path bytes d' "()"] by simp
qed

lemma load_after_save:
  assumes "store_path st = Some path" "faults d = []"
    and "\<forall>(k, s) \<in> set m. state_safe s" "faithful_on E (map_json m)"
  shows "map_of (store_load E st (store_save E st m d)) = map_of m"
proof -
  obtain bytes where b: "to_str E (map_json m) = Inr bytes" "from_str E bytes = Inr (map_json m)"
    using assms(4) by (auto simp: faithful_on_def)
  obtain m' where "map_of_json (map_json m) = Some m'" "map_of m' = map_of m"
    using map_json_round_trip[OF assms(3)] by blast
  with b save_inner_no_faults[OF assms(2) b(1), of path] show ?thesis
    by (simp add: store_load_def store_save_def fs_read_def assms(1))
qed

section \<open>Properties\<close>

text \<open>
  C18: Saving is atomic. Wherever the writing sequence is cut off by a crash, and whichever of its
  file operations fail, the state file holds what it held before or the complete new document.
\<close>

theorem save_atomic:
  "files (snd (fs_seq (take n (save_ops path bytes)) d)) path \<in> {files d path, Some bytes}"
proof (cases "n \<le> 3")
  case True
  then have "take n (save_ops path bytes) = take n [CreateFile (with_extension ''json.tmp'' path),
      WriteAll (with_extension ''json.tmp'' path) bytes, SyncAll (with_extension ''json.tmp'' path)]"
    by (simp add: save_ops_split[OF refl] del: append.simps)
  then show ?thesis using save_before_rename[OF tmp_differs] by simp
next
  case False
  then have "take n (save_ops path bytes) = save_ops path bytes" by (simp add: save_ops_def Let_def)
  then show ?thesis using save_all_ops by simp
qed

text \<open>
  C19: A restart restores every snapshot: when the disk does not fail, serde_json reads back the
  document it wrote and the snapshots hold finite limits and 64-bit integers, loading after a save
  returns the saved map.
\<close>

theorem restart_restores_snapshots:
  assumes "store_path st = Some path" "faults d = []"
    and "\<forall>(k, s) \<in> set m. state_safe s" "faithful_on E (map_json m)"
  shows "map_of (store_load E st (store_save E st m d)) = map_of m"
  using load_after_save[OF assms] .

definition demo_snapshots :: snapshot_map where
  "demo_snapshots = [(''CP1'', state_default\<lparr>connector_status := Some ''Charging'', transaction_id := Some 7,
      current_limit_a := Some (Fin 16)\<rparr>)]"

definition demo_disk :: disk where
  "demo_disk = \<lparr>files = Map.empty, faults = []\<rparr>"

theorem restart_restores_snapshots_witness:
  "map_of (store_load (table_ext [(''doc'', map_json demo_snapshots)]) \<lparr>store_path = Some ''/state.json''\<rparr>
      (store_save (table_ext [(''doc'', map_json demo_snapshots)]) \<lparr>store_path = Some ''/state.json''\<rparr>
        demo_snapshots demo_disk))
   = map_of demo_snapshots"
  by (rule restart_restores_snapshots)
     (auto simp: demo_disk_def demo_snapshots_def state_safe_def state_fits_def state_default_def i64_ok_def
        faithful_on_def table_ext_def is_finite_def)

text \<open>What a message that is neither the start nor the stop of a transaction leaves alone.\<close>

lemma apply_other_keeps:
  assumes "act \<noteq> ''StartTransaction''" "act \<noteq> ''StopTransaction''"
  shows "meter_start_wh (snd (apply_message E now act mt text s)) = meter_start_wh s"
    and "transaction_id (snd (apply_message E now act mt text s)) = transaction_id s"
    and "last_session_energy_wh (snd (apply_message E now act mt text s)) = last_session_energy_wh s"
  using assms by (auto simp: apply_message_def fold_message_def fold_status_def Let_def split: option.splits)

definition apply_all ::
    "ext \<Rightarrow> (utc \<times> string \<times> ocpp_message_type \<times> string) list \<Rightarrow> charge_point_state \<Rightarrow> charge_point_state" where
  "apply_all E ms s = fold (\<lambda>(now, act, mt, text) s. snd (apply_message E now act mt text s)) ms s"

lemma apply_all_other_keeps:
  assumes "\<forall>(now, act, mt, text) \<in> set ms. act \<noteq> ''StartTransaction'' \<and> act \<noteq> ''StopTransaction''"
  shows "meter_start_wh (apply_all E ms s) = meter_start_wh s"
    and "transaction_id (apply_all E ms s) = transaction_id s"
  using assms by (induction ms arbitrary: s) (auto simp: apply_all_def apply_other_keeps)

lemma apply_message_fields:
  assumes "ocpp_args E text mt = Some args" "fold_message act mt args s = Some s'"
  shows "\<exists>u. snd (apply_message E now act mt text s) = s'\<lparr>last_updated := u\<rparr>"
  using assms by (auto simp: apply_message_def intro: exI[of _ "last_updated s'"])

text \<open>
  C20: A charging session is recorded whole: after the Start call, its result, any messages other
  than transaction starts and stops, and the Stop call, the snapshot has no open transaction and
  carries the delivered energy and the transaction's id: the one the Stop call names, as OCPP 1.6 has it, or, when it names
  none, the one the Start result gave. The meter is read as the charger sent it: a start that is not negative and a stop not before it.
\<close>

theorem session_recorded:
  assumes "ocpp_args E t1 (Call a1) = Some g1" "ocpp_args E t2 CallResult = Some g2"
    and "ocpp_args E t3 (Call a3) = Some g3"
    and "\<forall>(now, act, mt, text) \<in> set ms. act \<noteq> ''StartTransaction'' \<and> act \<noteq> ''StopTransaction''"
    and "i64_arg g1 ''meterStart'' = Some start" "i64_arg g3 ''meterStop'' = Some stop"
    and "i64_arg g2 ''transactionId'' = Some txn"
    and "0 \<le> start" "start \<le> stop"
    and "s' = apply_all E ([(n1, ''StartTransaction'', Call a1, t1), (n2, ''StartTransaction'', CallResult, t2)]
                @ ms @ [(n3, ''StopTransaction'', Call a3, t3)]) s"
  shows "last_session_energy_wh s' = Some (stop - start) \<and> last_meter_stop_wh s' = Some stop
    \<and> last_transaction_id s' = (case i64_arg g3 ''transactionId'' of None \<Rightarrow> Some txn | Some named \<Rightarrow> Some named)
    \<and> transaction_id s' = None \<and> id_tag s' = None \<and> meter_start_wh s' = None"
proof -
  define s1 where "s1 = snd (apply_message E n1 ''StartTransaction'' (Call a1) t1 s)"
  define s2 where "s2 = snd (apply_message E n2 ''StartTransaction'' CallResult t2 s1)"
  define s3 where "s3 = apply_all E ms s2"
  have s': "s' = snd (apply_message E n3 ''StopTransaction'' (Call a3) t3 s3)"
    using assms(10) by (simp add: apply_all_def s1_def s2_def s3_def)
  obtain u1 where "s1 = (fold_start g1 s)\<lparr>last_updated := u1\<rparr>"
    using apply_message_fields[OF assms(1), of "''StartTransaction''" s "fold_start g1 s" n1]
    by (auto simp: fold_message_def s1_def)
  moreover obtain u2 where "s2 = (fold_started g2 s1)\<lparr>last_updated := u2\<rparr>"
    using apply_message_fields[OF assms(2), of "''StartTransaction''" s1 "fold_started g2 s1" n2]
    by (auto simp: fold_message_def s2_def)
  ultimately have "meter_start_wh s3 = Some start" "transaction_id s3 = Some txn"
    using apply_all_other_keeps[OF assms(4), of E s2] assms(5,7)
    by (simp_all add: s3_def fold_start_def fold_started_def)
  moreover obtain u3 where "s' = (fold_stop g3 s3)\<lparr>last_updated := u3\<rparr>"
    using apply_message_fields[OF assms(3), of "''StopTransaction''" s3 "fold_stop g3 s3" n3]
    by (auto simp: fold_message_def s')
  moreover have "stop < 2 ^ 63" using assms(6) i64_arg_ok[of g3 "''meterStop''"] by (simp add: i64_ok_def)
  then have "wrap_i64 (stop - start) = stop - start" using assms(8,9) by (intro wrap_i64_id) linarith+
  ultimately show ?thesis
    using assms(6) by (simp add: fold_stop_def session_energy_def Let_def split: option.split)
qed

definition demo_session :: "(string \<times> json) list" where
  "demo_session =
     [(''start'', Arr [Num (PosInt 2), Str ''a'', Str ''StartTransaction'',
         Obj [(''meterStart'', Num (PosInt 1000)), (''idTag'', Str ''tag'')]]),
      (''started'', Arr [Num (PosInt 3), Str ''a'', Obj [(''transactionId'', Num (PosInt 7))]]),
      (''status'', Arr [Num (PosInt 2), Str ''b'', Str ''StatusNotification'', Obj [(''status'', Str ''Charging'')]]),
      (''stop'', Arr [Num (PosInt 2), Str ''c'', Str ''StopTransaction'', Obj [(''transactionId'', Num (PosInt 7)), (''meterStop'', Num (PosInt 6500))]])]"

theorem session_recorded_witness:
  "let s' = apply_all (table_ext demo_session)
        ([(1, ''StartTransaction'', Call ''StartTransaction'', ''start''),
          (2, ''StartTransaction'', CallResult, ''started'')]
         @ [(3, ''StatusNotification'', Call ''StatusNotification'', ''status'')]
         @ [(4, ''StopTransaction'', Call ''StopTransaction'', ''stop'')]) state_default
   in last_session_energy_wh s' = Some 5500 \<and> last_transaction_id s' = Some 7"
  using session_recorded[of "table_ext demo_session" "''start''" "''StartTransaction''"
      "[(''meterStart'', Num (PosInt 1000)), (''idTag'', Str ''tag'')]" "''started''"
      "[(''transactionId'', Num (PosInt 7))]" "''stop''" "''StopTransaction''" "[(''transactionId'', Num (PosInt 7)), (''meterStop'', Num (PosInt 6500))]"
      "[(3, ''StatusNotification'', Call ''StatusNotification'', ''status'')]" 1000 6500 7 _ 1 2 4 state_default,
      OF _ _ _ _ _ _ _ _ _ refl]
  by (simp add: ocpp_args_def table_ext_def demo_session_def i64_arg_def)

end
