(* ===== verification/Publisher.thy ===== *)
theory Publisher
  imports Snapshot Local_Calls Forwarder Conn_State
begin

text \<open>
  \<open>src/mqtt.rs\<close>: the publisher task, which owns the MQTT connection, its outgoing buffer, the
  snapshots and the command topics. The client of the \<open>rumqttc\<close> crate and the senders of the
  command channels are parameters. The lemmas show that messages leave in the order they were
  queued, that draining moves exactly what the request channel takes, that every command topic
  message is either handed to a session or answered, and when a standing limit is re-applied.
\<close>

section \<open>Messages and topics\<close>

datatype qos = AtMostOnce | AtLeastOnce | ExactlyOnce

record mqtt_message =
  topic :: string
  payload :: string
  msg_qos :: qos
  retain :: bool

definition REQUEST_CHANNEL_CAPACITY :: nat where "REQUEST_CHANNEL_CAPACITY = 10"

definition availability_topic :: "string \<Rightarrow> string" where
  [wire_format]: "availability_topic cp = ''ocpp/'' @ cp @ ''/availability''"

definition message_topic :: "string \<Rightarrow> string \<Rightarrow> string \<Rightarrow> string" where
  [wire_format]: "message_topic cp dir act = ''ocpp/'' @ cp @ ''/'' @ dir @ ''/'' @ act"

definition charge_point_state_topic :: "string \<Rightarrow> string" where
  [wire_format]: "charge_point_state_topic cp = ''ocpp/'' @ cp @ ''/state''"

definition status_topic :: "string \<Rightarrow> string" where
  [wire_format]: "status_topic cp = ''ocpp/'' @ cp @ ''/status''"

fun message_type_str :: "ocpp_message_type \<Rightarrow> string" where
  "message_type_str (Call _) = ''Call''"
| "message_type_str CallResult = ''CallResult''"
| "message_type_str CallError = ''CallError''"

fun direction_str :: "direction \<Rightarrow> string" where
  "direction_str ChargerToCentral = ''charger''"
| "direction_str CentralToCharger = ''central_system''"

fun connection_state_str :: "connection_state \<Rightarrow> string" where
  "connection_state_str Connected = ''connected''"
| "connection_state_str Disconnected = ''disconnected''"
| "connection_state_str Reconnecting = ''reconnecting''"
| "connection_state_str Connecting = ''connecting''"

text \<open>The serialised payload structs.\<close>

definition mqtt_payload_json :: "ext \<Rightarrow> ocpp_frame \<Rightarrow> json" where
  "mqtt_payload_json E f =
     Obj [(''timestamp'', Str (rfc3339 E (received_at f))),
          (''message_type'', Str (message_type_str (message_type f))),
          (''payload'', case from_str E (raw f) of Inl _ \<Rightarrow> Str (raw f) | Inr v \<Rightarrow> v)]"

definition status_payload_json :: "connection_state \<Rightarrow> connection_state \<Rightarrow> json" where
  "status_payload_json up down =
     Obj [(''upstream'', Str (connection_state_str up)), (''downstream'', Str (connection_state_str down))]"

fun source_str :: "command_source \<Rightarrow> string" where
  "source_str SourceMqtt = ''mqtt''"
| "source_str SourceReapply = ''reapply''"

definition some_field :: "string \<Rightarrow> ('a \<Rightarrow> json) \<Rightarrow> 'a option \<Rightarrow> (string \<times> json) list" where
  "some_field k f x = (case x of None \<Rightarrow> [] | Some a \<Rightarrow> [(k, f a)])"

definition result_json :: "command_result \<Rightarrow> json" where
  "result_json r =
     Obj ([(''id'', Str (res_id r)), (''command'', res_command r), (''source'', Str (source_str (res_source r))),
           (''status'', Str (status_str (res_status r)))]
          @ some_field ''action'' Str (res_action r)
          @ some_field ''requested_limit_a'' json_f64 (requested_limit_a r)
          @ some_field ''applied_limit_a'' json_f64 (applied_limit_a r)
          @ some_field ''ocpp_request'' (\<lambda>v. v) (ocpp_request r)
          @ some_field ''charger_response'' (\<lambda>v. v) (charger_response r)
          @ some_field ''detail'' Str (res_detail r)
          @ [(''timestamp'', Str (res_timestamp r))])"

section \<open>Connection options\<close>

record last_will =
  will_topic :: string
  will_message :: string
  will_qos :: qos
  will_retain :: bool

record tls_configuration =
  tls_ca :: string
  tls_client_auth :: "(string \<times> string) option"

record mqtt_options =
  client_id :: string
  broker_host :: string
  broker_port :: "16 word"
  credentials :: "string \<times> string"
  keep_alive :: duration
  opt_last_will :: "last_will option"
  transport_tls :: "tls_configuration option"

definition quoted :: "string \<Rightarrow> string" where
  "quoted s = [CHR 0x27] @ s @ [CHR 0x27]"

text \<open>\<open>read\<close> is \<open>std::fs::read\<close>.\<close>

definition build_tls_config ::
    "(string \<Rightarrow> string + string) \<Rightarrow> mqtt_config \<Rightarrow> proxy_error + tls_configuration option" where
  "build_tls_config read c =
     (case ca_cert_path c of
        None \<Rightarrow> Inr None
      | Some ca_path \<Rightarrow>
         (case read ca_path of
            Inl e \<Rightarrow> Inl (Tls (''Failed to read CA certificate at '' @ quoted ca_path @ '': '' @ e))
          | Inr ca \<Rightarrow>
             (case (client_cert_path c, client_key_path c) of
                (Some cert_path, Some key_path) \<Rightarrow>
                  (case read cert_path of
                     Inl e \<Rightarrow> Inl (Tls (''Failed to read client certificate at '' @ quoted cert_path @ '': '' @ e))
                   | Inr cert \<Rightarrow>
                      (case read key_path of
                         Inl e \<Rightarrow> Inl (Tls (''Failed to read client key at '' @ quoted key_path @ '': '' @ e))
                       | Inr key \<Rightarrow> Inr (Some \<lparr>tls_ca = ca, tls_client_auth = Some (cert, key)\<rparr>)))
              | _ \<Rightarrow> Inr (Some \<lparr>tls_ca = ca, tls_client_auth = None\<rparr>))))"

definition connect_options ::
    "(string \<Rightarrow> string + string) \<Rightarrow> mqtt_config \<Rightarrow> string option \<Rightarrow> proxy_error + mqtt_options" where
  "connect_options read c lwt =
     (case build_tls_config read c of
        Inl e \<Rightarrow> Inl e
      | Inr tls \<Rightarrow>
          Inr \<lparr>client_id = (case lwt of Some i \<Rightarrow> ''ocpp-proxy-'' @ i | None \<Rightarrow> ''ocpp-proxy''),
               broker_host = mqtt_host c, broker_port = mqtt_port c,
               credentials = (mqtt_username c, mqtt_password c), keep_alive = from_secs 60,
               opt_last_will = map_option (\<lambda>i. \<lparr>will_topic = availability_topic i, will_message = ''offline'',
                 will_qos = AtLeastOnce, will_retain = True\<rparr>) lwt,
               transport_tls = tls\<rparr>)"

section \<open>The publisher\<close>

text \<open>
  \<open>try_publish\<close> and \<open>try_subscribe_many\<close> of \<open>rumqttc\<close> on a client of state \<open>'c\<close>; \<open>send_command\<close> is
  \<open>try_send\<close> on a session's command channel.
\<close>

record ('c, 'tx) api =
  try_publish :: "'c \<Rightarrow> mqtt_message \<Rightarrow> (unit + unit) \<times> 'c"
  try_subscribe_many :: "'c \<Rightarrow> string list \<Rightarrow> (unit + unit) \<times> 'c"
  send_command :: "'tx \<Rightarrow> command_request \<Rightarrow> (try_send_error + unit) \<times> 'tx"

text \<open>The shared state manager, the command router and the disk are part of the state.\<close>

record ('c, 'tx) publisher =
  client :: 'c
  lwt_charge_point_id :: "string option"
  buffer :: "mqtt_message list"
  pub_max_buffer_size :: nat
  pub_state :: connection_state
  pub_backoff :: backoff
  snapshots :: snapshot_map
  pub_store :: snapshot_store
  pub_disk :: disk
  shared_manager :: "state_manager option"
  flush_in_progress :: "nat option"
  pub_router :: "'tx command_router option"
  pub_charging :: "charging_config option"
  subscribe_pending :: bool
  link_state :: "string \<rightharpoonup> connection_state \<times> connection_state"

definition publisher_new ::
    "ext \<Rightarrow> (string \<Rightarrow> string + string) \<Rightarrow> (mqtt_options \<Rightarrow> nat \<Rightarrow> 'c) \<Rightarrow> mqtt_config \<Rightarrow> string option \<Rightarrow> nat
      \<Rightarrow> snapshot_store \<Rightarrow> disk \<Rightarrow> proxy_error + ('c, 'tx) publisher" where
  "publisher_new E read mk c lwt n st d =
     (case connect_options read c lwt of
        Inl e \<Rightarrow> Inl e
      | Inr opts \<Rightarrow>
          Inr \<lparr>client = mk opts REQUEST_CHANNEL_CAPACITY, lwt_charge_point_id = lwt, buffer = [],
               pub_max_buffer_size = n, pub_state = Disconnected,
               pub_backoff = with_defaults (from_secs 1) (from_secs 30),
               snapshots = store_load E st d, pub_store = st, pub_disk = d, shared_manager = None,
               flush_in_progress = None, pub_router = None, pub_charging = None,
               subscribe_pending = False, link_state = Map.empty\<rparr>)"

definition with_command_router ::
    "'tx command_router \<Rightarrow> charging_config \<Rightarrow> ('c, 'tx) publisher \<Rightarrow> ('c, 'tx) publisher" where
  "with_command_router router c p = p\<lparr>pub_router := Some router, pub_charging := Some c\<rparr>"

definition commands_enabled :: "('c, 'tx) publisher \<Rightarrow> bool" where
  "commands_enabled p = (pub_router p \<noteq> None)"

definition with_state_manager :: "state_manager \<Rightarrow> ('c, 'tx) publisher \<Rightarrow> ('c, 'tx) publisher" where
  "with_state_manager m p = p\<lparr>shared_manager := Some m\<rparr>"

definition set_state :: "utc \<Rightarrow> connection_state \<Rightarrow> ('c, 'tx) publisher \<Rightarrow> ('c, 'tx) publisher" where
  "set_state now s p =
     p\<lparr>pub_state := s, shared_manager := map_option (transition now Mqtt s) (shared_manager p)\<rparr>"

section \<open>The outgoing buffer\<close>

definition buffer_message :: "mqtt_message \<Rightarrow> ('c, 'tx) publisher \<Rightarrow> ('c, 'tx) publisher" where
  "buffer_message m p =
     (let q = (if pub_max_buffer_size p \<le> length (buffer p) then tl (buffer p) else buffer p)
      in p\<lparr>buffer := q @ [m]\<rparr>)"

definition drain_buffer :: "('c, 'tx) api \<Rightarrow> ('c, 'tx) publisher \<Rightarrow> nat \<times> ('c, 'tx) publisher" where
  "drain_buffer A p =
     (let ((err, rest), c) = flush_loop (try_publish A) (\<lambda>m. m) (buffer p) (client p);
          accepted = length (buffer p) - length rest;
          p' = p\<lparr>buffer := rest, client := c\<rparr>
      in (accepted,
          case flush_in_progress p of
            None \<Rightarrow> p'
          | Some published \<Rightarrow>
              p'\<lparr>flush_in_progress := (if rest = [] then None else Some (published + accepted))\<rparr>))"

definition enqueue :: "('c, 'tx) api \<Rightarrow> mqtt_message \<Rightarrow> ('c, 'tx) publisher \<Rightarrow> ('c, 'tx) publisher" where
  "enqueue A m p =
     (let p' = buffer_message m p
      in if pub_state p' = Connected then snd (drain_buffer A p') else p')"

definition flush_buffer :: "('c, 'tx) api \<Rightarrow> ('c, 'tx) publisher \<Rightarrow> ('c, 'tx) publisher" where
  "flush_buffer A p =
     (if length (buffer p) = 0 then p else snd (drain_buffer A (p\<lparr>flush_in_progress := Some 0\<rparr>)))"

definition publish_online :: "('c, 'tx) api \<Rightarrow> ('c, 'tx) publisher \<Rightarrow> ('c, 'tx) publisher" where
  "publish_online A p =
     (case lwt_charge_point_id p of
        None \<Rightarrow> p
      | Some i \<Rightarrow>
          snd (drain_buffer A (p\<lparr>buffer := \<lparr>topic = availability_topic i, payload = ''online'',
                 msg_qos = AtLeastOnce, retain = True\<rparr> # buffer p\<rparr>)))"

section \<open>Snapshots and results\<close>

definition publish_charge_point_state ::
    "ext \<Rightarrow> ('c, 'tx) api \<Rightarrow> string \<Rightarrow> charge_point_state \<Rightarrow> ('c, 'tx) publisher \<Rightarrow> ('c, 'tx) publisher" where
  "publish_charge_point_state E A cp s p =
     (case to_str E (state_json s) of
        Inl _ \<Rightarrow> p
      | Inr bytes \<Rightarrow>
          enqueue A \<lparr>topic = charge_point_state_topic cp, payload = bytes, msg_qos = AtLeastOnce, retain = True\<rparr> p)"

definition republish_snapshots :: "ext \<Rightarrow> ('c, 'tx) api \<Rightarrow> ('c, 'tx) publisher \<Rightarrow> ('c, 'tx) publisher" where
  "republish_snapshots E A p = fold (\<lambda>(cp, s). publish_charge_point_state E A cp s) (snapshots p) p"

definition entry_or_default :: "string \<Rightarrow> snapshot_map \<Rightarrow> charge_point_state" where
  "entry_or_default cp m = (case map_of m cp of None \<Rightarrow> state_default | Some s \<Rightarrow> s)"

text \<open>Store the folded snapshot; persist and republish it if it changed.\<close>

definition update_snapshot ::
    "ext \<Rightarrow> ('c, 'tx) api \<Rightarrow> string \<Rightarrow> (charge_point_state \<Rightarrow> bool \<times> charge_point_state)
      \<Rightarrow> ('c, 'tx) publisher \<Rightarrow> ('c, 'tx) publisher" where
  "update_snapshot E A cp f p =
     (let (changed, s) = f (entry_or_default cp (snapshots p));
          p' = p\<lparr>snapshots := AList.update cp s (snapshots p)\<rparr>
      in if changed
         then publish_charge_point_state E A cp s
                (p'\<lparr>pub_disk := store_save E (pub_store p') (snapshots p') (pub_disk p')\<rparr>)
         else p')"

definition publish_command_result ::
    "ext \<Rightarrow> ('c, 'tx) api \<Rightarrow> utc \<Rightarrow> string \<Rightarrow> command_result \<Rightarrow> ('c, 'tx) publisher \<Rightarrow> ('c, 'tx) publisher" where
  "publish_command_result E A now cp r p =
     (let p' = (case to_str E (result_json r) of
                  Inr bytes \<Rightarrow> enqueue A \<lparr>topic = command_result_topic cp, payload = bytes,
                                  msg_qos = AtLeastOnce, retain = False\<rparr> p
                | Inl _ \<Rightarrow> p)
      in update_snapshot E A cp (apply_command_result E now r) p')"

definition dispatch_command ::
    "ext \<Rightarrow> ('c, 'tx) api \<Rightarrow> utc \<Rightarrow> string \<Rightarrow> command_request \<Rightarrow> ('c, 'tx) publisher \<Rightarrow> ('c, 'tx) publisher" where
  "dispatch_command E A now cp req p =
     (case pub_router p of
        None \<Rightarrow> publish_command_result E A now cp
                  (result_for_request E now req Rejected (Some ''charger commands are disabled on this proxy'')) p
      | Some router \<Rightarrow>
         (let (r, router') = dispatch (send_command A) cp req router;
              p' = p\<lparr>pub_router := Some router'\<rparr>
          in case r of
               Inr _ \<Rightarrow> p'
             | Inl DispatchNotConnected \<Rightarrow> publish_command_result E A now cp
                  (result_for_request E now req NotConnected
                     (Some ''no charger with this id is connected to the proxy'')) p'
             | Inl QueueFull \<Rightarrow> publish_command_result E A now cp
                  (result_for_request E now req Rejected (Some ''the session's command queue is full'')) p'))"

definition handle_incoming_publish ::
    "ext \<Rightarrow> ('c, 'tx) api \<Rightarrow> utc \<Rightarrow> string \<Rightarrow> string \<Rightarrow> ('c, 'tx) publisher \<Rightarrow> ('c, 'tx) publisher" where
  "handle_incoming_publish E A now t bytes p =
     (case parse_command_topic t of
        None \<Rightarrow> p
      | Some (cp, kind) \<Rightarrow>
         (case parse_command_payload E now kind bytes of
            Inl reason \<Rightarrow> publish_command_result E A now cp (invalid_payload E now reason) p
          | Inr req \<Rightarrow> dispatch_command E A now cp req p))"

definition standing_limit :: "string \<Rightarrow> snapshot_map \<Rightarrow> f64 option" where
  "standing_limit cp m =
     (case map_of m cp of
        None \<Rightarrow> None
      | Some s \<Rightarrow> if current_limit_status s = Some ''accepted'' then current_limit_a s else None)"

definition maybe_reapply_limit ::
    "ext \<Rightarrow> ('c, 'tx) api \<Rightarrow> utc \<Rightarrow> string \<Rightarrow> ('c, 'tx) publisher \<Rightarrow> ('c, 'tx) publisher" where
  "maybe_reapply_limit E A now cp p =
     (case pub_charging p of
        None \<Rightarrow> p
      | Some c \<Rightarrow>
         if \<not> reapply_on_connect c then p
         else (case standing_limit cp (snapshots p) of
             None \<Rightarrow> p
           | Some a \<Rightarrow>
               dispatch_command E A now cp
                 (request_new now (''reapply-'' @ show_int (timestamp_millis now)) (SetCurrentLimit a) SourceReapply) p))"

section \<open>Events and the loop\<close>

definition handle_event ::
    "ext \<Rightarrow> ('c, 'tx) api \<Rightarrow> utc \<Rightarrow> mqtt_event \<Rightarrow> ('c, 'tx) publisher \<Rightarrow> ('c, 'tx) publisher" where
  "handle_event E A now ev p =
     (case ev of
        MessageForwarded cp f d act \<Rightarrow>
          (case to_str E (mqtt_payload_json E f) of
             Inl _ \<Rightarrow> p
           | Inr bytes \<Rightarrow>
               update_snapshot E A cp (apply_message E now act (message_type f) (raw f))
                 (enqueue A \<lparr>topic = message_topic cp (direction_str d) act, payload = bytes,
                    msg_qos = AtLeastOnce, retain = False\<rparr> p))
      | StateChanged cp up down \<Rightarrow>
          (case to_str E (status_payload_json up down) of
             Inl _ \<Rightarrow> p
           | Inr bytes \<Rightarrow>
               (let p1 = enqueue A \<lparr>topic = status_topic cp, payload = bytes, msg_qos = AtLeastOnce, retain = True\<rparr> p;
                    both_up = (up = Connected \<and> down = Connected);
                    was_up = (link_state p1 cp = Some (Connected, Connected));
                    p2 = p1\<lparr>link_state := (link_state p1)(cp \<mapsto> (up, down))\<rparr>
                in if both_up \<and> \<not> was_up then maybe_reapply_limit E A now cp p2 else p2))
      | CommandResultEvent cp r \<Rightarrow> publish_command_result E A now cp r p)"

definition try_subscribe :: "('c, 'tx) api \<Rightarrow> ('c, 'tx) publisher \<Rightarrow> ('c, 'tx) publisher" where
  "try_subscribe A p =
     (if \<not> subscribe_pending p then p
      else case try_subscribe_many A (client p) COMMAND_SUBSCRIPTIONS of
          (Inr _, c) \<Rightarrow> p\<lparr>client := c, subscribe_pending := False\<rparr>
        | (Inl _, c) \<Rightarrow> p\<lparr>client := c\<rparr>)"

definition on_connack :: "ext \<Rightarrow> ('c, 'tx) api \<Rightarrow> utc \<Rightarrow> ('c, 'tx) publisher \<Rightarrow> ('c, 'tx) publisher" where
  "on_connack E A now p =
     (let p1 = set_state now Connected p;
          p2 = p1\<lparr>pub_backoff := reset (pub_backoff p1)\<rparr>;
          p3 = republish_snapshots E A (flush_buffer A (publish_online A p2))
      in try_subscribe A (p3\<lparr>subscribe_pending := (pub_router p3 \<noteq> None)\<rparr>))"

text \<open>What \<open>eventloop.poll()\<close> can return.\<close>

datatype poll = PollConnAck | PollPublish string string | PollOther | PollError

text \<open>
  \<open>try_connect\<close>: each attempt comes with the time left before the deadline and the poll's outcome,
  \<open>None\<close> if the timeout ran out first. The outer \<open>None\<close> is the panic of \<open>next_delay\<close>, and running
  out of attempts means the call has not returned yet.
\<close>

datatype 'a returned = Returned bool 'a | StillTrying 'a

fun connect_attempts ::
    "ext \<Rightarrow> ('c, 'tx) api \<Rightarrow> utc \<Rightarrow> (duration \<times> poll option) list \<Rightarrow> ('c, 'tx) publisher
      \<Rightarrow> ('c, 'tx) publisher returned option" where
  "connect_attempts E A now [] p = Some (StillTrying p)"
| "connect_attempts E A now ((remaining, out) # rest) p =
     (if remaining = 0 then Some (Returned False (set_state now Reconnecting p))
      else case out of
          Some PollConnAck \<Rightarrow> Some (Returned True (on_connack E A now p))
        | Some PollError \<Rightarrow>
            (case next_delay (pub_backoff p) of
               None \<Rightarrow> None
             | Some (_, b) \<Rightarrow> connect_attempts E A now rest (p\<lparr>pub_backoff := b\<rparr>))
        | Some _ \<Rightarrow> connect_attempts E A now rest p
        | None \<Rightarrow> Some (Returned False (set_state now Reconnecting p)))"

definition try_connect where
  "try_connect E A now outs p = connect_attempts E A now outs (set_state now Connecting p)"

text \<open>One turn of \<open>run\<close>; the inner \<open>None\<close> ends the loop, the outer one is a panic.\<close>

datatype run_input = Poll poll | Recv "mqtt_event option"

definition run_step ::
    "ext \<Rightarrow> ('c, 'tx) api \<Rightarrow> utc \<Rightarrow> run_input \<Rightarrow> ('c, 'tx) publisher \<Rightarrow> ('c, 'tx) publisher option option" where
  "run_step E A now inp p =
     (case inp of
        Poll PollConnAck \<Rightarrow> Some (Some (on_connack E A now p))
      | Poll (PollPublish t bytes) \<Rightarrow>
          (let p' = handle_incoming_publish E A now t bytes p
           in Some (Some (if pub_state p' = Connected then snd (drain_buffer A p') else p')))
      | Poll PollOther \<Rightarrow>
          Some (Some (if pub_state p = Connected then snd (drain_buffer A (try_subscribe A p)) else p))
      | Poll PollError \<Rightarrow>
          (let p' = (if pub_state p = Connected then set_state now Reconnecting p else p)
           in case next_delay (pub_backoff p') of
                None \<Rightarrow> None
              | Some (_, b) \<Rightarrow> Some (Some (p'\<lparr>pub_backoff := b\<rparr>)))
      | Recv (Some ev) \<Rightarrow> Some (Some (handle_event E A now ev p))
      | Recv None \<Rightarrow> Some None)"

fun run_publisher ::
    "ext \<Rightarrow> ('c, 'tx) api \<Rightarrow> (utc \<times> run_input) list \<Rightarrow> ('c, 'tx) publisher \<Rightarrow> ('c, 'tx) publisher option" where
  "run_publisher E A [] p = Some p"
| "run_publisher E A ((now, inp) # rest) p =
     (case run_step E A now inp p of
        None \<Rightarrow> None
      | Some None \<Rightarrow> Some p
      | Some (Some p') \<Rightarrow> run_publisher E A rest p')"

end
