(* ===== verification/Publisher_Facts.thy ===== *)
theory Publisher_Facts
  imports Publisher Command_Facts "HOL-Library.Sublist"
begin

text \<open>
  Facts about the publisher of \<open>src/mqtt.rs\<close>: what its handlers leave alone, the order of outgoing
  messages, the fate of a command topic message, and the re-applied limit.
\<close>

section \<open>What the handlers leave alone\<close>

text \<open>The connection's own fields change only on a \<open>ConnAck\<close> and on a poll error.\<close>

definition conn_view :: "('c, 'tx) publisher \<Rightarrow> connection_state \<times> backoff \<times> state_manager option" where
  "conn_view p = (pub_state p, pub_backoff p, shared_manager p)"

lemma conn_view_updates [simp]:
  "conn_view (p\<lparr>buffer := b\<rparr>) = conn_view p"
  "conn_view (p\<lparr>client := c\<rparr>) = conn_view p"
  "conn_view (p\<lparr>flush_in_progress := fl\<rparr>) = conn_view p"
  "conn_view (p\<lparr>snapshots := sm\<rparr>) = conn_view p"
  "conn_view (p\<lparr>pub_disk := d\<rparr>) = conn_view p"
  "conn_view (p\<lparr>pub_router := r\<rparr>) = conn_view p"
  "conn_view (p\<lparr>link_state := ls\<rparr>) = conn_view p"
  "conn_view (p\<lparr>subscribe_pending := sp\<rparr>) = conn_view p"
  by (simp_all add: conn_view_def)

lemma conn_view_drain [simp]: "conn_view (snd (drain_buffer A p)) = conn_view p"
  by (simp add: drain_buffer_def Let_def split: prod.splits option.splits)

lemma conn_view_enqueue [simp]: "conn_view (enqueue A m p) = conn_view p"
  by (simp add: enqueue_def buffer_message_def Let_def)

lemma conn_view_publish_state [simp]: "conn_view (publish_charge_point_state E A cp s p) = conn_view p"
  by (simp add: publish_charge_point_state_def split: sum.splits)

lemma conn_view_update_snapshot [simp]: "conn_view (update_snapshot E A cp f p) = conn_view p"
  by (simp add: update_snapshot_def Let_def split: prod.splits)

lemma conn_view_result [simp]: "conn_view (publish_command_result E A now cp r p) = conn_view p"
  by (simp add: publish_command_result_def Let_def split: sum.splits)

lemma conn_view_dispatch [simp]: "conn_view (dispatch_command E A now cp req p) = conn_view p"
  by (simp add: dispatch_command_def Let_def split: prod.splits sum.splits option.splits dispatch_error.splits)

lemma conn_view_incoming [simp]: "conn_view (handle_incoming_publish E A now t bytes p) = conn_view p"
  by (simp add: handle_incoming_publish_def split: prod.splits sum.splits option.splits)

lemma conn_view_reapply [simp]: "conn_view (maybe_reapply_limit E A now cp p) = conn_view p"
  by (simp add: maybe_reapply_limit_def split: option.splits)

lemma conn_view_event [simp]: "conn_view (handle_event E A now ev p) = conn_view p"
  by (cases ev) (simp_all add: handle_event_def Let_def split: sum.splits)

lemma conn_view_subscribe [simp]: "conn_view (try_subscribe A p) = conn_view p"
  by (simp add: try_subscribe_def split: prod.splits sum.splits)

lemma conn_view_online [simp]: "conn_view (publish_online A p) = conn_view p"
  by (simp add: publish_online_def split: option.splits)

lemma conn_view_flush [simp]: "conn_view (flush_buffer A p) = conn_view p"
  by (simp add: flush_buffer_def)

lemma conn_view_fold_publish:
  "conn_view (fold (\<lambda>(cp, s). publish_charge_point_state E A cp s) xs p) = conn_view p"
  by (induction xs arbitrary: p) (auto split: prod.splits)

lemma conn_view_republish [simp]: "conn_view (republish_snapshots E A p) = conn_view p"
  by (simp add: republish_snapshots_def conn_view_fold_publish)

lemma conn_view_connack:
  "conn_view (on_connack E A now p) =
     (Connected, reset (pub_backoff p), map_option (transition now Mqtt Connected) (shared_manager p))"
  by (simp add: on_connack_def Let_def set_state_def) (simp add: conn_view_def)

section \<open>The loop never panics and health mirrors the connection\<close>

definition backoff_ok :: "backoff \<Rightarrow> bool" where
  "backoff_ok b \<longleftrightarrow> (\<exists>c \<le> 30. b = \<lparr>initial = from_secs 1, max_delay = from_secs 30, current = from_secs c, multiplier = Fin 2\<rparr>)"

lemma backoff_ok_reset: "backoff_ok b \<Longrightarrow> backoff_ok (reset b)"
  unfolding backoff_ok_def reset_def by (fastforce intro!: exI[of _ "1::nat"])

lemma backoff_ok_next: "backoff_ok b \<Longrightarrow> \<exists>d b'. next_delay b = Some (d, b') \<and> d \<le> from_secs 30 \<and> backoff_ok b'"
proof -
  assume "backoff_ok b"
  then obtain c where c: "c \<le> 30" "b = \<lparr>initial = from_secs 1, max_delay = from_secs 30, current = from_secs c, multiplier = Fin 2\<rparr>"
    by (auto simp: backoff_ok_def)
  then have "next_delay b = Some (from_secs (min c 30),
      \<lparr>initial = from_secs 1, max_delay = from_secs 30, current = from_secs (min (2 * c) 30), multiplier = Fin 2\<rparr>)"
    using next_delay_secs[of c 30 "from_secs 1"] by simp
  then show ?thesis using c(1) by (auto simp: backoff_ok_def from_secs_def)
qed

definition mirrored :: "('c, 'tx) publisher \<Rightarrow> bool" where
  "mirrored p \<longleftrightarrow> backoff_ok (pub_backoff p)
     \<and> (\<exists>m. shared_manager p = Some m \<and> mqtt_state m = pub_state p)"

lemma mirrored_cong: "conn_view p' = conn_view p \<Longrightarrow> mirrored p \<Longrightarrow> mirrored p'"
  by (simp add: conn_view_def mirrored_def)

lemma mirrored_set_state: "mirrored p \<Longrightarrow> mirrored (set_state now s p)"
  by (auto simp: mirrored_def set_state_def)

lemma mirrored_connack: "mirrored p \<Longrightarrow> mirrored (on_connack E A now p)"
  using conn_view_connack[of E A now p]
  by (auto simp: mirrored_def conn_view_def backoff_ok_reset)

lemma run_step_mirrored:
  assumes "mirrored p"
  shows "\<exists>r. run_step E A now inp p = Some r \<and> (\<forall>p'. r = Some p' \<longrightarrow> mirrored p')"
proof -
  have err: "\<exists>d b. next_delay (pub_backoff q) = Some (d, b) \<and> mirrored (q\<lparr>pub_backoff := b\<rparr>)" if "mirrored q" for q :: "('c, 'tx) publisher"
    using backoff_ok_next[of "pub_backoff q"] that by (auto simp: mirrored_def)
  define q where "q = (if pub_state p = Connected then set_state now Reconnecting p else p)"
  have q: "mirrored q" using assms by (simp add: q_def mirrored_set_state)
  have "run_step E A now (Poll PollError) p =
      (case next_delay (pub_backoff q) of None \<Rightarrow> None | Some (_, b) \<Rightarrow> Some (Some (q\<lparr>pub_backoff := b\<rparr>)))"
    unfolding run_step_def q_def Let_def by simp
  with err[OF q] have "inp = Poll PollError \<Longrightarrow> ?thesis" by auto
  moreover have "inp \<noteq> Poll PollError \<Longrightarrow> ?thesis"
    using assms by (auto simp: run_step_def Let_def mirrored_connack intro: mirrored_cong[OF _ assms]
        split: run_input.splits poll.splits option.splits)
  ultimately show ?thesis by blast
qed

lemma run_publisher_mirrored:
  "mirrored p \<Longrightarrow> \<exists>p'. run_publisher E A inps p = Some p' \<and> mirrored p'"
proof (induction inps arbitrary: p)
  case (Cons i inps)
  obtain now inp where i: "i = (now, inp)" by fastforce
  obtain r where r: "run_step E A now inp p = Some r" "\<forall>p'. r = Some p' \<longrightarrow> mirrored p'"
    using run_step_mirrored[OF Cons.prems] by blast
  show ?case
  proof (cases r)
    case None
    then show ?thesis using r(1) Cons.prems i by simp
  next
    case (Some p')
    then show ?thesis using r Cons.IH[of p'] i by simp
  qed
qed simp

section \<open>Order of outgoing messages\<close>

interpretation mqtt_buffer: evicting_buffer buffer pub_max_buffer_size buffer_message
  by unfold_locales (simp_all add: buffer_message_def push_evict_def Let_def)

definition outbox :: "('c \<Rightarrow> mqtt_message list) \<Rightarrow> ('c, 'tx) publisher \<Rightarrow> mqtt_message list" where
  "outbox sent p = sent (client p) @ buffer p"

lemma drain_fields:
  "buffer (snd (drain_buffer A p)) = snd (fst (flush_loop (try_publish A) (\<lambda>m. m) (buffer p) (client p)))"
  "client (snd (drain_buffer A p)) = snd (flush_loop (try_publish A) (\<lambda>m. m) (buffer p) (client p))"
  "pub_max_buffer_size (snd (drain_buffer A p)) = pub_max_buffer_size p"
  "pub_router (snd (drain_buffer A p)) = pub_router p"
  "snapshots (snd (drain_buffer A p)) = snapshots p"
  "pub_charging (snd (drain_buffer A p)) = pub_charging p"
  "link_state (snd (drain_buffer A p)) = link_state p"
  "pub_store (snd (drain_buffer A p)) = pub_store p"
  "pub_disk (snd (drain_buffer A p)) = pub_disk p"
  by (simp_all add: drain_buffer_def Let_def split: prod.splits option.splits)

lemma outbox_drain:
  assumes "outlet (try_publish A) sent"
  shows "outbox sent (snd (drain_buffer A p)) = outbox sent p"
  using outlet.flush_conserves[OF assms, of "\<lambda>m. m" "buffer p" "client p"]
  by (simp add: outbox_def drain_fields)

lemma enqueue_frame [record_frame, simp]:
  "pub_max_buffer_size (enqueue A m p) = pub_max_buffer_size p"
  "pub_router (enqueue A m p) = pub_router p"
  "snapshots (enqueue A m p) = snapshots p"
  "pub_charging (enqueue A m p) = pub_charging p"
  "link_state (enqueue A m p) = link_state p"
  "pub_store (enqueue A m p) = pub_store p"
  "pub_disk (enqueue A m p) = pub_disk p"
  by (simp_all add: enqueue_def drain_fields buffer_message_def Let_def)

lemma outbox_enqueue:
  assumes "outlet (try_publish A) sent"
  shows "outbox sent (enqueue A m p) = sent (client p) @ push_evict (pub_max_buffer_size p) m (buffer p)"
  using outbox_drain[OF assms, of "buffer_message m p"] mqtt_buffer.contents_add[of m p]
  by (simp add: enqueue_def Let_def outbox_def) (simp add: buffer_message_def Let_def)

lemma push_evict_snoc: "\<exists>k \<le> 1. push_evict n m q = drop k q @ [m]"
  by (auto simp: push_evict_def drop_Suc intro: exI[of _ "0::nat"] exI[of _ "1::nat"])

lemma outbox_enqueue_snoc:
  assumes "outlet (try_publish A) sent"
  shows "\<exists>xs. outbox sent (enqueue A m p) = xs @ [m] \<and> subseq xs (outbox sent p)"
proof -
  obtain k where "push_evict (pub_max_buffer_size p) m (buffer p) = drop k (buffer p) @ [m]"
    using push_evict_snoc[of "pub_max_buffer_size p" m "buffer p"] by blast
  then have "outbox sent (enqueue A m p) = (sent (client p) @ drop k (buffer p)) @ [m]"
    by (simp add: outbox_enqueue[OF assms])
  moreover have "subseq (sent (client p) @ drop k (buffer p)) (outbox sent p)"
    unfolding outbox_def by (intro list_emb_append_mono) (auto intro: suffix_imp_subseq suffix_drop)
  ultimately show ?thesis by blast
qed

text \<open>A second message does not push the first one out of a buffer of two.\<close>

lemma outbox_enqueue_second:
  assumes o: "outlet (try_publish A) sent" and n: "2 \<le> pub_max_buffer_size p"
    and last: "outbox sent p = xs @ [m]"
  shows "\<exists>ys. outbox sent (enqueue A m2 p) = ys @ [m, m2]"
proof (cases "pub_max_buffer_size p \<le> length (buffer p)")
  case False
  then show ?thesis using last outbox_enqueue[OF o, of m2 p] by (simp add: push_evict_def outbox_def)
next
  case True
  with n obtain b c bs where b: "buffer p = b # c # bs"
    by (cases "buffer p"; cases "tl (buffer p)") auto
  have "last (c # bs) = m" using arg_cong[OF last, of last] b by (simp add: outbox_def)
  then have "c # bs = butlast (c # bs) @ [m]" by (metis append_butlast_last_id list.distinct(1))
  then have "outbox sent (enqueue A m2 p) = (sent (client p) @ butlast (c # bs)) @ [m, m2]"
    using True b outbox_enqueue[OF o, of m2 p] by (simp add: push_evict_def)
  then show ?thesis by blast
qed

lemma enqueue_buffer_length: "length (buffer (enqueue A m p)) \<le> Suc (length (buffer p))"
proof -
  have "length (buffer (snd (drain_buffer A (buffer_message m p)))) \<le> length (buffer (buffer_message m p))"
    using flush_loop_length[of "try_publish A" "\<lambda>m. m" "buffer (buffer_message m p)"] by (simp add: drain_fields)
  moreover have "length (buffer (buffer_message m p)) \<le> Suc (length (buffer p))"
    by (simp add: mqtt_buffer.contents_add push_evict_def)
  ultimately show ?thesis by (auto simp: enqueue_def Let_def)
qed

lemma fold_enqueue_all:
  assumes "outlet (try_publish A) sent"
  shows "length (buffer p) + length ms \<le> pub_max_buffer_size p \<Longrightarrow>
    outbox sent (fold (enqueue A) ms p) = outbox sent p @ ms"
proof (induction ms arbitrary: p)
  case (Cons m ms)
  then have "outbox sent (enqueue A m p) = outbox sent p @ [m]"
    using outbox_enqueue[OF assms, of m p] by (simp add: push_evict_def) (simp add: outbox_def)
  then show ?case using Cons enqueue_buffer_length[of A m p] by simp
qed simp

lemma fold_enqueue_order:
  assumes "outlet (try_publish A) sent"
  shows "subseq (outbox sent (fold (enqueue A) ms p)) (outbox sent p @ ms)"
proof (induction ms arbitrary: p)
  case (Cons m ms)
  obtain xs where xs: "outbox sent (enqueue A m p) = xs @ [m]" "subseq xs (outbox sent p)"
    using outbox_enqueue_snoc[OF assms] by blast
  then have "subseq (outbox sent (enqueue A m p) @ ms) (outbox sent p @ m # ms)"
    by (simp add: list_emb_append_mono)
  then show ?case using Cons.IH[of "enqueue A m p"] by (auto intro: subseq_order.trans)
qed simp

section \<open>The request channel\<close>

text \<open>
  rumqttc's documented client: publish and subscribe requests share one bounded channel, which
  \<open>poll()\<close> empties.
\<close>

datatype mqtt_request = PublishRequest mqtt_message | SubscribeRequest "string list"

definition put_request :: "mqtt_request channel \<Rightarrow> mqtt_request \<Rightarrow> (unit + unit) \<times> mqtt_request channel" where
  "put_request c x = (case try_send c x of (Inl _, c') \<Rightarrow> (Inl (), c') | (Inr _, c') \<Rightarrow> (Inr (), c'))"

definition channel_api :: "(mqtt_request channel, command_request channel) api" where
  "channel_api = \<lparr>try_publish = (\<lambda>c m. put_request c (PublishRequest m)),
     try_subscribe_many = (\<lambda>c fs. put_request c (SubscribeRequest fs)), send_command = try_send\<rparr>"

definition published :: "mqtt_request channel \<Rightarrow> mqtt_message list" where
  "published c = List.map_filter (\<lambda>r. case r of PublishRequest m \<Rightarrow> Some m | _ \<Rightarrow> None) (passed c)"

lemma put_request_cases:
  "put_request c x = (if closed c \<or> room c = 0 then (Inl (), c\<lparr>offered := offered c @ [x]\<rparr>)
     else (Inr (), c\<lparr>offered := offered c @ [x], passed := passed c @ [x], room := room c - 1\<rparr>))"
  by (auto simp: put_request_def try_send_def Let_def)

lemma published_put:
  "published (snd (put_request c (PublishRequest m))) =
     (if isl (fst (put_request c (PublishRequest m))) then published c else published c @ [m])"
  by (simp add: put_request_cases published_def map_filter_def)

lemma channel_api_outlet: "outlet (try_publish channel_api) published"
  by unfold_locales (simp add: channel_api_def published_put)

lemma flush_loop_channel:
  "\<not> closed c \<Longrightarrow>
   snd (fst (flush_loop (try_publish channel_api) (\<lambda>m. m) q c)) = drop (room c) q
   \<and> closed (snd (flush_loop (try_publish channel_api) (\<lambda>m. m) q c)) = False"
proof (induction q arbitrary: c)
  case (Cons m q)
  then show ?case by (cases "room c") (simp_all add: channel_api_def put_request_cases)
qed simp

text \<open>One turn of the event loop after \<open>poll()\<close> has left room for \<open>k\<close> requests.\<close>

definition tick :: "ext \<Rightarrow> nat \<Rightarrow> (mqtt_request channel, command_request channel) publisher
    \<Rightarrow> (mqtt_request channel, command_request channel) publisher" where
  "tick E k p =
     (case run_step E channel_api 0 (Poll PollOther) (p\<lparr>client := (client p)\<lparr>room := k\<rparr>\<rparr>) of
        Some (Some p') \<Rightarrow> p' | _ \<Rightarrow> p)"

lemma tick_step:
  assumes "pub_state p = Connected" "\<not> closed (client p)" "0 < k"
  shows "pub_state (tick E k p) = Connected" "\<not> closed (client (tick E k p))" "\<not> subscribe_pending (tick E k p)"
    "buffer (tick E k p) = drop (if subscribe_pending p then k - 1 else k) (buffer p)"
    "outbox published (tick E k p) = outbox published p"
proof -
  define p1 where "p1 = p\<lparr>client := (client p)\<lparr>room := k\<rparr>\<rparr>"
  define p2 where "p2 = try_subscribe channel_api p1"
  have t: "tick E k p = snd (drain_buffer channel_api p2)"
    using assms(1) by (simp add: tick_def run_step_def p1_def p2_def)
  have p2: "pub_state p2 = Connected" "\<not> closed (client p2)" "\<not> subscribe_pending p2" "buffer p2 = buffer p"
    "room (client p2) = (if subscribe_pending p then k - 1 else k)" "published (client p2) = published (client p)"
    using assms by (simp_all add: p2_def p1_def try_subscribe_def channel_api_def put_request_cases published_def map_filter_def)
  have "subscribe_pending (snd (drain_buffer channel_api p2)) = subscribe_pending p2"
    by (simp add: drain_buffer_def Let_def split: prod.splits option.splits)
  then show "\<not> subscribe_pending (tick E k p)" using p2 t by simp
  show "pub_state (tick E k p) = Connected"
    using conn_view_drain[of channel_api p2] p2(1) by (simp add: t conn_view_def)
  show "\<not> closed (client (tick E k p))" "buffer (tick E k p) = drop (if subscribe_pending p then k - 1 else k) (buffer p)"
    using flush_loop_channel[OF p2(2), of "buffer p2"] p2 by (simp_all add: t drain_fields)
  show "outbox published (tick E k p) = outbox published p"
    using outbox_drain[OF channel_api_outlet, of p2] p2(4,6) by (simp add: t outbox_def)
qed

lemma ticks_empty:
  assumes "pub_state p = Connected" "\<not> closed (client p)" "\<forall>k \<in> set ks. 0 < k"
    "length (buffer p) + (if subscribe_pending p then 1 else 0) \<le> length ks"
  shows "buffer (fold (tick E) ks p) = [] \<and> published (client (fold (tick E) ks p)) = published (client p) @ buffer p"
  using assms
proof (induction ks arbitrary: p)
  case (Cons k ks)
  then have k: "0 < k" by simp
  note step = tick_step[OF Cons.prems(1,2) k, of E]
  have "length (buffer (tick E k p)) + 0 \<le> length ks"
    using Cons.prems(4) k by (auto simp: step(4))
  then have "buffer (fold (tick E) ks (tick E k p)) = [] \<and>
      published (client (fold (tick E) ks (tick E k p))) = outbox published (tick E k p)"
    using Cons.IH[OF step(1,2)] Cons.prems(3) step(3) by (simp add: outbox_def)
  then show ?case by (simp add: step(5)) (simp add: outbox_def)
qed (auto simp: split: if_splits)

section \<open>Results\<close>

lemma update_snapshot_outbox:
  assumes o: "outlet (try_publish A) sent" and n: "2 \<le> pub_max_buffer_size p"
    and last: "outbox sent p = xs @ [m]"
  shows "\<exists>ys zs. outbox sent (update_snapshot E A cp f p) = ys @ m # zs \<and> length zs \<le> 1"
proof -
  have pub: "\<exists>ys zs. outbox sent (publish_charge_point_state E A cp s q) = ys @ m # zs \<and> length zs \<le> 1"
    if "outbox sent q = xs @ [m]" "2 \<le> pub_max_buffer_size q" for q s
    using outbox_enqueue_second[OF o that(2,1)] that(1)
    by (fastforce simp: publish_charge_point_state_def split: sum.splits)
  obtain changed s where f: "f (entry_or_default cp (snapshots p)) = (changed, s)" by fastforce
  let ?p = "p\<lparr>snapshots := AList.update cp s (snapshots p)\<rparr>"
  let ?d = "?p\<lparr>pub_disk := store_save E (pub_store ?p) (snapshots ?p) (pub_disk ?p)\<rparr>"
  have "outbox sent ?p = xs @ [m]" "outbox sent ?d = xs @ [m]" "2 \<le> pub_max_buffer_size ?d"
    using last n by (simp_all add: outbox_def)
  then show ?thesis
    using pub[of ?d s] f by (cases changed) (auto simp: update_snapshot_def Let_def intro: exI[of _ xs] exI[of _ "[]"])
qed

lemma result_published:
  assumes o: "outlet (try_publish A) sent" and n: "2 \<le> pub_max_buffer_size p"
    and b: "to_str E (result_json r) = Inr bytes"
  shows "\<exists>xs m ys. outbox sent (publish_command_result E A now cp r p) = xs @ m # ys \<and> length ys \<le> 1
    \<and> topic m = command_result_topic cp \<and> payload m = bytes"
proof -
  let ?m = "\<lparr>topic = command_result_topic cp, payload = bytes, msg_qos = AtLeastOnce, retain = False\<rparr>"
  obtain xs where "outbox sent (enqueue A ?m p) = xs @ [?m]" using outbox_enqueue_snoc[OF o] by blast
  then obtain ys zs where "outbox sent (update_snapshot E A cp (apply_command_result E now r) (enqueue A ?m p)) = ys @ ?m # zs"
    "length zs \<le> 1"
    using update_snapshot_outbox[OF o, of "enqueue A ?m p"] n by fastforce
  with b show ?thesis by (fastforce simp: publish_command_result_def)
qed

text \<open>The result for a request that reached no session.\<close>

definition undelivered :: "ext \<Rightarrow> command_request \<Rightarrow> command_result \<Rightarrow> bool" where
  "undelivered E req r \<longleftrightarrow> res_id r = req_id req \<and> res_command r = command_json (command req)
     \<and> res_status r \<in> {Rejected, NotConnected}"

lemma undelivered_result:
  "undelivered E req (result_for_request E now req Rejected d)"
  "undelivered E req (result_for_request E now req NotConnected d)"
  by (simp_all add: undelivered_def result_for_request_def)

lemma dispatch_command_cases:
  "(\<exists>router reg. pub_router p = Some router \<and> router cp = Some reg
      \<and> fst (send_command A (tx reg) req) = Inr ()
      \<and> dispatch_command E A now cp req p =
          p\<lparr>pub_router := Some (router(cp \<mapsto> reg\<lparr>tx := snd (send_command A (tx reg) req)\<rparr>))\<rparr>)
   \<or> (\<exists>r p0. undelivered E req r \<and> pub_max_buffer_size p0 = pub_max_buffer_size p
      \<and> dispatch_command E A now cp req p = publish_command_result E A now cp r p0)"
proof (cases "pub_router p")
  case None
  then have "dispatch_command E A now cp req p = publish_command_result E A now cp
      (result_for_request E now req Rejected (Some ''charger commands are disabled on this proxy'')) p"
    by (simp add: dispatch_command_def)
  then show ?thesis using undelivered_result(1) by blast
next
  case (Some router)
  obtain r router' where d: "dispatch (send_command A) cp req router = (r, router')" by fastforce
  show ?thesis
  proof (cases r)
    case (Inl e)
    then have "\<exists>res. undelivered E req res \<and> pub_max_buffer_size (p\<lparr>pub_router := Some router'\<rparr>) = pub_max_buffer_size p
        \<and> dispatch_command E A now cp req p = publish_command_result E A now cp res (p\<lparr>pub_router := Some router'\<rparr>)"
      using Some d undelivered_result by (cases e) (fastforce simp: dispatch_command_def)+
    then show ?thesis by blast
  next
    case (Inr u)
    then have "\<exists>reg. router cp = Some reg \<and> fst (send_command A (tx reg) req) = Inr ()
        \<and> router' = router(cp \<mapsto> reg\<lparr>tx := snd (send_command A (tx reg) req)\<rparr>)"
      using d by (auto simp: dispatch_def split: option.splits prod.splits sum.splits try_send_error.splits)
    then show ?thesis using Some d Inr by (auto simp: dispatch_command_def)
  qed
qed

section \<open>Properties\<close>

text \<open>
  C13: With a publish buffer of at least two messages, and results that can be serialised, no message on a command topic is
  dropped silently. It is handed to the session registered for its charge point and nothing else changes, or a result is
  queued for the command's result topic, and is then one of the newest two messages queued: \<open>invalid\<close> with the parser's reason
  if the payload is malformed, otherwise a refusal carrying the request's own id. (The configuration does not demand a
  buffer of two: with one, the snapshot published after the result evicts it, \<open>one_message_buffer_loses_result\<close> in
  \<open>Divergences\<close>.)
\<close>

theorem command_answered_or_delivered:
  assumes "outlet (try_publish A) sent" and "2 \<le> pub_max_buffer_size p"
    and "parse_command_topic t = Some (cp, kind)"
    and "\<forall>r. \<exists>bytes. to_str E (result_json r) = Inr bytes"
  shows "(\<exists>req router reg. parse_command_payload E now kind bytes = Inr req
        \<and> pub_router p = Some router \<and> router cp = Some reg
        \<and> fst (send_command A (tx reg) req) = Inr ()
        \<and> handle_incoming_publish E A now t bytes p =
            p\<lparr>pub_router := Some (router(cp \<mapsto> reg\<lparr>tx := snd (send_command A (tx reg) req)\<rparr>))\<rparr>)
    \<or> (\<exists>r m xs ys. outbox sent (handle_incoming_publish E A now t bytes p) = xs @ m # ys \<and> length ys \<le> 1
        \<and> topic m = command_result_topic cp \<and> to_str E (result_json r) = Inr (payload m)
        \<and> (case parse_command_payload E now kind bytes of
             Inl reason \<Rightarrow> res_status r = Invalid \<and> res_detail r = Some reason
           | Inr req \<Rightarrow> undelivered E req r))"
proof (cases "parse_command_payload E now kind bytes")
  case (Inl reason)
  obtain b where "to_str E (result_json (invalid_payload E now reason)) = Inr b" using assms(4) by blast
  moreover have "handle_incoming_publish E A now t bytes p
      = publish_command_result E A now cp (invalid_payload E now reason) p"
    using assms(3) Inl by (simp add: handle_incoming_publish_def)
  moreover have "res_status (invalid_payload E now reason) = Invalid" "res_detail (invalid_payload E now reason) = Some reason"
    by (simp_all add: invalid_payload_def)
  ultimately show ?thesis
    using result_published[OF assms(1,2), of E "invalid_payload E now reason" b now cp] Inl by fastforce
next
  case (Inr req)
  have h: "handle_incoming_publish E A now t bytes p = dispatch_command E A now cp req p"
    using assms(3) Inr by (simp add: handle_incoming_publish_def)
  consider (sent) router reg where "pub_router p = Some router" "router cp = Some reg"
      "fst (send_command A (tx reg) req) = Inr ()"
      "dispatch_command E A now cp req p = p\<lparr>pub_router := Some (router(cp \<mapsto> reg\<lparr>tx := snd (send_command A (tx reg) req)\<rparr>))\<rparr>"
    | (answered) r p0 where "undelivered E req r" "pub_max_buffer_size p0 = pub_max_buffer_size p"
      "dispatch_command E A now cp req p = publish_command_result E A now cp r p0"
    using dispatch_command_cases[of p cp A req E now] by blast
  then show ?thesis
  proof cases
    case sent
    then show ?thesis using Inr h by auto
  next
    case answered
    obtain b where "to_str E (result_json r) = Inr b" using assms(4) by blast
    then show ?thesis
      using result_published[OF assms(1), of p0 E r b now cp] answered assms(2) Inr h by fastforce
  qed
qed

definition demo_publisher :: "(mqtt_request channel, command_request channel) publisher" where
  "demo_publisher =
     \<lparr>client = channel_new 10, lwt_charge_point_id = Some ''CP1'', buffer = [], pub_max_buffer_size = 500,
      pub_state = Connected, pub_backoff = with_defaults (from_secs 1) (from_secs 30),
      snapshots = [(''CP1'', state_default\<lparr>current_limit_a := Some (Fin 16), current_limit_status := Some ''accepted''\<rparr>)],
      pub_store = \<lparr>store_path = None\<rparr>, pub_disk = \<lparr>files = Map.empty, faults = []\<rparr>,
      shared_manager = Some (manager_new\<lparr>mqtt_state := Connected\<rparr>), flush_in_progress = None,
      pub_router = Some [''CP1'' \<mapsto> \<lparr>generation = 1, tx = channel_new 32\<rparr>],
      pub_charging = Some charging_config_default, subscribe_pending = False, link_state = Map.empty\<rparr>"

definition demo_ext :: ext where
  "demo_ext = (table_ext [])\<lparr>to_str := (\<lambda>v. Inr ''json'')\<rparr>"

theorem command_answered_or_delivered_witness:
  "parse_command_topic ''ocpp/CP1/command'' = Some (''CP1'', TopicCommand)
   \<and> (\<exists>r m xs ys. outbox published (handle_incoming_publish demo_ext channel_api 0 ''ocpp/CP1/command'' [] demo_publisher)
        = xs @ m # ys \<and> topic m = command_result_topic ''CP1'' \<and> res_status r = Invalid
        \<and> to_str demo_ext (result_json r) = Inr (payload m))"
proof -
  have t: "parse_command_topic ''ocpp/CP1/command'' = Some (''CP1'', TopicCommand)"
    by (simp add: parse_command_topic_def)
  have e: "parse_command_payload demo_ext 0 TopicCommand [] = Inl ''payload is empty''"
    by (simp add: parse_command_payload_def from_utf8_def trim_def trim_start.simps trim_end.simps
        ws_suffix_def Let_def)
  show ?thesis
    using command_answered_or_delivered[OF channel_api_outlet, of demo_publisher "''ocpp/CP1/command''" "''CP1''"
        TopicCommand demo_ext 0 "[]"] t e
    by (fastforce simp: demo_publisher_def demo_ext_def)
qed

text \<open>
  C22: The MQTT side preserves order. Whatever is queued, what was published and what is still
  waiting form a subsequence of the queued messages in their order, and as long as the backlog fits
  the buffer nothing is lost at all.
\<close>

theorem messages_leave_in_order:
  assumes "outlet (try_publish A) sent"
  shows "subseq (outbox sent (fold (enqueue A) ms p)) (outbox sent p @ ms)
    \<and> (length (buffer p) + length ms \<le> pub_max_buffer_size p
        \<longrightarrow> outbox sent (fold (enqueue A) ms p) = outbox sent p @ ms)"
  using fold_enqueue_order[OF assms] fold_enqueue_all[OF assms] by blast

definition demo_message :: mqtt_message where
  "demo_message = \<lparr>topic = ''ocpp/CP1/charger/Heartbeat'', payload = ''x'', msg_qos = AtLeastOnce, retain = False\<rparr>"

theorem messages_leave_in_order_witness:
  "outbox published (fold (enqueue channel_api) [demo_message, demo_message\<lparr>payload := ''y''\<rparr>] demo_publisher)
     = [demo_message, demo_message\<lparr>payload := ''y''\<rparr>]"
  using messages_leave_in_order[OF channel_api_outlet, of "[demo_message, demo_message\<lparr>payload := ''y''\<rparr>]" demo_publisher]
  by (simp add: demo_publisher_def outbox_def published_def channel_new_def map_filter_def)

text \<open>
  C21: A backlog always gets out: while connected, as many event-loop turns as there are waiting
  requests suffice to publish the whole buffer in order, if each poll leaves room for one request.
\<close>

theorem backlog_drains:
  assumes "pub_state p = Connected" "\<not> closed (client p)" "\<forall>k \<in> set ks. 0 < k"
    and "length (buffer p) + (if subscribe_pending p then 1 else 0) \<le> length ks"
  shows "buffer (fold (tick E) ks p) = []
    \<and> published (client (fold (tick E) ks p)) = published (client p) @ buffer p"
  using ticks_empty[OF assms] .

theorem backlog_drains_witness:
  "buffer (fold (tick demo_ext) [1, 1, 1] (demo_publisher\<lparr>buffer := [demo_message, demo_message], subscribe_pending := True\<rparr>)) = []"
  using backlog_drains[of "demo_publisher\<lparr>buffer := [demo_message, demo_message], subscribe_pending := True\<rparr>" "[1, 1, 1]" demo_ext]
  by (simp add: demo_publisher_def channel_new_def)

text \<open>
  The publisher never stops on a panic, and the health endpoint always sees its real state:
  from start-up on, through any sequence of polls and events, every turn completes and the shared
  manager's MQTT state is the publisher's.
\<close>

lemma publisher_never_panics_and_mirrors:
  assumes "publisher_new E read mk c lwt n st d = Inr p" "mqtt_state m = Disconnected"
  shows "\<exists>p' m'. run_publisher E A inps (with_state_manager m p) = Some p'
    \<and> shared_manager p' = Some m' \<and> mqtt_state m' = pub_state p'"
proof -
  have "mirrored (with_state_manager m p)"
    using assms by (auto simp: mirrored_def with_state_manager_def publisher_new_def backoff_ok_def
        with_defaults_def backoff_new_def split: sum.splits intro!: exI[of _ "1::nat"])
  then obtain p' where "run_publisher E A inps (with_state_manager m p) = Some p'" "mirrored p'"
    using run_publisher_mirrored by blast
  then show ?thesis by (auto simp: mirrored_def)
qed

definition demo_mqtt :: mqtt_config where
  "demo_mqtt = \<lparr>mqtt_host = ''ha'', mqtt_port = 1883, mqtt_username = ''u'', mqtt_password = ''p'',
     ca_cert_path = None, client_cert_path = None, client_key_path = None\<rparr>"

text \<open>
  A standing limit is sent again when the link comes up: once per transition to both sides
  connected, the session registered for the charger receives exactly one \<open>set_current_limit\<close>
  request with the amps the charger last accepted.
\<close>

lemma reapply_on_link_up:
  assumes "link_state p cp \<noteq> Some (Connected, Connected)"
    and "pub_charging p = Some c" "reapply_on_connect c" "standing_limit cp (snapshots p) = Some a"
    and "pub_router p = Some router" "router cp = Some reg"
    and "fst (send_command A (tx reg) req) = Inr ()"
    and "to_str E (status_payload_json Connected Connected) = Inr bytes"
    and "req = request_new now (''reapply-'' @ show_int (timestamp_millis now)) (SetCurrentLimit a) SourceReapply"
    and "p' = handle_event E A now (StateChanged cp Connected Connected) p"
  shows "pub_router p' = Some (router(cp \<mapsto> reg\<lparr>tx := snd (send_command A (tx reg) req)\<rparr>))
    \<and> pub_router (handle_event E A later (StateChanged cp Connected Connected) p') = pub_router p'"
proof -
  define q where "q = enqueue A \<lparr>topic = status_topic cp, payload = bytes, msg_qos = AtLeastOnce, retain = True\<rparr> p"
  define q2 where "q2 = q\<lparr>link_state := (link_state q)(cp \<mapsto> (Connected, Connected))\<rparr>"
  have q: "link_state q = link_state p" "snapshots q = snapshots p" "pub_router q = pub_router p" "pub_charging q = pub_charging p"
    by (simp_all add: q_def)
  have "p' = maybe_reapply_limit E A now cp q2"
    using assms(1,8,10) q by (simp add: handle_event_def Let_def q2_def flip: q_def)
  also have "\<dots> = dispatch_command E A now cp req q2"
    using assms(2-4,9) q by (simp add: maybe_reapply_limit_def q2_def)
  also have "\<dots> = q2\<lparr>pub_router := Some (router(cp \<mapsto> reg\<lparr>tx := snd (send_command A (tx reg) req)\<rparr>))\<rparr>"
    using assms(5-7) q by (simp add: dispatch_command_def dispatch_def q2_def case_prod_unfold Let_def)
  finally have p': "p' = q2\<lparr>pub_router := Some (router(cp \<mapsto> reg\<lparr>tx := snd (send_command A (tx reg) req)\<rparr>))\<rparr>" .
  then have "link_state p' cp = Some (Connected, Connected)" by (simp add: q2_def)
  then have "pub_router (handle_event E A later (StateChanged cp Connected Connected) p') = pub_router p'"
    using assms(8) by (simp add: handle_event_def Let_def)
  with p' show ?thesis by simp
qed

lemma snapshots_publish_state [simp]: "snapshots (publish_charge_point_state E A cp s p) = snapshots p"
  by (simp add: publish_charge_point_state_def split: sum.splits)

lemma snapshots_update:
  "map_of (snapshots (update_snapshot E A cp f p)) =
     (map_of (snapshots p))(cp \<mapsto> snd (f (entry_or_default cp (snapshots p))))"
  by (auto simp: update_snapshot_def Let_def update_conv' split: prod.splits)

lemma snapshots_result:
  "map_of (snapshots (publish_command_result E A now cp r p)) =
     (map_of (snapshots p))(cp \<mapsto> snd (apply_command_result E now r (entry_or_default cp (snapshots p))))"
  by (simp add: publish_command_result_def Let_def snapshots_update split: sum.splits)

text \<open>An accepted limit that changes the standing one is stored with the other snapshots.\<close>

lemma accepted_limit_saved:
  assumes "is_limit_result r" "res_status r = Accepted" "res_action r = Some ''SetChargingProfile''"
    and "applied_limit_a r = Some a" "standing_limit cp (snapshots p) \<noteq> Some a"
    and "p' = publish_command_result E A now cp r p"
  shows "standing_limit cp (snapshots p') = Some a
    \<and> pub_disk p' = store_save E (pub_store p) (snapshots p') (pub_disk p)"
proof -
  let ?s = "entry_or_default cp (snapshots p)"
  have "map_of (snapshots p') cp = Some (snd (apply_command_result E now r ?s))"
    using assms(6) by (simp add: snapshots_result)
  moreover have "current_limit_a (snd (apply_command_result E now r ?s)) = Some a"
    "current_limit_status (snd (apply_command_result E now r ?s)) = Some ''accepted''"
    using assms(1-4) by (simp_all add: apply_command_result_def Let_def)
  ultimately have st: "standing_limit cp (snapshots p') = Some a" by (simp add: standing_limit_def)
  have "\<not> state_eq (?s\<lparr>current_limit_status := Some ''accepted'', current_limit_a := Some a\<rparr>) ?s"
    using assms(5) by (auto simp: opt_f64_eq_def f64_eq_def entry_or_default_def standing_limit_def
        state_default_def dest!: state_eqD split: option.splits)
  then have "fst (apply_command_result E now r ?s)" using assms(1-4) by (simp add: apply_command_result_def Let_def)
  then have "pub_disk p' = store_save E (pub_store p) (snapshots p') (pub_disk p)"
    using assms(6) by (simp add: publish_command_result_def update_snapshot_def Let_def publish_charge_point_state_def
        split: sum.splits prod.splits)
  with st show ?thesis by simp
qed

text \<open>
  C39: Any limit command that does not succeed ends the standing limit. The snapshot still shows the
  amps in force at the charger, but after a result such as \<open>invalid\<close>, \<open>superseded\<close> or
  \<open>not_connected\<close>, for a command the charger never saw, the limit is no longer re-applied.
\<close>

theorem failed_limit_ends_standing_limit:
  assumes "is_limit_result r" "res_status r \<noteq> Accepted" "map_of (snapshots p) cp = Some s"
    and "p' = publish_command_result E A now cp r p"
  shows "standing_limit cp (snapshots p') = None
    \<and> (\<exists>s'. map_of (snapshots p') cp = Some s' \<and> current_limit_a s' = current_limit_a s
          \<and> current_limit_status s' = Some (status_str (res_status r)))"
proof -
  let ?s = "snd (apply_command_result E now r s)"
  have "map_of (snapshots p') cp = Some ?s"
    using assms(3,4) by (simp add: snapshots_result entry_or_default_def)
  moreover have "current_limit_a ?s = current_limit_a s" "current_limit_status ?s = Some (status_str (res_status r))"
    using assms(1,2) by (simp_all add: apply_command_result_def Let_def)
  moreover have "status_str (res_status r) \<noteq> ''accepted''" using assms(2) by (cases "res_status r") auto
  ultimately show ?thesis by (simp add: standing_limit_def)
qed

theorem failed_limit_ends_standing_limit_witness:
  "standing_limit ''CP1'' (snapshots demo_publisher) = Some (Fin 16)
   \<and> standing_limit ''CP1'' (snapshots (publish_command_result demo_ext channel_api 5 ''CP1''
       (result_for_request demo_ext 5 (request_new 5 ''x'' (SetCurrentLimit (Fin 20)) SourceMqtt) Superseded None)
       demo_publisher)) = None"
  using failed_limit_ends_standing_limit[of
      "result_for_request demo_ext 5 (request_new 5 ''x'' (SetCurrentLimit (Fin 20)) SourceMqtt) Superseded None"
      demo_publisher "''CP1''" _ _ demo_ext channel_api 5, OF _ _ _ refl]
  by (simp add: is_limit_result_def result_for_request_def request_new_def demo_publisher_def standing_limit_def
      del: fun_upd_apply) (simp add: state_default_def)

end
