(* ===== verification/Downstream.thy ===== *)
theory Downstream
  imports Session
begin

text \<open>
  \<open>src/downstream.rs\<close>: the upgrade check of the charger's WebSocket, the table of active connections,
  and the life of a connection. Connections run concurrently and share the table, the command
  router, the state manager and the event channel, each under its own lock; a schedule is any
  interleaving of their critical sections. The lemmas show which upgrades are accepted, that the
  table never keeps an entry of a finished connection, and one interleaving in which the router
  loses a live charger.
\<close>

section \<open>The upgrade\<close>

definition OCPP16_SUBPROTOCOL :: string where "OCPP16_SUBPROTOCOL = ''ocpp1.6''"

definition validate_subprotocol :: "string list \<Rightarrow> bool" where
  "validate_subprotocol protocols = list_ex (\<lambda>p. p = OCPP16_SUBPROTOCOL) protocols"

definition parse_subprotocol_header :: "string \<Rightarrow> string list" where
  "parse_subprotocol_header h = filter (\<lambda>s. s \<noteq> []) (map trim (split_on CHR '','' h))"

text \<open>\<open>HeaderValue::to_str\<close> succeeds on visible ASCII, blanks and tabs.\<close>

definition header_to_str :: "string \<Rightarrow> string option" where
  "header_to_str h =
     (if list_all (\<lambda>c. let n = (of_char c :: nat) in n = 9 \<or> 32 \<le> n \<and> n < 127) h then Some h else None)"

text \<open>The response: HTTP 400 with its body, or the upgrade with the selected subprotocol.\<close>

datatype upgrade_response = BadRequest string | Upgrade string

section \<open>Shared state\<close>

record active_connection =
  ac_generation :: u64
  ac_cancel :: nat

text \<open>Cancellation tokens are numbers; \<open>cancelled\<close> lists the cancelled ones.\<close>

record 'tx downstream_state =
  connections :: "string \<rightharpoonup> active_connection"
  ds_manager :: state_manager
  ds_mqtt_tx :: "mqtt_event channel"
  next_generation :: u64
  cancelled :: "nat list"
  ds_router :: "'tx command_router"

definition ws_upgrade_handler ::
    "utc \<Rightarrow> string option \<Rightarrow> 'tx downstream_state \<Rightarrow> upgrade_response \<times> 'tx downstream_state" where
  "ws_upgrade_handler now header st =
     (let valid = (case header of
            None \<Rightarrow> False
          | Some h \<Rightarrow> (case header_to_str h of
                None \<Rightarrow> False
              | Some s \<Rightarrow> validate_subprotocol (parse_subprotocol_header s)))
      in if \<not> valid then (BadRequest ''WebSocket subprotocol ocpp1.6 is required'', st)
         else (Upgrade OCPP16_SUBPROTOCOL,
               st\<lparr>ds_manager := transition now Downstream Connecting (ds_manager st)\<rparr>))"

section \<open>The connection table\<close>

text \<open>\<open>fetch_add\<close> on the generation counter, then the insertion under the table's lock.\<close>

definition fetch_generation :: "'tx downstream_state \<Rightarrow> u64 \<times> 'tx downstream_state" where
  "fetch_generation st = (next_generation st, st\<lparr>next_generation := next_generation st + 1\<rparr>)"

definition insert_connection ::
    "string \<Rightarrow> u64 \<Rightarrow> nat \<Rightarrow> 'tx downstream_state \<Rightarrow> 'tx downstream_state" where
  "insert_connection cp g token st =
     (let st' = st\<lparr>connections := (connections st)(cp \<mapsto> \<lparr>ac_generation = g, ac_cancel = token\<rparr>)\<rparr>
      in case connections st cp of
           None \<Rightarrow> st'
         | Some existing \<Rightarrow> st'\<lparr>cancelled := ac_cancel existing # cancelled st\<rparr>)"

definition register_connection ::
    "string \<Rightarrow> nat \<Rightarrow> 'tx downstream_state \<Rightarrow> u64 \<times> 'tx downstream_state" where
  "register_connection cp token st =
     (let (g, st') = fetch_generation st in (g, insert_connection cp g token st'))"

definition deregister_connection ::
    "string \<Rightarrow> u64 \<Rightarrow> 'tx downstream_state \<Rightarrow> bool \<times> 'tx downstream_state" where
  "deregister_connection cp g st =
     (case connections st cp of
        Some active \<Rightarrow>
          if ac_generation active = g then (True, st\<lparr>connections := (connections st)(cp := None)\<rparr>) else (False, st)
      | None \<Rightarrow> (False, st))"

definition table_entry :: "'tx downstream_state \<Rightarrow> string \<Rightarrow> u64 option" where
  "table_entry st cp = map_option ac_generation (connections st cp)"

interpretation table: generation_registry table_entry insert_connection deregister_connection
  by unfold_locales
     (auto simp: table_entry_def insert_connection_def deregister_connection_def Let_def fun_eq_iff split: option.splits)

section \<open>The life of a connection\<close>

definition ds_publish_status ::
    "string \<Rightarrow> state_manager \<Rightarrow> 'tx downstream_state \<Rightarrow> 'tx downstream_state" where
  "ds_publish_status cp m st =
     st\<lparr>ds_mqtt_tx := snd (try_send (ds_mqtt_tx st) (StateChanged cp (upstream_state m) (downstream_state m)))\<rparr>"

definition announce :: "utc \<Rightarrow> string \<Rightarrow> connection_state \<Rightarrow> 'tx downstream_state \<Rightarrow> 'tx downstream_state" where
  "announce now cp s st =
     (let m = transition now Downstream s (ds_manager st)
      in ds_publish_status cp m (st\<lparr>ds_manager := m\<rparr>))"

text \<open>
  \<open>handle_connection\<close>, one critical section at a time: the counter, the table, the router, the state
  announcement, the session (between \<open>Running\<close> and \<open>Finished\<close>), and the same in reverse.
\<close>

datatype phase =
    Accepted_socket
  | Fetched u64
  | Tabled u64
  | Routed u64
  | Running u64
  | Finished u64
  | Unrouted u64
  | StillCurrent
  | Closed_down

record 'tx task =
  task_cp :: string
  task_tx :: 'tx
  task_phase :: phase

text \<open>Task \<open>i\<close> owns the cancellation token \<open>i\<close>.\<close>

definition advance ::
    "utc \<Rightarrow> nat \<Rightarrow> 'tx task \<Rightarrow> 'tx downstream_state \<Rightarrow> 'tx task \<times> 'tx downstream_state" where
  "advance now i t st =
     (let cp = task_cp t in
      case task_phase t of
        Accepted_socket \<Rightarrow> (let (g, st') = fetch_generation st in (t\<lparr>task_phase := Fetched g\<rparr>, st'))
      | Fetched g \<Rightarrow> (t\<lparr>task_phase := Tabled g\<rparr>, insert_connection cp g i st)
      | Tabled g \<Rightarrow> (t\<lparr>task_phase := Routed g\<rparr>, st\<lparr>ds_router := router_register cp g (task_tx t) (ds_router st)\<rparr>)
      | Routed g \<Rightarrow> (t\<lparr>task_phase := Running g\<rparr>, announce now cp Connected st)
      | Running g \<Rightarrow> (t\<lparr>task_phase := Finished g\<rparr>, st)
      | Finished g \<Rightarrow> (t\<lparr>task_phase := Unrouted g\<rparr>, st\<lparr>ds_router := snd (router_deregister cp g (ds_router st))\<rparr>)
      | Unrouted g \<Rightarrow>
          (let (still_current, st') = deregister_connection cp g st
           in (t\<lparr>task_phase := if still_current then StillCurrent else Closed_down\<rparr>, st'))
      | StillCurrent \<Rightarrow> (t\<lparr>task_phase := Closed_down\<rparr>, announce now cp Disconnected st)
      | Closed_down \<Rightarrow> (t, st))"

record 'tx world =
  shared :: "'tx downstream_state"
  tasks :: "'tx task list"

datatype 'tx action = Arrive string 'tx | Advance nat

definition perform :: "utc \<Rightarrow> 'tx action \<Rightarrow> 'tx world \<Rightarrow> 'tx world" where
  "perform now a w =
     (case a of
        Arrive cp t \<Rightarrow> w\<lparr>tasks := tasks w @ [\<lparr>task_cp = cp, task_tx = t, task_phase = Accepted_socket\<rparr>]\<rparr>
      | Advance i \<Rightarrow>
          if i < length (tasks w)
          then (let (t, st) = advance now i (tasks w ! i) (shared w)
                in w\<lparr>shared := st, tasks := (tasks w)[i := t]\<rparr>)
          else w)"

inductive reachable_world :: "'tx world \<Rightarrow> 'tx world \<Rightarrow> bool" for w0 where
  start: "reachable_world w0 w0"
| step: "reachable_world w0 w \<Longrightarrow> reachable_world w0 (perform now a w)"

inductive_cases reachable_worldE: "reachable_world w0 w"

section \<open>No stale entries\<close>

fun in_table :: "phase \<Rightarrow> u64 option" where
  "in_table (Tabled g) = Some g"
| "in_table (Routed g) = Some g"
| "in_table (Running g) = Some g"
| "in_table (Finished g) = Some g"
| "in_table (Unrouted g) = Some g"
| "in_table _ = None"

definition table_live :: "'tx world \<Rightarrow> bool" where
  "table_live w \<longleftrightarrow>
     (\<forall>cp g. table_entry (shared w) cp = Some g \<longrightarrow>
        (\<exists>t \<in> set (tasks w). task_cp t = cp \<and> in_table (task_phase t) = Some g))"

lemma announce_table [simp]: "table_entry (announce now cp s st) = table_entry st"
  by (simp add: announce_def ds_publish_status_def table_entry_def Let_def fun_eq_iff)

lemma fetch_table [simp]: "table_entry (snd (fetch_generation st)) = table_entry st"
  by (simp add: fetch_generation_def table_entry_def fun_eq_iff)

lemma router_table [simp]: "table_entry (st\<lparr>ds_router := r\<rparr>) = table_entry st"
  by (simp add: table_entry_def fun_eq_iff)

text \<open>What one step of a task does to the table, and how its own place in it follows.\<close>

lemma advance_table:
  assumes "advance now i t st = (t', st')"
  shows "task_cp t' = task_cp t"
    and "table_entry st' cp = Some g \<Longrightarrow>
       table_entry st cp = Some g \<and> (task_cp t = cp \<and> in_table (task_phase t) = Some g \<longrightarrow> in_table (task_phase t') = Some g)
       \<or> cp = task_cp t \<and> in_table (task_phase t') = Some g"
proof -
  show "task_cp t' = task_cp t"
    using assms by (auto simp: advance_def Let_def split: phase.splits prod.splits)
  assume e: "table_entry st' cp = Some g"
  show "table_entry st cp = Some g \<and> (task_cp t = cp \<and> in_table (task_phase t) = Some g \<longrightarrow> in_table (task_phase t') = Some g)
       \<or> cp = task_cp t \<and> in_table (task_phase t') = Some g"
    using assms e
    by (cases "task_phase t")
       (auto simp: advance_def Let_def case_prod_unfold table.entry_register table.entry_deregister split: if_splits)
qed

lemma table_live_advance:
  assumes live: "table_live w" and i: "i < length (tasks w)"
    and a: "advance now i (tasks w ! i) (shared w) = (t', st')"
  shows "table_live (w\<lparr>shared := st', tasks := (tasks w)[i := t']\<rparr>)"
  unfolding table_live_def
proof (intro allI impI)
  fix cp g
  assume "table_entry (shared (w\<lparr>shared := st', tasks := (tasks w)[i := t']\<rparr>)) cp = Some g"
  then have e: "table_entry st' cp = Some g" by simp
  have new: "t' \<in> set ((tasks w)[i := t'])" using i by (simp add: set_update_memI)
  consider "cp = task_cp (tasks w ! i)" "in_table (task_phase t') = Some g"
    | "table_entry (shared w) cp = Some g"
      "task_cp (tasks w ! i) = cp \<and> in_table (task_phase (tasks w ! i)) = Some g \<longrightarrow> in_table (task_phase t') = Some g"
    using advance_table(2)[OF a e] by blast
  then show "\<exists>t \<in> set (tasks (w\<lparr>shared := st', tasks := (tasks w)[i := t']\<rparr>)). task_cp t = cp \<and> in_table (task_phase t) = Some g"
  proof cases
    case 1
    then show ?thesis using new advance_table(1)[OF a] by auto
  next
    case 2
    then obtain t where t: "t \<in> set (tasks w)" "task_cp t = cp" "in_table (task_phase t) = Some g"
      using live by (auto simp: table_live_def)
    then obtain j where j: "j < length (tasks w)" "tasks w ! j = t" by (auto simp: in_set_conv_nth)
    show ?thesis
    proof (cases "j = i")
      case True
      then show ?thesis using 2 t j new advance_table(1)[OF a] by auto
    next
      case False
      then have "(tasks w)[i := t'] ! j = t" using j by simp
      then have "t \<in> set ((tasks w)[i := t'])" using j(1) by (metis length_list_update nth_mem)
      then show ?thesis using t by auto
    qed
  qed
qed

lemma table_live_perform: "table_live w \<Longrightarrow> table_live (perform now a w)"
proof (cases a)
  case (Arrive cp t)
  then show "table_live w \<Longrightarrow> table_live (perform now a w)" by (auto simp: perform_def table_live_def)
next
  case (Advance i)
  obtain t' st' where "advance now i (tasks w ! i) (shared w) = (t', st')" by fastforce
  then show "table_live w \<Longrightarrow> table_live (perform now a w)"
    using Advance table_live_advance[of w i now t' st'] by (simp add: perform_def Let_def)
qed

lemma reachable_table_live: "reachable_world w0 w \<Longrightarrow> table_live w0 \<Longrightarrow> table_live w"
  by (induction rule: reachable_world.induct) (auto simp: table_live_perform)

section \<open>Properties\<close>

text \<open>
  A charger is admitted exactly when it offers the subprotocol: the upgrade succeeds if and only if
  the header is present and printable and one of its comma-separated names, trimmed, is
  \<open>ocpp1.6\<close>; a refused request changes nothing.
\<close>

lemma admitted_exactly_with_subprotocol:
  "(fst (ws_upgrade_handler now header st) = Upgrade ''ocpp1.6'' \<longleftrightarrow>
      (\<exists>h. header = Some h \<and> header_to_str h = Some h \<and> ''ocpp1.6'' \<in> trim ` set (split_on CHR '','' h)))
   \<and> (fst (ws_upgrade_handler now header st) \<noteq> Upgrade ''ocpp1.6'' \<longrightarrow> snd (ws_upgrade_handler now header st) = st)"
  by (auto simp: ws_upgrade_handler_def Let_def header_to_str_def validate_subprotocol_def
      parse_subprotocol_header_def OCPP16_SUBPROTOCOL_def list_ex_iff image_iff split: option.splits if_splits)

definition demo_downstream :: "unit downstream_state" where
  "demo_downstream = \<lparr>connections = Map.empty, ds_manager = manager_new, ds_mqtt_tx = channel_new 1000,
     next_generation = 1, cancelled = [], ds_router = Map.empty\<rparr>"

text \<open>
  A new connection takes over and its predecessor cannot undo it: registering returns the
  generation now in the table and cancels the session it displaces, and when the displaced session
  later deregisters its own generation the newer entry stays.
\<close>

lemma newer_connection_survives:
  assumes "connections st cp = Some old" "ac_generation old \<noteq> next_generation st"
    and "register_connection cp token st = (g, st')"
  shows "table_entry st' cp = Some g \<and> ac_cancel old \<in> set (cancelled st')
    \<and> deregister_connection cp (ac_generation old) st' = (False, st')"
proof -
  have g: "g = next_generation st" and st': "st' = insert_connection cp g token (st\<lparr>next_generation := next_generation st + 1\<rparr>)"
    using assms(3) by (auto simp: register_connection_def fetch_generation_def)
  have "table_entry st' cp = Some g" by (simp add: st' table.entry_register)
  moreover have "ac_cancel old \<in> set (cancelled st')"
    using assms(1) by (simp add: st' insert_connection_def Let_def)
  moreover have "deregister_connection cp (ac_generation old) st' = (False, st')"
    using \<open>table_entry st' cp = Some g\<close> assms(2) g by (auto simp: deregister_connection_def table_entry_def split: option.splits)
  ultimately show ?thesis by blast
qed

text \<open>
  The drain at shutdown can finish. In every interleaving, once all connection handlers have
  finished, the table is empty: no entry outlives the connection that made it.
\<close>

lemma table_empties:
  assumes "reachable_world \<lparr>shared = st, tasks = []\<rparr> w" "connections st = Map.empty"
    and "\<forall>t \<in> set (tasks w). task_phase t \<in> {Accepted_socket, StillCurrent, Closed_down}"
  shows "connections (shared w) = Map.empty"
proof
  fix cp
  have "table_live \<lparr>shared = st, tasks = []\<rparr>" using assms(2) by (simp add: table_live_def table_entry_def)
  then have "table_live w" using reachable_table_live[OF assms(1)] by blast
  then have "table_entry (shared w) cp = None"
    using assms(3) by (cases "table_entry (shared w) cp") (fastforce simp: table_live_def)+
  then show "connections (shared w) cp = None" by (simp add: table_entry_def)
qed

fun run_schedule :: "'tx action list \<Rightarrow> 'tx world \<Rightarrow> 'tx world" where
  "run_schedule [] w = w"
| "run_schedule (a # as) w = run_schedule as (perform 0 a w)"

lemma run_schedule_reachable: "reachable_world w0 w \<Longrightarrow> reachable_world w0 (run_schedule as w)"
  by (induction as arbitrary: w) (auto intro: reachable_world.step)

lemmas schedule_simps = perform_def advance_def fetch_generation_def insert_connection_def
  deregister_connection_def router_register_def router_deregister_def announce_def ds_publish_status_def Let_def

definition demo_world :: "unit world" where
  "demo_world = \<lparr>shared = demo_downstream, tasks = []\<rparr>"

text \<open>
  C37: The table and the router can disagree. When two connections of the same charger overlap, the
  older one can register with the router after the newer one; its end then removes the router's
  entry, and the charger is connected and in the table but cannot be reached by a command.
\<close>

theorem router_loses_live_charger:
  "\<exists>as. let w = run_schedule as demo_world
        in map task_phase (tasks w) = [Closed_down, Running 2]
         \<and> table_entry (shared w) ''CP1'' = Some 2
         \<and> \<not> is_connected ''CP1'' (ds_router (shared w))"
proof -
  let ?as = "[Arrive ''CP1'' (), Arrive ''CP1'' (), Advance 0, Advance 0, Advance 1, Advance 1, Advance 1, Advance 1,
     Advance 0, Advance 0, Advance 0, Advance 0, Advance 0]"
  show ?thesis
    by (rule exI[of _ ?as])
       (simp add: demo_world_def demo_downstream_def schedule_simps table_entry_def is_connected_def)
qed

end
