(* ===== verification/Upstream.thy ===== *)
theory Upstream
  imports Settings
begin

text \<open>
  \<open>src/upstream.rs\<close>: the Central System's URL for a charge point and the connection attempt, with or
  without a source address. URLs, name resolution, sockets and the WebSocket handshake belong to
  other crates and are the fields of \<open>net\<close>. The lemmas show that every failure is an upstream
  connection error and that a bound connection goes to the first address of the right family
  that answers.
\<close>

definition CONNECT_TIMEOUT :: duration where "CONNECT_TIMEOUT = from_secs 10"

text \<open>\<open>get_path\<close> and \<open>set_path\<close> are those of \<open>url::Url\<close>.\<close>

definition build_upstream_url :: "('url \<Rightarrow> string) \<Rightarrow> (string \<Rightarrow> 'url \<Rightarrow> 'url) \<Rightarrow> 'url \<Rightarrow> string \<Rightarrow> 'url" where
  "build_upstream_url get_path set_path base cp =
     (let path = get_path base;
          path = (if ends_with ''/'' path then path else path @ ''/'')
      in set_path (path @ cp) base)"

type_synonym sock_addr = "ip_addr \<times> 16 word"

record ('url, 'req, 'tcp, 'ws) net =
  into_client_request :: "'url \<Rightarrow> string + 'req"
  insert_subprotocol :: "string \<Rightarrow> 'req \<Rightarrow> string + 'req"
  connect_tls :: "'req \<Rightarrow> string + 'ws"
  client_tls :: "'req \<Rightarrow> 'tcp \<Rightarrow> string + 'ws"
  host_str :: "'url \<Rightarrow> string option"
  port_or_known_default :: "'url \<Rightarrow> 16 word option"
  lookup_host :: "string \<Rightarrow> 16 word \<Rightarrow> string + sock_addr list"
  new_socket :: "sock_addr \<Rightarrow> string + unit"
  bind_socket :: "ip_addr \<Rightarrow> sock_addr \<Rightarrow> string + unit"
  connect_socket :: "sock_addr \<Rightarrow> string + 'tcp"
  show_ip :: "ip_addr \<Rightarrow> string"

definition quote :: "string \<Rightarrow> string" where
  "quote s = [CHR 0x27] @ s @ [CHR 0x27]"

text \<open>The loop over the candidate addresses; \<open>last_err\<close> is the error of the latest failed attempt.\<close>

fun try_addresses ::
    "('url, 'req, 'tcp, 'ws) net \<Rightarrow> string \<Rightarrow> ip_addr \<Rightarrow> sock_addr list \<Rightarrow> string option \<Rightarrow> proxy_error + 'tcp" where
  "try_addresses N host bind [] last_err =
     Inl (ConnectionUpstream (case last_err of
        Some e \<Rightarrow> ''Failed to connect to '' @ quote host @ '': '' @ e
      | None \<Rightarrow> ''No address for '' @ quote host @ '' matching bind family '' @ show_ip N bind))"
| "try_addresses N host bind (a # as) last_err =
     (case new_socket N a of
        Inl e \<Rightarrow> Inl (ConnectionUpstream (''Failed to create socket: '' @ e))
      | Inr _ \<Rightarrow>
         (case bind_socket N bind a of
            Inl e \<Rightarrow> Inl (ConnectionUpstream (''Failed to bind upstream socket to '' @ show_ip N bind @ '': '' @ e))
          | Inr _ \<Rightarrow>
             (case connect_socket N a of
                Inr stream \<Rightarrow> Inr stream
              | Inl e \<Rightarrow> try_addresses N host bind as (Some e))))"

definition connect_bound :: "('url, 'req, 'tcp, 'ws) net \<Rightarrow> 'url \<Rightarrow> ip_addr \<Rightarrow> proxy_error + 'tcp" where
  "connect_bound N url bind =
     (case host_str N url of
        None \<Rightarrow> Inl (ConnectionUpstream ''Central System URL has no host'')
      | Some host \<Rightarrow>
         (let port = (case port_or_known_default N url of None \<Rightarrow> 80 | Some p \<Rightarrow> p)
          in case lookup_host N host port of
               Inl e \<Rightarrow> Inl (ConnectionUpstream (''Failed to resolve '' @ quote host @ '': '' @ e))
             | Inr addrs \<Rightarrow>
                 try_addresses N host bind (filter (\<lambda>a. is_ipv4 (fst a) = is_ipv4 bind) addrs) None))"

definition handshake_error :: "string \<Rightarrow> proxy_error" where
  "handshake_error e = ConnectionUpstream (''WebSocket connection failed: '' @ e)"

text \<open>\<open>took\<close> is how long the attempt takes.\<close>

definition connect_upstream ::
    "('url, 'req, 'tcp, 'ws) net \<Rightarrow> 'url \<Rightarrow> string \<Rightarrow> ip_addr option \<Rightarrow> duration \<Rightarrow> duration \<Rightarrow> proxy_error + 'ws" where
  "connect_upstream N url subprotocol bind_address connect_timeout took =
     (case into_client_request N url of
        Inl e \<Rightarrow> Inl (ConnectionUpstream (''Failed to build WebSocket request: '' @ e))
      | Inr plain \<Rightarrow>
         (case insert_subprotocol N subprotocol plain of
            Inl e \<Rightarrow> Inl (ConnectionUpstream (''Invalid subprotocol header value: '' @ e))
          | Inr request \<Rightarrow>
             if connect_timeout < took then
               Inl (ConnectionUpstream (''Connection timed out after ''
                 @ show_nat (connect_timeout div nanos_per_sec) @ '' seconds''))
             else (case bind_address of
                 None \<Rightarrow>
                   (case connect_tls N request of Inl e \<Rightarrow> Inl (handshake_error e) | Inr ws \<Rightarrow> Inr ws)
               | Some bind \<Rightarrow>
                   (case connect_bound N url bind of
                      Inl e \<Rightarrow> Inl e
                    | Inr stream \<Rightarrow>
                       (case client_tls N request stream of
                          Inl e \<Rightarrow> Inl (handshake_error e) | Inr ws \<Rightarrow> Inr ws)))))"

section \<open>Facts\<close>

lemma try_addresses_error: "try_addresses N host bind as l = Inl e \<Longrightarrow> category e = ''connection_upstream''"
  by (induction as arbitrary: l) (auto split: sum.splits)

lemma connect_bound_error: "connect_bound N url bind = Inl e \<Longrightarrow> category e = ''connection_upstream''"
  by (auto simp: connect_bound_def Let_def try_addresses_error split: option.splits sum.splits)

text \<open>Every failed attempt is an upstream connection error, which the session retries.\<close>

lemma connect_upstream_error:
  "connect_upstream N url sub bind limit took = Inl e \<Longrightarrow> category e = ''connection_upstream''"
  by (auto simp: connect_upstream_def handshake_error_def connect_bound_error
      split: sum.splits option.splits if_splits)

text \<open>The first address that answers, after only refusals.\<close>

lemma try_addresses_first:
  "try_addresses N host bind as l = Inr s \<Longrightarrow>
     \<exists>before a after. as = before @ a # after \<and> connect_socket N a = Inr s \<and> (\<forall>b \<in> set before. isl (connect_socket N b))"
proof (induction as arbitrary: l)
  case (Cons a as)
  show ?case
  proof (cases "connect_socket N a")
    case (Inr t)
    then have "t = s" using Cons.prems by (auto split: sum.splits)
    with Inr have "a # as = [] @ a # as \<and> connect_socket N a = Inr s \<and> (\<forall>b \<in> set []. isl (connect_socket N b))" by simp
    then show ?thesis by blast
  next
    case (Inl e)
    then have "try_addresses N host bind as (Some e) = Inr s" using Cons.prems by (auto split: sum.splits)
    then obtain before b after where "as = before @ b # after" "connect_socket N b = Inr s" "\<forall>c \<in> set before. isl (connect_socket N c)"
      using Cons.IH by blast
    then show ?thesis using Inl by (intro exI[of _ "a # before"]) auto
  qed
qed simp

lemma connect_bound_family:
  assumes "connect_bound N url bind = Inr s"
  shows "\<exists>host port addrs a. lookup_host N host port = Inr addrs \<and> a \<in> set addrs
    \<and> is_ipv4 (fst a) = is_ipv4 bind \<and> connect_socket N a = Inr s"
proof -
  obtain host addrs port where l: "lookup_host N host port = Inr addrs"
    "try_addresses N host bind (filter (\<lambda>a. is_ipv4 (fst a) = is_ipv4 bind) addrs) None = Inr s"
    using assms by (auto simp: connect_bound_def Let_def split: option.splits sum.splits)
  obtain before a after where a: "filter (\<lambda>a. is_ipv4 (fst a) = is_ipv4 bind) addrs = before @ a # after"
    "connect_socket N a = Inr s"
    using try_addresses_first[OF l(2)] by blast
  have "a \<in> set (filter (\<lambda>a. is_ipv4 (fst a) = is_ipv4 bind) addrs)" by (simp add: a(1))
  then have "a \<in> set addrs" "is_ipv4 (fst a) = is_ipv4 bind" by simp_all
  with l(1) a(2) show ?thesis by blast
qed

text \<open>The charge point id becomes the last path segment, after exactly one slash.\<close>

lemma build_upstream_url_path:
  assumes "\<And>p u. get_path (set_path p u) = p"
  shows "\<exists>root. get_path (build_upstream_url get_path set_path base cp) = root @ ''/'' @ cp
    \<and> (get_path base = root \<or> get_path base = root @ ''/'')"
proof (cases "ends_with ''/'' (get_path base)")
  case True
  then have "take 1 (rev (get_path base)) = ''/''" by (simp add: ends_with_def starts_with_def)
  then obtain r where "rev (get_path base) = CHR ''/'' # r" by (cases "rev (get_path base)") auto
  then have "get_path base = rev r @ ''/''" by (metis rev.simps(2) rev_swap)
  then show ?thesis using True assms by (simp add: build_upstream_url_def Let_def)
next
  case False
  then show ?thesis using assms by (simp add: build_upstream_url_def Let_def)
qed

end
