(* ===== verification/Logging.thy ===== *)
theory Logging
  imports Settings
begin

text \<open>
  \<open>src/logging.rs\<close> and the log lines of start-up and shutdown (\<open>shutdown.rs\<close>, \<open>main.rs\<close>), as values: an entry is
  what the macro hands to the subscriber. The filter, the layer and the subscriber belong to \<open>tracing-subscriber\<close>; the
  filter's constructors are arguments. The lemmas show which filter is chosen and when a latency is warned of.
\<close>

section \<open>src/logging.rs\<close>

datatype log_value = LogStr string | LogNum nat | LogF64 f64 | LogBool bool

record log_entry =
  log_level_of :: log_level
  log_fields :: "(string \<times> log_value) list"
  log_message :: string

text \<open>The options of the JSON layer.\<close>

record log_layer =
  layer_json :: bool
  layer_rfc3339 :: bool
  with_target :: bool
  with_level :: bool
  with_thread_ids :: bool
  with_thread_names :: bool
  with_span_list :: bool
  with_current_span :: bool

definition default_directive :: "log_level \<Rightarrow> string" where
  "default_directive l =
     (case l of LogDebug \<Rightarrow> ''debug'' | LogInfo \<Rightarrow> ''info'' | LogWarning \<Rightarrow> ''warn'' | LogError \<Rightarrow> ''error'')"

text \<open>\<open>from_env\<close> is \<open>EnvFilter::try_from_default_env\<close> on \<open>RUST_LOG\<close>, \<open>new_filter\<close> is \<open>EnvFilter::new\<close>.\<close>

definition build_env_filter :: "'e + 'f \<Rightarrow> (string \<Rightarrow> 'f) \<Rightarrow> log_level \<Rightarrow> 'f" where
  "build_env_filter from_env new_filter l = (case from_env of Inr f \<Rightarrow> f | Inl _ \<Rightarrow> new_filter (default_directive l))"

definition init_logging :: "'e + 'f \<Rightarrow> (string \<Rightarrow> 'f) \<Rightarrow> log_level \<Rightarrow> 'f \<times> log_layer" where
  "init_logging from_env new_filter l =
     (build_env_filter from_env new_filter l,
      \<lparr>layer_json = True, layer_rfc3339 = True, with_target = True, with_level = True, with_thread_ids = False,
       with_thread_names = False, with_span_list = True, with_current_span = True\<rparr>)"

definition log_ocpp_message_summary :: "string \<Rightarrow> string \<Rightarrow> string \<Rightarrow> string \<Rightarrow> log_entry" where
  "log_ocpp_message_summary mt act uid dir =
     \<lparr>log_level_of = LogDebug,
      log_fields = [(''component'', LogStr ''forwarder''), (''message_type'', LogStr mt), (''action'', LogStr act),
        (''unique_id'', LogStr uid), (''direction'', LogStr dir)],
      log_message = ''OCPP message forwarded''\<rparr>"

text \<open>\<open>as_millis() as u64\<close> keeps the low 64 bits.\<close>

definition millis_u64 :: "duration \<Rightarrow> nat" where
  "millis_u64 d = (d div from_millis 1) mod 2 ^ 64"

definition log_latency_warning :: "duration \<Rightarrow> string \<Rightarrow> string \<Rightarrow> log_entry list" where
  "log_latency_warning latency uid dir =
     (let threshold = from_millis 500
      in if threshold < latency
         then [\<lparr>log_level_of = LogWarning,
                log_fields = [(''component'', LogStr ''forwarder''), (''latency_ms'', LogNum (millis_u64 latency)),
                  (''unique_id'', LogStr uid), (''direction'', LogStr dir)],
                log_message = ''Message forwarding latency exceeded 500ms threshold''\<rparr>]
         else [])"

definition log_connection_state_change :: "string \<Rightarrow> string \<Rightarrow> string \<Rightarrow> log_entry" where
  "log_connection_state_change conn prev new =
     \<lparr>log_level_of = LogInfo,
      log_fields = [(''component'', LogStr ''state''), (''connection_id'', LogStr conn), (''previous_state'', LogStr prev),
        (''new_state'', LogStr new)],
      log_message = ''Connection state transition''\<rparr>"

definition log_error :: "string \<Rightarrow> string \<Rightarrow> string option \<Rightarrow> string \<Rightarrow> log_entry" where
  "log_error cat conn uid descr =
     \<lparr>log_level_of = LogError,
      log_fields = [(''component'', LogStr cat), (''connection_id'', LogStr conn),
        (''unique_id'', LogStr (case uid of None \<Rightarrow> ''N/A'' | Some u \<Rightarrow> u)), (''error_category'', LogStr cat)],
      log_message = descr\<rparr>"

text \<open>The warning that \<open>forward_message\<close> logs itself, on whole milliseconds.\<close>

definition FORWARDING_LATENCY_WARNING_MS :: nat where "FORWARDING_LATENCY_WARNING_MS = 500"

definition forwarding_latency_exceeded :: "duration \<Rightarrow> bool" where
  "forwarding_latency_exceeded latency = (FORWARDING_LATENCY_WARNING_MS < latency div from_millis 1)"

section \<open>Log lines of start-up and shutdown\<close>

definition EM_DASH :: string where "EM_DASH = [CHR 0xE2, CHR 0x80, CHR 0x94]"

text \<open>\<open>log_startup_begin\<close> and \<open>log_startup_complete\<close>; the instants are clock readings in nanoseconds.\<close>

definition log_startup_begin :: "nat \<Rightarrow> log_entry \<times> nat" where
  "log_startup_begin now =
     (\<lparr>log_level_of = LogInfo, log_fields = [(''component'', LogStr ''startup'')],
       log_message = ''OCPP Proxy startup sequence initiated''\<rparr>, now)"

definition log_startup_complete :: "nat \<Rightarrow> nat \<Rightarrow> log_entry" where
  "log_startup_complete startup_time now =
     \<lparr>log_level_of = LogInfo,
      log_fields = [(''component'', LogStr ''startup''), (''elapsed_ms'', LogNum (millis_u64 (now - startup_time)))],
      log_message = ''Proxy startup complete '' @ EM_DASH @ '' ready to accept connections''\<rparr>"

definition starting_banner :: "(ip_addr \<Rightarrow> string) \<Rightarrow> proxy_config \<Rightarrow> log_entry" where
  "starting_banner show_addr c =
     \<lparr>log_level_of = LogInfo,
      log_fields = [(''component'', LogStr ''main''), (''listen_address'', LogStr (show_addr (listen_address c))),
        (''listen_port'', LogNum (unat (listen_port c))), (''health_port'', LogNum (unat (health_port c))),
        (''central_system_url'', LogStr (central_system_url c)),
        (''charge_point_id'', LogStr (case charge_point_id_setting c of None \<Rightarrow> ''-'' | Some i \<Rightarrow> i))],
      log_message = ''OCPP Proxy starting''\<rparr>"

definition charging_banner :: "charging_config \<Rightarrow> log_entry" where
  "charging_banner c =
     (if enabled c
      then \<lparr>log_level_of = LogInfo,
            log_fields = [(''component'', LogStr ''main''), (''max_limit_a'', LogF64 (max_limit_a c)),
              (''min_limit_a'', LogF64 (min_limit_a c)), (''purpose'', LogStr (purpose_str (purpose c))),
              (''connector_id'', LogNum (connector_id c)), (''reapply_on_connect'', LogBool (reapply_on_connect c))],
            log_message = ''Charger commands enabled: the proxy will act on ocpp/<id>/command topics''\<rparr>
      else \<lparr>log_level_of = LogInfo, log_fields = [(''component'', LogStr ''main'')],
            log_message = ''Charger commands disabled (charging.enabled = false); the proxy is fully transparent''\<rparr>)"

text \<open>\<open>debug_path\<close> is the \<open>Debug\<close> form of the path, \<open>addr\<close> a socket address as text.\<close>

definition main_entry :: "log_level \<Rightarrow> (string \<times> log_value) list \<Rightarrow> string \<Rightarrow> log_entry" where
  "main_entry l fs msg = \<lparr>log_level_of = l, log_fields = (''component'', LogStr ''main'') # fs, log_message = msg\<rparr>"

definition store_banner :: "(string \<Rightarrow> string) \<Rightarrow> string option \<Rightarrow> log_entry" where
  "store_banner debug_path p =
     (case p of
        None \<Rightarrow> main_entry LogInfo []
          ''Snapshot persistence disabled; previous-session figures will not survive a proxy restart''
      | Some f \<Rightarrow> main_entry LogInfo [(''path'', LogStr (''Some('' @ debug_path f @ '')''))]
          ''Charge point snapshot persisted across restarts'')"

definition socket_addr :: "(ip_addr \<Rightarrow> string) \<Rightarrow> ip_addr \<Rightarrow> 16 word \<Rightarrow> string" where
  "socket_addr show_addr a port =
     (if is_ipv4 a then show_addr a else ''['' @ show_addr a @ '']'') @ '':'' @ show_nat (unat port)"

definition health_banner :: "string \<Rightarrow> string + unit \<Rightarrow> log_entry" where
  "health_banner addr bound =
     (case bound of
        Inr _ \<Rightarrow> main_entry LogInfo [(''addr'', LogStr addr)] ''Health endpoint listening''
      | Inl e \<Rightarrow> main_entry LogError [(''addr'', LogStr addr), (''error'', LogStr e)]
          (''COULD NOT BIND THE HEALTH ENDPOINT '' @ EM_DASH @ '' the proxy will serve chargers but Home Assistant ''
             @ ''will have no health signal. Fix health_port.''))"

definition listener_banner :: "string \<Rightarrow> string + unit \<Rightarrow> log_entry" where
  "listener_banner addr bound =
     (case bound of
        Inr _ \<Rightarrow> main_entry LogInfo [(''addr'', LogStr addr)] ''Listening for charger connections''
      | Inl e \<Rightarrow> main_entry LogError [(''addr'', LogStr addr), (''error'', LogStr e)]
          ''Cannot bind the charger listener; the proxy cannot serve'')"

section \<open>Facts\<close>

text \<open>An override from the environment wins; without one the configured level is the filter.\<close>

lemma filter_choice:
  "build_env_filter (Inr f) new_filter l = f"
  "build_env_filter (Inl e) new_filter l = new_filter (default_directive l)"
  by (simp_all add: build_env_filter_def)

lemma directives_distinct: "default_directive l = default_directive l' \<longleftrightarrow> l = l'"
  by (cases l; cases l') (simp_all add: default_directive_def)

lemma millis_of_long: "from_millis 500 < d \<Longrightarrow> d < from_millis (2 ^ 64) \<Longrightarrow> 500 \<le> millis_u64 d"
proof -
  assume d: "from_millis 500 < d" "d < from_millis (2 ^ 64)"
  have ms: "from_millis n = n * from_millis 1" for n by (simp add: from_millis_def)
  have "0 < from_millis 1" by (simp add: from_millis_def)
  moreover have "500 * from_millis 1 \<le> d" "d < 2 ^ 64 * from_millis 1" using d ms[of 500] ms[of "2 ^ 64"] by linarith+
  ultimately have "500 \<le> d div from_millis 1" "d div from_millis 1 < 2 ^ 64"
    by (simp_all add: less_eq_div_iff_mult_less_eq div_less_iff_less_mult)
  then show ?thesis by (simp add: millis_u64_def)
qed

text \<open>A warning is logged exactly for a latency above half a second, and it names at least 500 ms.\<close>

lemma latency_warned:
  assumes "d < from_millis (2 ^ 64)"
  shows "(log_latency_warning d uid dir \<noteq> []) = (from_millis 500 < d)"
    and "e \<in> set (log_latency_warning d uid dir) \<Longrightarrow> \<exists>n \<ge> 500. (''latency_ms'', LogNum n) \<in> set (log_fields e)"
  using millis_of_long[OF _ assms] by (auto simp: log_latency_warning_def Let_def split: if_splits)

text \<open>The two thresholds agree except in the last millisecond: at 500.5 ms only the helper, which nothing calls, warns.\<close>

lemma forwarder_warns_later:
  "forwarding_latency_exceeded d \<longleftrightarrow> from_millis 501 \<le> d"
  "forwarding_latency_exceeded d \<Longrightarrow> log_latency_warning d uid dir \<noteq> []"
  "\<not> forwarding_latency_exceeded (from_millis 500 + 500000) \<and> log_latency_warning (from_millis 500 + 500000) uid dir \<noteq> []"
proof -
  show exceeded: "forwarding_latency_exceeded d \<longleftrightarrow> from_millis 501 \<le> d" for d
    by (simp add: forwarding_latency_exceeded_def FORWARDING_LATENCY_WARNING_MS_def from_millis_def Suc_le_eq[symmetric]
        less_eq_div_iff_mult_less_eq)
  show "forwarding_latency_exceeded d \<Longrightarrow> log_latency_warning d uid dir \<noteq> []"
    by (simp add: exceeded log_latency_warning_def from_millis_def)
  show "\<not> forwarding_latency_exceeded (from_millis 500 + 500000) \<and> log_latency_warning (from_millis 500 + 500000) uid dir \<noteq> []"
    by (simp add: exceeded log_latency_warning_def from_millis_def)
qed

end
