(* ===== verification/Lifecycle.thy ===== *)
theory Lifecycle
  imports Publisher_Facts Session Downstream Upstream Logging
begin

text \<open>
  \<open>src/shutdown.rs\<close> and the decisions of \<open>src/main.rs\<close>: the checks before anything is bound, the
  configuration handed to sessions and to the publisher, the publisher thread, and the bounded drain
  at shutdown. Spawning tasks, sockets and signal delivery are the runtime's: their outcomes are
  arguments. The lemmas show when the proxy starts and what it then answers, that the drain ends within its
  deadline and that a proxy with charger commands disabled never subscribes to a command topic.
\<close>

section \<open>src/shutdown.rs\<close>

definition INFLIGHT_TIMEOUT :: duration where "INFLIGHT_TIMEOUT = from_secs 10"
definition CLOSE_ACK_TIMEOUT :: duration where "CLOSE_ACK_TIMEOUT = from_secs 5"

record shutdown_coordinator =
  token_cancelled :: bool

definition coordinator_new :: shutdown_coordinator where
  "coordinator_new = \<lparr>token_cancelled = False\<rparr>"

definition is_shutting_down :: "shutdown_coordinator \<Rightarrow> bool" where
  "is_shutting_down c = token_cancelled c"

definition initiate_shutdown :: "shutdown_coordinator \<Rightarrow> shutdown_coordinator" where
  "initiate_shutdown c = c\<lparr>token_cancelled := True\<rparr>"

text \<open>What \<open>initiate_shutdown\<close> logs before it cancels the token.\<close>

definition shutdown_entry :: log_entry where
  "shutdown_entry = \<lparr>log_level_of = LogInfo, log_fields = [(''component'', LogStr ''shutdown'')],
     log_message = ''Initiating graceful shutdown''\<rparr>"

text \<open>
  The first signal to arrive; the second branch is taken whether \<open>ctrl_c\<close> returns a signal or an error. A
  SIGTERM handler that cannot be registered is a panic, \<open>None\<close>.
\<close>

datatype signal_outcome = SigtermReceived | CtrlC "string + unit"

definition signal_entry :: "string \<Rightarrow> log_entry" where
  "signal_entry name =
     \<lparr>log_level_of = LogInfo, log_fields = [(''component'', LogStr ''shutdown''), (''signal'', LogStr name)],
      log_message = ''Received shutdown signal''\<rparr>"

definition wait_for_shutdown_signal :: "string + unit \<Rightarrow> signal_outcome \<Rightarrow> (string \<times> log_entry) option" where
  "wait_for_shutdown_signal registered first =
     (case registered of
        Inl _ \<Rightarrow> None
      | Inr _ \<Rightarrow> (let name = (case first of SigtermReceived \<Rightarrow> ''SIGTERM'' | CtrlC _ \<Rightarrow> ''SIGINT'') in Some (name, signal_entry name)))"

text \<open>The task that turns a signal into the shutdown of the proxy.\<close>

definition signal_task ::
    "string + unit \<Rightarrow> signal_outcome \<Rightarrow> shutdown_coordinator \<Rightarrow> (shutdown_coordinator \<times> log_entry list) option" where
  "signal_task registered first c =
     (case wait_for_shutdown_signal registered first of
        None \<Rightarrow> None
      | Some (name, entry) \<Rightarrow>
          Some (initiate_shutdown c,
            [entry, main_entry LogInfo [(''signal'', LogStr name)] ''Shutdown signal received'', shutdown_entry]))"

section \<open>Start-up\<close>

definition UPSTREAM_CONNECT_TIMEOUT :: duration where "UPSTREAM_CONNECT_TIMEOUT = from_secs 10"
definition UPSTREAM_INITIAL_BACKOFF :: duration where "UPSTREAM_INITIAL_BACKOFF = from_secs 2"
definition UPSTREAM_RECONNECT_WINDOW :: duration where "UPSTREAM_RECONNECT_WINDOW = from_secs 300"
definition MAX_BUFFER_DURATION :: duration where "MAX_BUFFER_DURATION = from_secs 30"
definition CALL_TRACKER_MAX_AGE :: duration where "CALL_TRACKER_MAX_AGE = from_secs 300"
definition MQTT_STARTUP_TIMEOUT :: duration where "MQTT_STARTUP_TIMEOUT = from_secs 10"

text \<open>
  \<open>v4\<close> and \<open>v6\<close> are the outcomes of creating a socket, \<open>bind\<close> that of binding it to the address.
\<close>

definition verify_local_address ::
    "string + unit \<Rightarrow> string + unit \<Rightarrow> (ip_addr \<Rightarrow> string + unit) \<Rightarrow> ip_addr \<Rightarrow> string + unit" where
  "verify_local_address v4 v6 bind a =
     (case v4 of
        Inl e \<Rightarrow> Inl (''cannot create socket: '' @ e)
      | Inr _ \<Rightarrow>
         (case (if is_ipv4 a then v4 else v6) of
            Inl e \<Rightarrow> Inl (''cannot create socket: '' @ e)
          | Inr _ \<Rightarrow>
             (case bind a of
                Inl e \<Rightarrow> Inl (''is not an address on any local interface ('' @ e @ '')'')
              | Inr _ \<Rightarrow> Inr ())))"

text \<open>The fatal exits before anything is bound. \<open>parse_url\<close> is \<open>Url::parse\<close>, a URL standing for its text.\<close>

definition startup_checks ::
    "(string \<Rightarrow> string + string) \<Rightarrow> (ip_addr \<Rightarrow> string + unit) \<Rightarrow> (ip_addr \<Rightarrow> string)
      \<Rightarrow> proxy_error + proxy_config \<Rightarrow> string + proxy_config \<times> string" where
  "startup_checks parse_url verify show_addr loaded =
     (case loaded of
        Inl e \<Rightarrow> Inl (''FATAL: '' @ display_error e)
      | Inr c \<Rightarrow>
         (case parse_url (central_system_url c) of
            Inl e \<Rightarrow> Inl (''FATAL: [config] central_system_url is not a valid URL (''
                        @ quote (central_system_url c) @ ''): '' @ e)
          | Inr url \<Rightarrow>
             (case upstream_bind_address c of
                None \<Rightarrow> Inr (c, url)
              | Some bind \<Rightarrow>
                 (case verify bind of
                    Inl e \<Rightarrow> Inl (''FATAL: [config] upstream_bind_address '' @ show_addr bind @ '': '' @ e)
                  | Inr _ \<Rightarrow> Inr (c, url)))))"

definition snapshot_store_of :: "proxy_config \<Rightarrow> snapshot_store" where
  "snapshot_store_of c = \<lparr>store_path = if trim (state_file c) = [] then None else Some (state_file c)\<rparr>"

definition session_config_of :: "proxy_config \<Rightarrow> string \<Rightarrow> session_config" where
  "session_config_of c url =
     \<lparr>sc_central_system_url = url, sc_upstream_bind_address = upstream_bind_address c,
      sc_subprotocol = OCPP16_SUBPROTOCOL, sc_connect_timeout = UPSTREAM_CONNECT_TIMEOUT,
      sc_message_buffer_size = message_buffer_size (buffers c), sc_max_buffer_duration = MAX_BUFFER_DURATION,
      sc_initial_backoff = UPSTREAM_INITIAL_BACKOFF, sc_max_backoff = from_secs (max_backoff_seconds (buffers c)),
      max_reconnect_window = UPSTREAM_RECONNECT_WINDOW, call_tracker_max_age = CALL_TRACKER_MAX_AGE,
      sc_charging = charging c\<rparr>"

definition downstream_state_of :: "state_manager \<Rightarrow> 'tx downstream_state" where
  "downstream_state_of m =
     \<lparr>connections = Map.empty, ds_manager = m, ds_mqtt_tx = channel_new 1000, next_generation = 1,
      cancelled = [], ds_router = Map.empty\<rparr>"

text \<open>What the platform answers to the calls \<open>main\<close> makes while it starts, and its clock then and when it is done.\<close>

record platform =
  parse_url :: "string \<Rightarrow> string + string"
  local_address :: "ip_addr \<Rightarrow> string + unit"
  show_addr :: "ip_addr \<Rightarrow> string"
  debug_path :: "string \<Rightarrow> string"
  thread_spawn :: "string + unit"
  health_bind :: "string + unit"
  listener_bind :: "string + unit"
  started_at :: nat
  ready_at :: nat

text \<open>
  Binding the two ports: a health endpoint that cannot be bound is only reported, a charger listener
  that cannot be bound ends the process. The boolean says whether the health endpoint is served.
\<close>

definition bind_ports :: "platform \<Rightarrow> proxy_config \<Rightarrow> state_manager \<Rightarrow> log_entry list + bool \<times> state_manager \<times> log_entry list" where
  "bind_ports P c m =
     (let h = health_banner (socket_addr (show_addr P) (V4 0) (health_port c)) (health_bind P);
          l = listener_banner (socket_addr (show_addr P) (listen_address c) (listen_port c)) (listener_bind P)
      in case listener_bind P of
           Inl _ \<Rightarrow> Inl [h, l]
         | Inr _ \<Rightarrow> Inr (\<not> isl (health_bind P), set_listener_bound True m, [h, l]))"

section \<open>The publisher\<close>

definition build_publisher ::
    "ext \<Rightarrow> (string \<Rightarrow> string + string) \<Rightarrow> (mqtt_options \<Rightarrow> nat \<Rightarrow> 'c) \<Rightarrow> proxy_config \<Rightarrow> disk \<Rightarrow> state_manager
      \<Rightarrow> 'tx command_router \<Rightarrow> proxy_error + ('c, 'tx) publisher" where
  "build_publisher E read mk c d m router =
     (case publisher_new E read mk (mqtt c) (charge_point_id_setting c) (mqtt_buffer_size (buffers c)) (snapshot_store_of c) d of
        Inl e \<Rightarrow> Inl e
      | Inr p \<Rightarrow>
         (let p' = with_state_manager m p
          in Inr (if enabled (charging c) then with_command_router router (charging c) p' else p')))"

section \<open>Start-up as a whole\<close>

text \<open>
  What \<open>main\<close> has built when it waits for the shutdown token. A publisher that could not be built, and a health
  endpoint that could not be bound, are part of a proxy that runs.
\<close>

record ('c, 'tx) proxy =
  px_config :: proxy_config
  px_session :: session_config
  px_downstream :: "'tx downstream_state"
  px_publisher :: "proxy_error + ('c, 'tx) publisher"
  px_health_served :: bool
  px_log :: "log_entry list"

text \<open>
  The three ways not to start: a line on standard error; a panic after the banners, when the operating system gives no thread
  for the publisher; or the log lines up to the port that could not be bound. The log
  starts after \<open>init_logging\<close>; the line of \<open>log_startup_begin\<close> comes before it and finds no subscriber.
\<close>

datatype start_failure = Fatal string | Panicked string "log_entry list" | CannotServe "log_entry list"

definition main_start ::
    "ext \<Rightarrow> (string \<Rightarrow> string + string) \<Rightarrow> (mqtt_options \<Rightarrow> nat \<Rightarrow> 'c) \<Rightarrow> platform \<Rightarrow> disk
      \<Rightarrow> proxy_error + proxy_config \<Rightarrow> start_failure + ('c, 'tx) proxy" where
  "main_start E read mk P d loaded =
     (case startup_checks (parse_url P) (local_address P) (show_addr P) loaded of
        Inl fatal \<Rightarrow> Inl (Fatal fatal)
      | Inr (c, url) \<Rightarrow>
         (let publisher = build_publisher E read mk c d manager_new Map.empty;
              t0 = snd (log_startup_begin (started_at P));
              banners = [starting_banner (show_addr P) c, charging_banner (charging c),
                         store_banner (debug_path P) (store_path (snapshot_store_of c))]
          in case thread_spawn P of
               Inl e \<Rightarrow> Inl (Panicked (''failed to spawn MQTT thread: '' @ e) banners)
             | Inr _ \<Rightarrow>
                 (case bind_ports P c manager_new of
                    Inl failed \<Rightarrow> Inl (CannotServe (banners @ failed))
                  | Inr (served, m, bound) \<Rightarrow>
                      Inr \<lparr>px_config = c, px_session = session_config_of c url, px_downstream = downstream_state_of m,
                           px_publisher = publisher, px_health_served = served,
                           px_log = banners @ bound @ [log_startup_complete t0 (ready_at P)]\<rparr>)))"

section \<open>The publisher thread\<close>

text \<open>
  The thread: the bounded connect, then the loop, each raced against the shutdown token.
  \<open>startup_cancelled\<close>: the token fires during the connect. \<open>inputs\<close> are the inputs the loop consumes
  before its channel closes or the token fires. \<open>None\<close> is a panic.
\<close>

definition mqtt_thread ::
    "ext \<Rightarrow> ('c, 'tx) api \<Rightarrow> utc \<Rightarrow> bool \<Rightarrow> (duration \<times> poll option) list \<Rightarrow> (utc \<times> run_input) list
      \<Rightarrow> ('c, 'tx) publisher \<Rightarrow> ('c, 'tx) publisher option" where
  "mqtt_thread E A now startup_cancelled attempts inputs p =
     (if startup_cancelled then Some p
      else case try_connect E A now attempts p of
          None \<Rightarrow> None
        | Some (StillTrying p1) \<Rightarrow> Some p1
        | Some (Returned _ p1) \<Rightarrow>
            map_option (\<lambda>p2. p2\<lparr>shared_manager := map_option (transition now Mqtt Disconnected) (shared_manager p2)\<rparr>)
              (run_publisher E A inputs p1))"

text \<open>
  The thread from its start: without a runtime, or without a publisher, it ends at once; charging goes on. \<open>runtime\<close> is
  the outcome of building the thread's own runtime.
\<close>

datatype ('c, 'tx) thread_end = NoRuntime string | NoPublisher log_entry | Ended "('c, 'tx) publisher"

definition mqtt_main ::
    "ext \<Rightarrow> ('c, 'tx) api \<Rightarrow> string + unit \<Rightarrow> utc \<Rightarrow> bool \<Rightarrow> (duration \<times> poll option) list \<Rightarrow> (utc \<times> run_input) list
      \<Rightarrow> proxy_error + ('c, 'tx) publisher \<Rightarrow> ('c, 'tx) thread_end option" where
  "mqtt_main E A runtime now startup_cancelled attempts inputs built =
     (case runtime of
        Inl e \<Rightarrow> Some (NoRuntime (''FATAL: failed to create MQTT runtime: '' @ e))
      | Inr _ \<Rightarrow>
         (case built of
            Inl e \<Rightarrow> Some (NoPublisher \<lparr>log_level_of = LogError,
                log_fields = [(''component'', LogStr ''mqtt''), (''error'', LogStr (display_error e))],
                log_message = ''MQTT publisher unavailable; proxying continues without Home Assistant visibility''\<rparr>)
          | Inr p \<Rightarrow> map_option Ended (mqtt_thread E A now startup_cancelled attempts inputs p)))"

section \<open>The drain\<close>

datatype drain_result = DrainedCleanly | Abandoned nat | StillDraining

definition begin_drain :: "state_manager \<Rightarrow> state_manager" where
  "begin_drain m = set_listener_bound False m"

text \<open>Each turn sees the number of connections and the time; turns are 100 ms apart.\<close>

fun drain_loop :: "nat \<Rightarrow> (nat \<times> nat) list \<Rightarrow> drain_result" where
  "drain_loop deadline [] = StillDraining"
| "drain_loop deadline ((remaining, now) # rest) =
     (if remaining = 0 then DrainedCleanly
      else if deadline \<le> now then Abandoned remaining
      else drain_loop deadline rest)"

lemma drain_loop_cases:
  "drain_loop deadline obs = StillDraining \<Longrightarrow> (r, t) \<in> set obs \<Longrightarrow> t < deadline"
  by (induction deadline obs rule: drain_loop.induct) (auto split: if_splits)

text \<open>The drain ends: 101 turns at least 100 ms apart cannot all lie before the ten-second deadline.\<close>

lemma drain_ends:
  assumes "\<forall>k < length obs. t0 + from_millis (100 * k) \<le> snd (obs ! k)" "100 < length obs"
  shows "drain_loop (t0 + from_secs 10) obs \<noteq> StillDraining"
proof
  assume "drain_loop (t0 + from_secs 10) obs = StillDraining"
  moreover have "obs ! 100 \<in> set obs" using assms(2) by simp
  ultimately have "snd (obs ! 100) < t0 + from_secs 10"
    using drain_loop_cases by (metis prod.collapse)
  moreover have "t0 + from_millis (100 * 100) \<le> snd (obs ! 100)" using assms by blast
  moreover have "from_millis (100 * 100) = from_secs 10" by (simp add: from_millis_def from_secs_def)
  ultimately show False by simp
qed

lemma drain_abandons_only_late:
  "drain_loop deadline obs = Abandoned n \<Longrightarrow> \<exists>t. (n, t) \<in> set obs \<and> deadline \<le> t \<and> 0 < n"
  by (induction deadline obs rule: drain_loop.induct) (auto split: if_splits)

lemma drain_clean_seen: "drain_loop deadline obs = DrainedCleanly \<Longrightarrow> \<exists>t. (0, t) \<in> set obs"
  by (induction deadline obs rule: drain_loop.induct) (auto split: if_splits)

text \<open>
  \<open>spawn_blocking(join)\<close>: the left summand is its own error, the right one what the thread ended with, a panic
  included; both are reported as a stopped publisher.
\<close>

definition join_publisher :: "string + (string + unit) \<Rightarrow> log_entry" where
  "join_publisher joined =
     (case joined of
        Inr _ \<Rightarrow> main_entry LogInfo [] ''MQTT publisher stopped''
      | Inl e \<Rightarrow> main_entry LogWarning [(''error'', LogStr e)] ''MQTT thread join failed'')"

text \<open>
  From the shutdown token to the end of \<open>main\<close>: the listener is declared unbound, the drain runs, the publisher's thread
  is joined. \<open>joined\<close> is what the join returns, \<open>None\<close> when it never does, for the thread has not ended. The result is
  \<open>None\<close> when \<open>main\<close> does not come to its end: the join does not return, or the observations end before the drain does.
\<close>

definition drain_entry :: "drain_result \<Rightarrow> log_entry option" where
  "drain_entry r =
     (case r of
        DrainedCleanly \<Rightarrow> Some (main_entry LogInfo [] ''All sessions closed cleanly'')
      | Abandoned n \<Rightarrow> Some (main_entry LogWarning [(''sessions'', LogNum n)] ''Drain timeout reached; abandoning remaining sessions'')
      | StillDraining \<Rightarrow> None)"

definition main_stop ::
    "nat \<Rightarrow> (nat \<times> nat) list \<Rightarrow> (string + (string + unit)) option \<Rightarrow> state_manager \<Rightarrow> (state_manager \<times> log_entry list) option" where
  "main_stop t0 obs joined m =
     (case drain_entry (drain_loop (t0 + from_secs 10) obs) of
        None \<Rightarrow> None
      | Some e \<Rightarrow>
          (case joined of
             None \<Rightarrow> None
           | Some j \<Rightarrow>
               Some (begin_drain m,
                 [main_entry LogInfo [] ''Draining'', e, join_publisher j, main_entry LogInfo [] ''OCPP Proxy shutdown complete''])))"

text \<open>What happens to the shared state meanwhile.\<close>

definition transitions :: "(utc \<times> connection_id \<times> connection_state) list \<Rightarrow> state_manager \<Rightarrow> state_manager" where
  "transitions ts m = fold (\<lambda>(now, c, s). transition now c s) ts m"

lemma transitions_keep:
  "listener_bound (transitions ts m) = listener_bound m"
  "(\<forall>(now, c, s) \<in> set ts. (c, s) \<noteq> (Downstream, Connected)) \<Longrightarrow> downstream_state m \<noteq> Connected
     \<Longrightarrow> downstream_state (transitions ts m) \<noteq> Connected"
proof -
  have one: "listener_bound (transition now c s m) = listener_bound m"
    "(c, s) \<noteq> (Downstream, Connected) \<Longrightarrow> downstream_state m \<noteq> Connected \<Longrightarrow> downstream_state (transition now c s m) \<noteq> Connected" for now c s m
    by (cases c; simp add: transition_def Let_def)+
  show "listener_bound (transitions ts m) = listener_bound m"
    unfolding transitions_def by (induction ts arbitrary: m) (simp_all add: one(1) case_prod_unfold)
  show "(\<forall>(now, c, s) \<in> set ts. (c, s) \<noteq> (Downstream, Connected)) \<Longrightarrow> downstream_state m \<noteq> Connected
     \<Longrightarrow> downstream_state (transitions ts m) \<noteq> Connected"
  proof (induction ts arbitrary: m)
    case (Cons t ts)
    obtain now c s where t: "t = (now, c, s)" by (metis prod_cases3)
    then have "downstream_state (transition now c s m) \<noteq> Connected" using Cons.prems by (intro one(2)) auto
    then show ?case using Cons.IH Cons.prems(1) by (simp add: transitions_def t)
  qed (simp add: transitions_def)
qed

lemma draining_503: "fst (health_handler (transitions ts (begin_drain m)) e) = 503"
  using transitions_keep(1)[of ts "begin_drain m"]
  by (simp add: health_handler_def health_status_of_def begin_drain_def set_listener_bound_def Let_def)

lemma idle_200:
  assumes "\<forall>(now, c, s) \<in> set ts. (c, s) \<noteq> (Downstream, Connected)"
  shows "fst (health_handler (transitions ts (set_listener_bound True manager_new)) e) = 200
    \<and> hr_status (snd (health_handler (transitions ts (set_listener_bound True manager_new)) e)) = Idle"
  using transitions_keep(1)[of ts "set_listener_bound True manager_new"] transitions_keep(2)[OF assms, of "set_listener_bound True manager_new"]
  by (simp add: health_handler_def health_status_of_def set_listener_bound_def manager_new_def Let_def)

section \<open>When the proxy serves\<close>

lemma startup_checks_Inr:
  "startup_checks to_url verify show loaded = Inr (c, url) \<longleftrightarrow>
     loaded = Inr c \<and> to_url (central_system_url c) = Inr url
     \<and> (\<forall>a. upstream_bind_address c = Some a \<longrightarrow> \<not> isl (verify a))"
  by (auto simp: startup_checks_def split: sum.splits option.splits)

lemma bind_ports_Inr:
  "bind_ports P c m = Inr (served, m', l) \<Longrightarrow> m' = set_listener_bound True m \<and> served = (\<not> isl (health_bind P))"
  by (auto simp: bind_ports_def Let_def split: sum.splits)

lemma main_start_facts:
  assumes "main_start E read mk P d loaded = Inr px"
  shows "ds_manager (px_downstream px) = set_listener_bound True manager_new" "px_health_served px = (\<not> isl (health_bind P))"
  using assms by (auto simp: main_start_def downstream_state_of_def Let_def split: sum.splits prod.splits dest!: bind_ports_Inr)

lemma main_start_iff:
  "(\<exists>px. main_start E read mk P d loaded = Inr px) \<longleftrightarrow>
     (\<exists>c url. loaded = Inr c \<and> parse_url P (central_system_url c) = Inr url
        \<and> (\<forall>a. upstream_bind_address c = Some a \<longrightarrow> \<not> isl (local_address P a)) \<and> \<not> isl (thread_spawn P) \<and> \<not> isl (listener_bind P))"
  using startup_checks_Inr[of "parse_url P" "local_address P" "show_addr P" loaded]
  by (cases "startup_checks (parse_url P) (local_address P) (show_addr P) loaded"; cases "thread_spawn P"; cases "listener_bind P")
     (auto simp: main_start_def bind_ports_def Let_def)

lemma signal_stops:
  "signal_task registered first c = Some (c', l) \<Longrightarrow> is_shutting_down c' \<and> \<not> isl registered"
  by (auto simp: signal_task_def wait_for_shutdown_signal_def initiate_shutdown_def is_shutting_down_def Let_def split: sum.splits)

text \<open>
  C24: The proxy starts exactly when its configuration loads, the Central System's URL parses, the upstream
  bind address, if any, is local, the operating system gives a thread for the publisher and the charger port can be bound;
  neither what the MQTT configuration and its certificates hold nor the health port can stop it.
  From then on the health endpoint, if its port could be bound, answers 200 with the status idle through all changes of the
  connections' states until a charger is connected; and from the moment draining begins it answers 503, whatever they change to.
\<close>

theorem starts_exactly_when_able:
  "((\<exists>px. main_start E read mk P d loaded = Inr px) \<longleftrightarrow>
     (\<exists>c url. loaded = Inr c \<and> parse_url P (central_system_url c) = Inr url
        \<and> (\<forall>a. upstream_bind_address c = Some a \<longrightarrow> \<not> isl (local_address P a)) \<and> \<not> isl (thread_spawn P) \<and> \<not> isl (listener_bind P)))
   \<and> (\<forall>px. main_start E read mk P d loaded = Inr px \<longrightarrow> px_health_served px = (\<not> isl (health_bind P)) \<and>
     (let m = ds_manager (px_downstream px)
      in (\<forall>ts. (\<forall>(now, c, s) \<in> set ts. (c, s) \<noteq> (Downstream, Connected)) \<longrightarrow>
            fst (health_handler (transitions ts m) e) = 200 \<and> hr_status (snd (health_handler (transitions ts m) e)) = Idle)
         \<and> (\<forall>before after. fst (health_handler (transitions after (begin_drain (transitions before m))) e) = 503)))"
  unfolding main_start_iff
  by (auto simp: Let_def main_start_facts draining_503 idle_200)

text \<open>Neither the health port nor the certificates the publisher needs are available, and the proxy serves.\<close>

definition demo_platform :: platform where
  "demo_platform = \<lparr>parse_url = Inr, local_address = (\<lambda>_. Inl ''none''), show_addr = (\<lambda>_. ''0.0.0.0''), debug_path = (\<lambda>p. p),
     thread_spawn = Inr (), health_bind = Inl ''in use'', listener_bind = Inr (), started_at = 0, ready_at = 1\<rparr>"

theorem starts_exactly_when_able_witness:
  "\<exists>px. main_start (table_ext []) (\<lambda>_. Inl ''no file'') (\<lambda>_ n. n) demo_platform \<lparr>files = Map.empty, faults = []\<rparr>
       (Inr (demo_proxy_config\<lparr>mqtt := (mqtt demo_proxy_config)\<lparr>ca_cert_path := Some ''/ca''\<rparr>\<rparr>))
       = (Inr px :: start_failure + (nat, unit) proxy)
     \<and> \<not> px_health_served px \<and> fst (health_handler (transitions [(1, Mqtt, Connecting)] (ds_manager (px_downstream px))) 0) = 200"
proof -
  let ?c = "demo_proxy_config\<lparr>mqtt := (mqtt demo_proxy_config)\<lparr>ca_cert_path := Some ''/ca''\<rparr>\<rparr>"
  have "upstream_bind_address ?c = None" by (simp add: demo_proxy_config_def)
  moreover have "\<forall>(now, c, s) \<in> set [(1, Mqtt, Connecting)]. (c, s) \<noteq> (Downstream, Connected)" by simp
  ultimately show ?thesis
    using starts_exactly_when_able[where E = "table_ext []" and read = "\<lambda>_. Inl ''no file''" and mk = "\<lambda>_ n. n"
        and P = demo_platform and d = "\<lparr>files = Map.empty, faults = []\<rparr>" and loaded = "Inr ?c" and e = 0, where ?'b = unit]
    by (auto simp: Let_def demo_platform_def)
qed

section \<open>Commands disabled\<close>

text \<open>Without a router nothing is ever subscribed to.\<close>

definition muted :: "(mqtt_request channel, command_request channel) publisher \<Rightarrow> bool" where
  "muted p \<longleftrightarrow> pub_router p = None \<and> \<not> subscribe_pending p
     \<and> (\<forall>fs. SubscribeRequest fs \<notin> set (passed (client p)))"

lemma flush_loop_no_subscribe:
  "\<forall>fs. SubscribeRequest fs \<notin> set (passed c) \<Longrightarrow>
   SubscribeRequest fs \<notin> set (passed (snd (flush_loop (try_publish channel_api) (\<lambda>m. m) q c)))"
proof (induction q arbitrary: c)
  case (Cons m q)
  show ?case
  proof (cases "closed c \<or> room c = 0")
    case True
    then show ?thesis using Cons.prems by (simp add: channel_api_def put_request_cases)
  next
    case False
    then show ?thesis
      using Cons.IH[of "c\<lparr>offered := offered c @ [PublishRequest m], passed := passed c @ [PublishRequest m], room := room c - 1\<rparr>"]
        Cons.prems by (simp add: channel_api_def put_request_cases)
  qed
qed simp

lemma muted_drain: "muted p \<Longrightarrow> muted (snd (drain_buffer channel_api p))"
  using flush_loop_no_subscribe[of "client p" _ "buffer p"]
  by (auto simp: muted_def drain_fields) (auto simp: drain_buffer_def Let_def split: prod.splits option.splits)

lemma muted_updates [simp]:
  "muted (p\<lparr>buffer := b\<rparr>) = muted p" "muted (p\<lparr>snapshots := sm\<rparr>) = muted p" "muted (p\<lparr>pub_disk := d\<rparr>) = muted p"
  "muted (p\<lparr>link_state := ls\<rparr>) = muted p" "muted (p\<lparr>flush_in_progress := fl\<rparr>) = muted p"
  "muted (p\<lparr>pub_backoff := bo\<rparr>) = muted p" "muted (p\<lparr>pub_state := st\<rparr>) = muted p"
  "muted (p\<lparr>shared_manager := sm'\<rparr>) = muted p"
  by (simp_all add: muted_def)

lemma muted_enqueue: "muted p \<Longrightarrow> muted (enqueue channel_api m p)"
  by (simp add: enqueue_def buffer_message_def Let_def muted_drain)

lemma muted_publish_state: "muted p \<Longrightarrow> muted (publish_charge_point_state E channel_api cp s p)"
  by (simp add: publish_charge_point_state_def muted_enqueue split: sum.splits)

lemma muted_result: "muted p \<Longrightarrow> muted (publish_command_result E channel_api now cp r p)"
  by (simp add: publish_command_result_def update_snapshot_def Let_def muted_enqueue muted_publish_state
      split: sum.splits prod.splits)

lemma muted_dispatch: "muted p \<Longrightarrow> muted (dispatch_command E channel_api now cp req p)"
proof -
  assume m: "muted p"
  then have "pub_router p = None" by (simp add: muted_def)
  with m show ?thesis by (simp add: dispatch_command_def muted_result)
qed

lemma muted_event: "muted p \<Longrightarrow> muted (handle_event E channel_api now ev p)"
  by (cases ev) (simp_all add: handle_event_def Let_def update_snapshot_def maybe_reapply_limit_def muted_enqueue
      muted_publish_state muted_result muted_dispatch split: sum.splits prod.splits option.splits)

lemma muted_incoming: "muted p \<Longrightarrow> muted (handle_incoming_publish E channel_api now t bytes p)"
  by (simp add: handle_incoming_publish_def muted_result muted_dispatch split: option.splits sum.splits prod.splits)

lemma muted_subscribe: "muted p \<Longrightarrow> try_subscribe channel_api p = p"
  by (simp add: muted_def try_subscribe_def)

lemma muted_republish: "muted p \<Longrightarrow> muted (fold (\<lambda>(cp, s). publish_charge_point_state E channel_api cp s) xs p)"
  by (induction xs arbitrary: p) (auto simp: muted_publish_state)

lemma muted_connack: "muted p \<Longrightarrow> muted (on_connack E channel_api now p)"
proof -
  assume m: "muted p"
  define p3 where "p3 = republish_snapshots E channel_api (flush_buffer channel_api (publish_online channel_api
     ((set_state now Connected p)\<lparr>pub_backoff := reset (pub_backoff (set_state now Connected p))\<rparr>)))"
  have "muted p3"
    using m by (simp add: p3_def republish_snapshots_def flush_buffer_def publish_online_def set_state_def muted_republish
        muted_drain split: option.split)
  then have "muted (p3\<lparr>subscribe_pending := (pub_router p3 \<noteq> None)\<rparr>)" by (simp add: muted_def)
  then show "muted (on_connack E channel_api now p)"
    by (simp add: on_connack_def Let_def p3_def[symmetric] muted_subscribe)
qed

lemma muted_run_step: "muted p \<Longrightarrow> run_step E channel_api now inp p = Some (Some p') \<Longrightarrow> muted p'"
  by (auto simp: run_step_def Let_def set_state_def muted_connack muted_incoming muted_drain muted_event muted_subscribe
      split: run_input.splits poll.splits option.splits if_splits)

text \<open>With commands disabled the publisher never subscribes to anything, whatever happens.\<close>

lemma disabled_never_subscribes:
  "muted p \<Longrightarrow> run_publisher E channel_api inps p = Some p' \<Longrightarrow> muted p'"
proof (induction inps arbitrary: p)
  case (Cons i inps)
  obtain now inp where i: "i = (now, inp)" by fastforce
  show ?case
  proof (cases "run_step E channel_api now inp p")
    case None
    then show ?thesis using Cons.prems i by simp
  next
    case (Some r)
    then show ?thesis
    proof (cases r)
      case None
      then show ?thesis using Cons.prems Some i by simp
    next
      case (Some a)
      with \<open>run_step E channel_api now inp p = Some r\<close> have "muted a"
        using muted_run_step[OF Cons.prems(1)] by simp
      then show ?thesis using Cons.prems(2) Cons.IH Some \<open>run_step E channel_api now inp p = Some r\<close> i by simp
    qed
  qed
qed simp

lemma muted_attempts:
  "muted p \<Longrightarrow> connect_attempts E channel_api now outs p = Some (Returned b p') \<Longrightarrow> muted p'"
  "muted p \<Longrightarrow> connect_attempts E channel_api now outs p = Some (StillTrying p') \<Longrightarrow> muted p'"
  by (induction E channel_api now outs p rule: connect_attempts.induct)
     (auto simp: set_state_def muted_connack split: if_splits option.splits poll.splits)

lemma muted_built:
  assumes "\<not> enabled (charging c)" "build_publisher E read mk c d m router = Inr p"
    and "\<And>opts n. passed (mk opts n) = []"
  shows "muted p"
  using assms by (auto simp: build_publisher_def Let_def with_state_manager_def publisher_new_def muted_def
      split: sum.splits)

lemma muted_thread:
  assumes "muted p" "mqtt_thread E channel_api now stopped outs inps p = Some p'"
  shows "muted p'"
proof (cases stopped)
  case True
  then show ?thesis using assms by (simp add: mqtt_thread_def)
next
  case False
  have start: "muted (set_state now Connecting p)" using assms(1) by (simp add: set_state_def)
  show ?thesis
    using assms(2) False
    by (auto simp: mqtt_thread_def try_connect_def split: option.splits returned.splits
        intro: muted_attempts(2)[OF start] disabled_never_subscribes[OF muted_attempts(1)[OF start]])
qed

end
