(* ===== verification/Takeover.thy ===== *)
theory Takeover
  imports Downstream
begin

text \<open>
  \<open>src/downstream.rs\<close>, several connections of one charger at a time: which of them the table holds, which
  have been cancelled, and what the generations are worth. The facts hold of every interleaving of connection handlers
  and speak only of the handlers and the table, so a finer system that changes nothing else about them inherits them.
\<close>

section \<open>Generations\<close>

fun held_generation :: "phase \<Rightarrow> u64 option" where
  "held_generation (Fetched g) = Some g"
| "held_generation p = in_table p"

text \<open>How many handlers have drawn a generation.\<close>

definition drawn :: "'tx world \<Rightarrow> nat" where
  "drawn w = length (filter (\<lambda>t. task_phase t \<noteq> Accepted_socket) (tasks w))"

abbreviation phase_of :: "'tx world \<Rightarrow> nat \<Rightarrow> phase" where
  "phase_of w i \<equiv> task_phase (tasks w ! i)"

definition generations_ok :: "'tx world \<Rightarrow> bool" where
  "generations_ok w \<longleftrightarrow>
     next_generation (shared w) = 1 + of_nat (drawn w)
     \<and> (\<forall>i < length (tasks w). \<forall>g. held_generation (phase_of w i) = Some g \<longrightarrow> unat (g - 1) < drawn w)
     \<and> (\<forall>i < length (tasks w). \<forall>j < length (tasks w). \<forall>g.
          held_generation (phase_of w i) = Some g \<longrightarrow> held_generation (phase_of w j) = Some g \<longrightarrow> i = j)"

text \<open>The table holds every handler that has entered it, has not left it and has not been cancelled.\<close>

definition leaders_ok :: "'tx world \<Rightarrow> bool" where
  "leaders_ok w \<longleftrightarrow>
     (\<forall>i < length (tasks w). \<forall>g. in_table (phase_of w i) = Some g \<longrightarrow> i \<notin> set (cancelled (shared w)) \<longrightarrow>
        connections (shared w) (task_cp (tasks w ! i)) = Some \<lparr>ac_generation = g, ac_cancel = i\<rparr>)"

lemma in_table_held [simp]: "in_table p = Some g \<Longrightarrow> held_generation p = Some g"
  by (cases p) auto

lemma drawn_le: "drawn w \<le> length (tasks w)"
  by (simp add: drawn_def)

lemma drawn_update:
  assumes "i < length ts"
  shows "length (filter P (ts[i := t])) + (if P (ts ! i) then 1 else 0) = length (filter P ts) + (if P t then 1 else 0)"
proof -
  have "ts = take i ts @ ts ! i # drop (Suc i) ts" using assms by (simp add: id_take_nth_drop)
  then have "length (filter P ts) = length (filter P (take i ts)) + length (filter P (ts ! i # drop (Suc i) ts))"
    by (metis filter_append length_append)
  then show ?thesis using assms by (simp add: upd_conv_take_nth_drop)
qed


lemma drawn_fits: "length (tasks w) < 2 ^ 64 \<Longrightarrow> unat (of_nat (drawn w) :: u64) = drawn w"
  using drawn_le[of w] by (simp add: unat_of_nat take_bit_eq_mod)

text \<open>The first step of a handler draws the next generation, any other keeps its own or gives it up.\<close>

lemma advance_generation:
  assumes "advance now i t st = (t', st')"
  shows "task_phase t = Accepted_socket \<Longrightarrow>
       task_phase t' = Fetched (next_generation st) \<and> next_generation st' = next_generation st + 1"
    and "task_phase t \<noteq> Accepted_socket \<Longrightarrow>
       next_generation st' = next_generation st \<and> task_phase t' \<noteq> Accepted_socket
       \<and> (held_generation (task_phase t') = Some g \<longrightarrow> held_generation (task_phase t) = Some g)"
  using assms
  by (auto simp: advance_def fetch_generation_def insert_connection_def deregister_connection_def announce_def
      ds_publish_status_def Let_def split: phase.splits option.splits if_splits prod.splits)

lemma generations_advance:
  assumes ok: "generations_ok w" and i: "i < length (tasks w)" and small: "length (tasks w) < 2 ^ 64"
    and a: "advance now i (tasks w ! i) (shared w) = (t', st')"
  shows "generations_ok (w\<lparr>shared := st', tasks := (tasks w)[i := t']\<rparr>)"
proof (cases "phase_of w i = Accepted_socket")
  case True
  have g: "task_phase t' = Fetched (1 + of_nat (drawn w))" "next_generation st' = 1 + of_nat (drawn w) + 1"
    using advance_generation(1)[OF a True] ok by (simp_all add: generations_ok_def)
  have d: "drawn (w\<lparr>shared := st', tasks := (tasks w)[i := t']\<rparr>) = Suc (drawn w)"
    using drawn_update[OF i, of "\<lambda>t. task_phase t \<noteq> Accepted_socket" t'] True g(1) by (simp add: drawn_def)
  have new: "unat (1 + of_nat (drawn w) - 1 :: u64) = drawn w" using drawn_fits[OF small] by simp
  have old: "unat (h - 1) < drawn w" if "j < length (tasks w)" "held_generation (phase_of w j) = Some h" for j h
    using ok that by (simp add: generations_ok_def)
  show ?thesis
    unfolding generations_ok_def d
  proof (intro conjI allI impI)
    show "next_generation (shared (w\<lparr>shared := st', tasks := (tasks w)[i := t']\<rparr>)) = 1 + of_nat (Suc (drawn w))"
      using g(2) by simp
  next
    fix j h
    assume "j < length (tasks (w\<lparr>shared := st', tasks := (tasks w)[i := t']\<rparr>))"
      "held_generation (phase_of (w\<lparr>shared := st', tasks := (tasks w)[i := t']\<rparr>) j) = Some h"
    then show "unat (h - 1) < Suc (drawn w)"
      using g(1) new old[of j h] i by (cases "j = i") (auto simp: less_Suc_eq)
  next
    fix j k h
    assume "j < length (tasks (w\<lparr>shared := st', tasks := (tasks w)[i := t']\<rparr>))"
      "k < length (tasks (w\<lparr>shared := st', tasks := (tasks w)[i := t']\<rparr>))"
      and jk: "held_generation (phase_of (w\<lparr>shared := st', tasks := (tasks w)[i := t']\<rparr>) j) = Some h"
      "held_generation (phase_of (w\<lparr>shared := st', tasks := (tasks w)[i := t']\<rparr>) k) = Some h"
    then have l: "j < length (tasks w)" "k < length (tasks w)" by simp_all
    show "j = k"
      using jk l g(1) new old[of j h] old[of k h] i ok
      by (cases "j = i"; cases "k = i") (auto simp: generations_ok_def)
  qed
next
  case False
  note keep = advance_generation(2)[OF a False]
  have d: "drawn (w\<lparr>shared := st', tasks := (tasks w)[i := t']\<rparr>) = drawn w"
    using drawn_update[OF i, of "\<lambda>t. task_phase t \<noteq> Accepted_socket" t'] False keep by (simp add: drawn_def)
  have was: "held_generation (phase_of w j) = Some h"
    if "held_generation (task_phase ((tasks w)[i := t'] ! j)) = Some h" "j < length (tasks w)" for j h
    using that keep i by (cases "j = i") auto
  have "i = j" if "i < length (tasks w)" "j < length (tasks w)" "held_generation (phase_of w i) = Some h"
      "held_generation (phase_of w j) = Some h" for i j h
    using ok that unfolding generations_ok_def by blast
  moreover have "unat (h - 1) < drawn w" if "j < length (tasks w)" "held_generation (phase_of w j) = Some h" for j h
    using ok that unfolding generations_ok_def by blast
  moreover have "next_generation st' = 1 + of_nat (drawn w)" using ok keep by (simp add: generations_ok_def)
  ultimately show ?thesis using was unfolding generations_ok_def d by simp
qed

lemma generations_arrive:
  assumes "generations_ok w"
  shows "generations_ok (w\<lparr>tasks := tasks w @ [\<lparr>task_cp = cp, task_tx = t, task_phase = Accepted_socket\<rparr>]\<rparr>)"
  using assms unfolding generations_ok_def drawn_def by (auto simp: nth_append split: if_splits)

section \<open>The leader\<close>

lemma advance_leader:
  assumes "advance now i t st = (t', st')" "in_table (task_phase t') = Some g"
  shows "(in_table (task_phase t) = Some g \<and> connections st' = connections st \<and> cancelled st' = cancelled st)
    \<or> (in_table (task_phase t) = None \<and> st' = insert_connection (task_cp t) g i st)"
  using assms by (cases "task_phase t") (auto simp: advance_def fetch_generation_def deregister_connection_def announce_def
      ds_publish_status_def Let_def split: option.splits if_splits prod.splits)

text \<open>A handler that leaves the table, or never was in it, removes at most an entry with its own generation.\<close>

lemma advance_outside:
  assumes "advance now i t st = (t', st')" "in_table (task_phase t') = None"
  shows "cancelled st' = cancelled st \<and> (connections st' = connections st
    \<or> (\<exists>g e. in_table (task_phase t) = Some g \<and> connections st (task_cp t) = Some e \<and> ac_generation e = g
         \<and> connections st' = (connections st)(task_cp t := None)))"
  using assms by (cases "task_phase t") (auto simp: advance_def fetch_generation_def deregister_connection_def announce_def
      ds_publish_status_def Let_def split: option.splits if_splits prod.splits)

lemma leaders_advance:
  assumes ok: "leaders_ok w" "generations_ok w" and i: "i < length (tasks w)"
    and a: "advance now i (tasks w ! i) (shared w) = (t', st')"
  shows "leaders_ok (w\<lparr>shared := st', tasks := (tasks w)[i := t']\<rparr>)"
  unfolding leaders_ok_def
proof (intro allI impI)
  fix j g
  assume "j < length (tasks (w\<lparr>shared := st', tasks := (tasks w)[i := t']\<rparr>))"
    and jt: "in_table (phase_of (w\<lparr>shared := st', tasks := (tasks w)[i := t']\<rparr>) j) = Some g"
    and alive: "j \<notin> set (cancelled (shared (w\<lparr>shared := st', tasks := (tasks w)[i := t']\<rparr>)))"
  then have j: "j < length (tasks w)" by simp
  have cp: "task_cp ((tasks w)[i := t'] ! j) = task_cp (tasks w ! j)"
    using advance_table(1)[OF a] i by (cases "j = i") auto
  have old: "connections (shared w) (task_cp (tasks w ! j)) = Some \<lparr>ac_generation = g, ac_cancel = j\<rparr>"
    if "in_table (phase_of w j) = Some g" "j \<notin> set (cancelled (shared w))"
    using ok(1) j that by (simp add: leaders_ok_def)
  have "connections st' (task_cp (tasks w ! j)) = Some \<lparr>ac_generation = g, ac_cancel = j\<rparr>"
  proof (cases "in_table (task_phase t')")
    case None
    then have "j \<noteq> i" using jt i by auto
    then have p: "in_table (phase_of w j) = Some g" using jt by simp
    note out = advance_outside[OF a None]
    then have c: "connections (shared w) (task_cp (tasks w ! j)) = Some \<lparr>ac_generation = g, ac_cancel = j\<rparr>"
      using old[OF p] alive by simp
    have "h \<noteq> g" if "in_table (phase_of w i) = Some h" for h
      using ok(2) i j p that \<open>j \<noteq> i\<close> unfolding generations_ok_def by (meson in_table_held)
    then show ?thesis using out c by auto
  next
    case (Some h)
    from advance_leader[OF a Some] show ?thesis
    proof
      assume keep: "in_table (phase_of w i) = Some h \<and> connections st' = connections (shared w) \<and> cancelled st' = cancelled (shared w)"
      then have "in_table (phase_of w j) = Some g" using jt Some i by (cases "j = i") auto
      then show ?thesis using old keep alive by simp
    next
      assume ins: "in_table (phase_of w i) = None \<and> st' = insert_connection (task_cp (tasks w ! i)) h i (shared w)"
      show ?thesis
      proof (cases "j = i")
        case True
        then show ?thesis using ins jt Some i by (auto simp: insert_connection_def Let_def split: option.splits)
      next
        case False
        then have p: "in_table (phase_of w j) = Some g" using jt by simp
        have "j \<notin> set (cancelled (shared w))" using ins alive by (auto simp: insert_connection_def Let_def split: option.splits)
        from old[OF p this] show ?thesis
          using ins alive by (auto simp: insert_connection_def Let_def split: option.splits)
      qed
    qed
  qed
  then show "connections (shared (w\<lparr>shared := st', tasks := (tasks w)[i := t']\<rparr>))
      (task_cp (tasks (w\<lparr>shared := st', tasks := (tasks w)[i := t']\<rparr>) ! j)) = Some \<lparr>ac_generation = g, ac_cancel = j\<rparr>"
    using cp by simp
qed

lemma leaders_arrive:
  "leaders_ok w \<Longrightarrow> leaders_ok (w\<lparr>tasks := tasks w @ [\<lparr>task_cp = cp, task_tx = t, task_phase = Accepted_socket\<rparr>]\<rparr>)"
  unfolding leaders_ok_def by (auto simp: nth_append split: if_splits)


text \<open>
  What a finer system may do to the world besides letting a handler advance: accept a socket, and change
  anything of the shared state but the table, the counter and the cancelled tokens.
\<close>

definition beside :: "'tx world \<Rightarrow> 'tx world \<Rightarrow> bool" where
  "beside w w' \<longleftrightarrow> tasks w' = tasks w \<and> connections (shared w') = connections (shared w)
     \<and> next_generation (shared w') = next_generation (shared w) \<and> cancelled (shared w') = cancelled (shared w)"

definition takeover_ok :: "'tx world \<Rightarrow> bool" where
  "takeover_ok w \<longleftrightarrow> (length (tasks w) < 2 ^ 64 \<longrightarrow> generations_ok w \<and> leaders_ok w)"

lemma takeover_beside: "beside w w' \<Longrightarrow> takeover_ok w \<Longrightarrow> takeover_ok w'"
  by (simp add: beside_def takeover_ok_def generations_ok_def leaders_ok_def drawn_def)

lemma takeover_perform: "takeover_ok w \<Longrightarrow> takeover_ok (perform now a w)"
proof (cases a)
  case (Arrive cp t)
  then show "takeover_ok w \<Longrightarrow> takeover_ok (perform now a w)"
    by (simp add: perform_def takeover_ok_def generations_arrive leaders_arrive)
next
  case (Advance i)
  obtain t' st' where "advance now i (tasks w ! i) (shared w) = (t', st')" by fastforce
  then show "takeover_ok w \<Longrightarrow> takeover_ok (perform now a w)"
    using Advance generations_advance[of w i now t' st'] leaders_advance[of w i now t' st']
    by (simp add: perform_def takeover_ok_def Let_def)
qed

lemma takeover_start: "next_generation st = 1 \<Longrightarrow> takeover_ok \<lparr>shared = st, tasks = []\<rparr>"
  by (simp add: takeover_ok_def generations_ok_def leaders_ok_def drawn_def)

lemma takeover_leader:
  assumes "takeover_ok w" "length (tasks w) < 2 ^ 64"
    and "i < length (tasks w)" "in_table (phase_of w i) = Some g" "i \<notin> set (cancelled (shared w))"
  shows "connections (shared w) (task_cp (tasks w ! i)) = Some \<lparr>ac_generation = g, ac_cancel = i\<rparr>"
  using assms by (simp add: takeover_ok_def leaders_ok_def)

section \<open>The shared state they announce\<close>

text \<open>
  An upgrade request sets the downstream state to connecting before it is known whether a connection follows,
  also when the charger is connected already: the health endpoint then answers idle.
\<close>

lemma upgrade_request_hides_charger:
  assumes "listener_bound (ds_manager st)" "fst (ws_upgrade_handler now header st) = Upgrade p"
  shows "health_status_of (ds_manager (snd (ws_upgrade_handler now header st))) = Idle"
  using assms state_of_transition[of Downstream now Downstream Connecting "ds_manager st"]
  by (auto simp: ws_upgrade_handler_def Let_def health_status_of_def transition_def split: if_splits option.splits)

text \<open>
  A connection can be displaced before it has announced itself. If it announces itself after its successor
  has come and gone, nobody takes the announcement back: no handler is left, the table is empty, and the
  downstream state is connected.
\<close>

lemma phantom_charger:
  "\<exists>as. let w = run_schedule as (demo_world\<lparr>shared := demo_downstream\<lparr>ds_manager := set_listener_bound True manager_new\<rparr>\<rparr>)
        in (\<forall>t \<in> set (tasks w). task_phase t = Closed_down) \<and> connections (shared w) = Map.empty
         \<and> downstream_state (ds_manager (shared w)) = Connected
         \<and> fst (health_handler (ds_manager (shared w)) 0) = 503"
proof -
  let ?as = "[Arrive ''CP1'' (), Arrive ''CP1'' (), Advance 0, Advance 0, Advance 1, Advance 1, Advance 0, Advance 1,
     Advance 1, Advance 1, Advance 1, Advance 1, Advance 1, Advance 0, Advance 0, Advance 0, Advance 0]"
  show ?thesis
    by (rule exI[of _ ?as])
       (simp add: demo_world_def demo_downstream_def schedule_simps transition_def health_handler_def
         health_status_of_def manager_new_def set_listener_bound_def fun_eq_iff)
qed

end
