(* ===== verification/Divergences.thy ===== *)
theory Divergences
  imports Session_Properties Publisher_Facts Lifecycle Takeover
begin

text \<open>
  Small facts about the code where it does not do what a comment or a document says of it. Each is the ground of a finding;
  none of them is used elsewhere.
\<close>

section \<open>Sessions and their queues\<close>

text \<open>
  A limit command that falls out of a full queue is reported as superseded by a newer limit command, whatever command
  took its place.
\<close>

lemma dropped_limit_reported_superseded:
  assumes "queued q = oldest # rest" "q_capacity q \<le> length (queued q)"
    and "is_limit_command (command oldest)" "\<not> is_limit_command (command req)"
  shows "fst (push req q) = [oldest] \<and> res_status (displaced_result E now oldest) = Superseded"
  using assms by (simp add: push_def displaced_result_def result_for_request_def)

text \<open>A text that does not parse is handed to the Central System and leaves the session as it was: no counter, no buffer.\<close>

lemma unparseable_forwarded_uncounted:
  assumes "parse E now text = Inl e"
  shows "snd (snd (charger_text E ws cfg now inst text u s)) = s
    \<and> fst (snd (charger_text E ws cfg now inst text u s)) = snd (ws u (TText text))"
  using assms by (auto simp: charger_text_def upstream_sink_send_def split: prod.split sum.split)

text \<open>A buffer of size 0 holds one message.\<close>

lemma empty_buffer_holds_one:
  "max_buffer_size fw = 0 \<Longrightarrow> length (upstream_buffer fw) \<le> 1 \<Longrightarrow> upstream_buffer (buffer_upstream f fw) = [f]"
  by (cases "upstream_buffer fw") (simp_all add: buffer_upstream_def Let_def)

text \<open>
  The tracker is keyed by the unique id alone: a Call of the charger with the id of a pending Call of the Central System takes
  its place, and the Central System's Call no longer keeps the proxy's own Calls back.
\<close>

lemma charger_call_hides_central_call:
  "\<not> has_recent_pending_in now CentralToCharger age
     (track_call t2 uid a2 ChargerToCentral (track_call t1 uid a1 CentralToCharger (tracker_new oldest)))"
  by (simp add: has_recent_pending_in_def track_call_def tracker_new_def)

text \<open>A CallError that ends after its code is taken for a frame, though a documented one has five elements.\<close>

lemma short_call_error_parses:
  assumes "from_str E text = Inr (Arr [Num (PosInt 4), Str uid, code])"
  shows "parse E now text = Inr \<lparr>raw = text, message_type = CallError, unique_id = uid, received_at = now\<rparr>
    \<and> \<not> documented_frame [Num (PosInt 4), Str uid, code] uid CallError"
  using assms by (simp add: parse_def frame_message_type_def documented_frame_def)

text \<open>The replay sends whatever the buffer holds, at any age: a sink that takes everything receives the whole buffer.\<close>

lemma replay_ignores_age:
  "flush_upstream (\<lambda>sent text. (Inr (), sent @ [text])) [] fw
     = (Inr (length (upstream_buffer fw)), map raw (upstream_buffer fw), fw\<lparr>upstream_buffer := []\<rparr>)"
proof -
  have "flush_loop (\<lambda>sent text. (Inr () :: proxy_error + unit, sent @ [text])) raw q sent = ((None, []), sent @ map raw q)"
    for q :: "ocpp_frame list" and sent
    by (induction q arbitrary: sent) simp_all
  then show ?thesis by (simp add: flush_upstream_def Let_def)
qed

section \<open>The publisher\<close>

text \<open>Announcing itself while the client takes nothing, the publisher exceeds a full buffer by one message.\<close>

lemma online_exceeds_buffer:
  assumes "lwt_charge_point_id p = Some i" "length (buffer p) = pub_max_buffer_size p" "\<And>c m. try_publish A c m = (Inl (), c)"
  shows "length (buffer (publish_online A p)) = Suc (pub_max_buffer_size (publish_online A p))"
  using assms by (simp add: publish_online_def drain_fields)

text \<open>With a buffer of one message a result is evicted by the snapshot published right after it.\<close>

lemma one_message_buffer_loses_result:
  assumes "pub_max_buffer_size p = 1" "length (buffer p) \<le> 1" "\<And>c m. try_publish A c m = (Inl (), c)"
    and "\<And>v. to_str E v = Inr (json v)" "fst (apply_command_result E now r (entry_or_default cp (snapshots p)))"
  shows "map topic (buffer (publish_command_result E A now cp r p)) = [charge_point_state_topic cp]"
proof -
  have enq: "buffer (enqueue A m q) = [m]" if "pub_max_buffer_size q = 1" "length (buffer q) \<le> 1" for m q
    using that assms(3) by (cases "buffer q") (simp_all add: enqueue_def buffer_message_def drain_fields Let_def)
  have keep: "pub_max_buffer_size (enqueue A m q) = pub_max_buffer_size q" "snapshots (enqueue A m q) = snapshots q" for m q
    by (simp_all add: enqueue_def buffer_message_def drain_fields Let_def)
  show ?thesis
    using assms by (simp add: publish_command_result_def update_snapshot_def publish_charge_point_state_def case_prod_unfold Let_def enq keep)
qed

text \<open>The backoff of a new publisher is one of 1 to 30 seconds, whatever is configured.\<close>

lemma publisher_backoff_fixed:
  "publisher_new E read mk c lwt n st d = Inr p \<Longrightarrow> pub_backoff p = with_defaults (from_secs 1) (from_secs 30)"
  by (auto simp: publisher_new_def split: sum.splits)

section \<open>Answers and signals\<close>

text \<open>A CallResult without a status string counts as accepted, a malformed one included.\<close>

lemma answer_without_status_accepted:
  assumes "message_type f = CallResult" "from_str E (raw f) = Inr (Arr [Num n, Str uid, Obj []])"
  shows "fst (interpret_response E act f) = Accepted"
  using assms by (simp add: interpret_response_def call_result_status_def nth_opt_def Let_def split: option.split)

text \<open>A failure of \<open>ctrl_c\<close> is taken for a signal.\<close>

lemma ctrl_c_error_shuts_down:
  "signal_task (Inr ()) (CtrlC (Inl e)) c = Some (c', l) \<Longrightarrow> is_shutting_down c'"
  "map_option fst (wait_for_shutdown_signal (Inr ()) (CtrlC (Inl e))) = Some ''SIGINT''"
  by (auto simp: signal_task_def wait_for_shutdown_signal_def initiate_shutdown_def is_shutting_down_def Let_def)

text \<open>The line that announces the start is not among those the subscriber receives.\<close>

lemma startup_line_not_logged:
  assumes "main_start E read mk P d loaded = Inr px"
  shows "fst (log_startup_begin (started_at P)) \<notin> set (px_log px)"
proof -
  let ?m = "log_message (fst (log_startup_begin (started_at P)))"
  have "log_message (starting_banner sa c) \<noteq> ?m" "log_message (charging_banner cc) \<noteq> ?m" "log_message (log_startup_complete t0 t1) \<noteq> ?m"
    "log_message (store_banner dp sp) \<noteq> ?m" "log_message (health_banner a b) \<noteq> ?m" "log_message (listener_banner a b) \<noteq> ?m"
    for sa c cc t0 t1 dp sp a b
    by (simp_all add: starting_banner_def charging_banner_def store_banner_def health_banner_def listener_banner_def
        log_startup_complete_def log_startup_begin_def main_entry_def split: option.split sum.split)
  then have "\<forall>e \<in> set (px_log px). log_message e \<noteq> ?m"
    using assms by (auto simp: main_start_def bind_ports_def Let_def simp del: log_startup_begin_def split: sum.splits prod.splits)
  then show ?thesis by blast
qed

end
