(* ===== verification/Session_Waits.thy ===== *)
theory Session_Waits
  imports Session_Relay
begin

text \<open>
  \<open>src/session.rs\<close>, a round and the teardown of a session cut at the points where it waits: for the connection attempt,
  in a pause, and for the 100 ms of its end. What a finer composition interleaves are these pieces.
\<close>

text \<open>\<open>session_round\<close> cut at its waits.\<close>

definition dial :: "utc \<Rightarrow> session \<Rightarrow> session" where
  "dial now s = set_upstream_state now Connecting s"

definition dial_failed :: "session_config \<Rightarrow> utc \<Rightarrow> nat \<Rightarrow> session \<Rightarrow> session step_result option" where
  "dial_failed cfg now inst s =
     (let started = (case reconnecting_since s of None \<Rightarrow> inst | Some t \<Rightarrow> t);
          s1 = s\<lparr>reconnecting_since := Some started\<rparr>;
          elapsed = inst - started
      in if max_reconnect_window cfg \<le> elapsed then Some (Break (s1\<lparr>close_code := CLOSE_GOING_AWAY\<rparr>))
         else
           (let s2 = set_upstream_state now Reconnecting s1
            in case next_delay (sess_backoff s2) of
                 None \<Rightarrow> None
               | Some (d, b) \<Rightarrow> Some (Waiting (s2\<lparr>sess_backoff := b, last_delay := retry_delay cfg elapsed d\<rparr>))))"

definition dial_done :: "'u ws_send \<Rightarrow> utc \<Rightarrow> 'u \<Rightarrow> session \<Rightarrow> bool \<times> 'u \<times> session" where
  "dial_done ws_send now u s =
     (let s1 = s\<lparr>sess_backoff := reset (sess_backoff s), reconnecting_since := None\<rparr>;
          s2 = set_upstream_state now Connected s1
      in case flush_upstream (upstream_sink_send ws_send) u (forwarder s2) of
           (Inl _, u', fw) \<Rightarrow> (False, u', s2\<lparr>forwarder := fw\<rparr>)
         | (Inr n, u', fw) \<Rightarrow> (True, u', record_replayed n (s2\<lparr>forwarder := fw\<rparr>)))"

text \<open>\<open>teardown\<close> up to its wait; what follows sets the upstream state.\<close>

definition wind_down :: "ext \<Rightarrow> utc \<Rightarrow> command_request list \<Rightarrow> session \<Rightarrow> session" where
  "wind_down E now waiting s =
     (let s1 = count_dropped s;
          ((rest, fl), q) = drain (local s1);
          s2 = fold (\<lambda>r. emit_command_result (ended_result E now r)) rest (s1\<lparr>local := q\<rparr>);
          s3 = (case fl of None \<Rightarrow> s2 | Some x \<Rightarrow> emit_command_result (ended_in_flight E now x) s2);
          s4 = fold (\<lambda>r. emit_command_result (ended_result E now r)) waiting s3
      in s4\<lparr>charger_tx := snd (channel_send (charger_tx s4) (AClose (Some (close_code s4, ''Proxy session ending''))))\<rparr>)"

text \<open>Put together they are the functions of \<open>Session\<close>.\<close>

lemma session_round_failed:
  "session_round E ws_send cfg now inst (AttemptFailed w) s =
     (case dial_failed cfg now inst (dial now s) of
        Some (Waiting s') \<Rightarrow> Some (wake_result w s')
      | x \<Rightarrow> x)"
  by (simp add: session_round_def dial_failed_def dial_def Let_def split: option.splits prod.splits)

lemma teardown_wind_down: "teardown E now waiting s = set_upstream_state now Disconnected (wind_down E now waiting s)"
  by (simp add: teardown_def wind_down_def Let_def case_prod_unfold)

lemma session_round_attempt:
  "session_round E ws cfg now inst (Attempt u evs later inst' w) s =
     (case dial_done ws now u (dial now s) of
        (False, u', s') \<Rightarrow> Some (Continue s')
      | (True, u', s') \<Rightarrow>
         (case forward_loop E ws cfg evs u' s' of
            (None, _, s3) \<Rightarrow> Some (Waiting s3)
          | (Some UpstreamLost, _, s3) \<Rightarrow> after_lost later inst' w s3
          | (Some _, _, s3) \<Rightarrow> Some (Break s3)))"
  by (simp add: session_round_def dial_done_def dial_def Let_def split: prod.splits sum.splits)

end
