(* ===== verification/Ledger.thy ===== *)
theory Ledger
  imports Session_Waits Publisher_Facts
begin

text \<open>
  What sessions and publisher say and hand over, and the specification the proxy implements: a ledger whose traces say when a
  connection opens, a command is accepted for it, a command is answered and a session shuts. The locale \<open>simulation\<close> states how
  the traces of a concrete system are traces of a specification.
\<close>

type_synonym hub = "(mqtt_request channel, command_request channel) publisher"

section \<open>What a session says\<close>

fun event_cp :: "mqtt_event \<Rightarrow> string" where
  "event_cp (MessageForwarded cp f d a) = cp"
| "event_cp (StateChanged cp up down) = cp"
| "event_cp (CommandResultEvent cp r) = cp"

text \<open>From \<open>s\<close> to \<open>s'\<close> a session only adds events, and only events of its own charge point.\<close>

definition emits :: "session \<Rightarrow> session \<Rightarrow> bool" where
  "emits s s' \<longleftrightarrow> charge_point_id (forwarder s') = charge_point_id (forwarder s)
     \<and> (\<exists>evs. offered (mqtt_tx (forwarder s')) = offered (mqtt_tx (forwarder s)) @ evs
           \<and> (\<forall>ev \<in> set evs. event_cp ev = charge_point_id (forwarder s)))"

lemma emits_refl [intro, simp]: "emits s s"
  by (simp add: emits_def)

lemma emits_trans [trans]: "emits s t \<Longrightarrow> emits t v \<Longrightarrow> emits s v"
  by (fastforce simp: emits_def)

text \<open>Only the forwarder's id and event channel matter.\<close>

lemma emits_cong:
  assumes "charge_point_id (forwarder t) = charge_point_id (forwarder t')" "offered (mqtt_tx (forwarder t)) = offered (mqtt_tx (forwarder t'))"
  shows "emits s t = emits s t'" "emits t v = emits t' v"
  using assms by (simp_all add: emits_def)

lemma emits_fields [simp]:
  "emits s (t\<lparr>local := q\<rparr>) = emits s t" "emits s (t\<lparr>charger_tx := c\<rparr>) = emits s t" "emits s (t\<lparr>manager := m\<rparr>) = emits s t"
  "emits s (t\<lparr>commands_open := b\<rparr>) = emits s t" "emits s (t\<lparr>sess_backoff := bo\<rparr>) = emits s t"
  "emits s (t\<lparr>reconnecting_since := x\<rparr>) = emits s t" "emits s (t\<lparr>close_code := n\<rparr>) = emits s t"
  "emits s (t\<lparr>last_delay := d\<rparr>) = emits s t"
  "emits (t\<lparr>local := q\<rparr>) v = emits t v" "emits (t\<lparr>manager := m\<rparr>) v = emits t v" "emits (t\<lparr>charger_tx := c\<rparr>) v = emits t v"
  by (simp_all add: emits_def)

lemma emits_emit [simp]: "emits s t \<Longrightarrow> emits s (emit_command_result r t)"
  by (fastforce simp: emits_def emit_command_result_def)

lemma emits_status [simp]: "emits s t \<Longrightarrow> emits s (publish_status up down t)"
  by (fastforce simp: emits_def publish_status_def)

lemma emits_fold_emit [simp]: "emits s t \<Longrightarrow> emits s (fold (\<lambda>x. emit_command_result (f x)) xs t)"
  by (induction xs arbitrary: t) simp_all

lemma emits_set_upstream_state [simp]: "emits s t \<Longrightarrow> emits s (set_upstream_state now st t)"
  by (simp add: set_upstream_state_def Let_def)

lemma emits_send_queued: "emits s (snd (send_queued E c now inst s))"
proof (rule send_queued_rule[where R = emits])
  fix s s' :: session and req q uid q' reason
  assume "emits (emit_command_result (result_for_request E now req Invalid (Some reason)) (s\<lparr>local := q'\<rparr>)) s'"
  moreover have "emits s (emit_command_result (result_for_request E now req Invalid (Some reason)) (s\<lparr>local := q'\<rparr>))" by simp
  ultimately show "emits s s'" by (rule emits_trans[rotated])
qed simp_all

lemma emits_send_local_calls [simp]: "emits s t \<Longrightarrow> emits s (snd (send_local_calls E c now inst t))"
  using emits_trans[OF _ emits_send_queued] by (simp add: send_local_calls_def)

lemma emits_forward [simp]:
  "emits s (s\<lparr>forwarder := snd (snd (forward_message send now d f sink (forwarder s)))\<rparr>)"
  by (cases "fst (send sink (raw f))") (simp_all add: emits_def forward_message_cases)

lemma emits_forwarder_quiet [simp]:
  "charge_point_id fw = charge_point_id (forwarder t) \<Longrightarrow> mqtt_tx fw = mqtt_tx (forwarder t) \<Longrightarrow> emits s (t\<lparr>forwarder := fw\<rparr>) = emits s t"
  by (simp add: emits_def)

lemma forwarder_quiet [simp]:
  "mqtt_tx (buffer_upstream f fw) = mqtt_tx fw" "charge_point_id (buffer_upstream f fw) = charge_point_id fw"
  "mqtt_tx (discard_downstream_buffer fw) = mqtt_tx fw" "charge_point_id (discard_downstream_buffer fw) = charge_point_id fw"
  "mqtt_tx (snd (evict_expired_messages now fw)) = mqtt_tx fw" "charge_point_id (snd (evict_expired_messages now fw)) = charge_point_id fw"
  "mqtt_tx (snd (cleanup_expired_calls now fw)) = mqtt_tx fw" "charge_point_id (snd (cleanup_expired_calls now fw)) = charge_point_id fw"
  "mqtt_tx (snd (snd (flush_upstream send sink fw))) = mqtt_tx fw" "charge_point_id (snd (snd (flush_upstream send sink fw))) = charge_point_id fw"
  by (simp_all add: buffer_upstream_def discard_downstream_buffer_def evict_expired_messages_def cleanup_expired_calls_def
      flush_upstream_unfold Let_def split: prod.splits)

lemma emits_forward_charger_frame: "emits s (snd (snd (forward_charger_frame E ws cfg now inst text f u s)))"
proof -
  let ?r = "forward_upstream (upstream_sink_send ws) now f u (forwarder s)"
  have fw: "emits s (s\<lparr>forwarder := snd (snd ?r)\<rparr>)" by (simp add: forward_upstream_def)
  show ?thesis
  proof (cases "isl (fst ?r)")
    case True
    have "emits s (s\<lparr>forwarder := buffer_upstream f' (snd (snd ?r))\<rparr>)" for f'
      using fw by (simp add: emits_def)
    with fw show ?thesis
      unfolding forward_charger_frame_parts(1)[OF refl True] by (simp split: sum.split)
  next
    case False
    have "emits s (s\<lparr>forwarder := snd (snd ?r), manager := record_forwarded ChargerToCentral (manager s)\<rparr>)" using fw by simp
    then show ?thesis
      unfolding forward_charger_frame_parts(2)[OF refl False] by (simp add: Let_def del: emits_fields)
  qed
qed

lemma emits_complete [simp]: "emits s t \<Longrightarrow> emits s (complete_local_call E now fl f t)"
  by (simp add: complete_local_call_def Let_def split: prod.splits)

lemma emits_charger_text: "emits s (snd (snd (charger_text E ws cfg now inst text u s)))"
  by (auto simp: charger_text_def emits_forward_charger_frame split: sum.splits prod.splits option.splits if_splits)

lemma emits_central_text: "emits s (snd (central_text E now text s))"
proof -
  have "emits s (s\<lparr>charger_tx := t, forwarder := fw\<rparr>)"
    if r: "forward_downstream charger_sink_send now f (charger_tx s) (forwarder s) = (r, t, fw)" for f r t fw
  proof -
    have "emits s (s\<lparr>forwarder := fw\<rparr>)"
      using emits_forward[of s charger_sink_send now CentralToCharger f "charger_tx s"] r
      by (simp add: forward_downstream_def del: emits_forward)
    then show ?thesis by (simp add: emits_def)
  qed
  then show ?thesis by (auto simp: central_text_def split: sum.splits prod.splits)
qed

lemma emits_command_received: "emits s (snd (command_received E cfg now inst req s))"
  by (simp add: command_received_def split: prod.splits)

lemma emits_command_tick: "emits s (snd (command_tick E cfg now inst s))"
  by (simp add: command_tick_def Let_def split: prod.splits option.splits)

lemma emits_loop_step: "emits s (snd (snd (loop_step E ws cfg now inst ev u s)))"
proof (cases ev)
  case (FromCharger inp)
  then show ?thesis by (cases inp) (simp_all add: loop_step_def from_charger_def emits_charger_text)
next
  case (FromCentral inp)
  then show ?thesis
    by (cases inp) (simp_all add: loop_step_def from_central_def Let_def case_prod_unfold emits_central_text split: sum.splits)
next
  case HousekeepingTick
  then show ?thesis by (simp add: loop_step_def housekeeping_def)
qed (auto simp: loop_step_def emits_command_received emits_command_tick split: option.splits)

lemma emits_after_lost: "after_lost now inst w s = Some r \<Longrightarrow> emits s (result_state r)"
proof -
  have "emits s (s\<lparr>forwarder := discard_downstream_buffer (forwarder s)\<rparr>)" by simp
  then have "emits s (set_upstream_state now Reconnecting (s\<lparr>forwarder := discard_downstream_buffer (forwarder s)\<rparr>))"
    by (rule emits_set_upstream_state)
  then show "after_lost now inst w s = Some r \<Longrightarrow> emits s (result_state r)"
    by (auto simp: after_lost_def Let_def split: option.splits if_splits)
qed

lemma emits_count_dropped: "emits s (count_dropped s)"
  by (simp add: count_dropped_def Let_def)

section \<open>Answers per charge point\<close>

definition answer_for :: "string \<Rightarrow> mqtt_event \<Rightarrow> string list" where
  "answer_for cp ev = (if event_cp ev = cp then result_id ev else [])"

definition answered :: "string \<Rightarrow> mqtt_event channel \<Rightarrow> string multiset" where
  "answered cp ch = mset (concat (map (answer_for cp) (offered ch)))"

lemma answer_for_own: "\<forall>ev \<in> set evs. event_cp ev = cp \<Longrightarrow> map (answer_for cp) evs = map result_id evs"
  by (simp add: answer_for_def)

lemma answer_for_other: "\<forall>ev \<in> set evs. event_cp ev = cp \<Longrightarrow> cp' \<noteq> cp \<Longrightarrow> concat (map (answer_for cp') evs) = []"
  by (auto simp: answer_for_def)

text \<open>What a session reports, it reports for its own charge point.\<close>

lemma emits_answers:
  assumes "emits s s'" "charge_point_id (forwarder s) = cp"
  obtains new where "reported s' = reported s + new"
    "answered cp (mqtt_tx (forwarder s')) = answered cp (mqtt_tx (forwarder s)) + new"
    "\<And>cp'. cp' \<noteq> cp \<Longrightarrow> answered cp' (mqtt_tx (forwarder s')) = answered cp' (mqtt_tx (forwarder s))"
proof -
  obtain evs where evs: "offered (mqtt_tx (forwarder s')) = offered (mqtt_tx (forwarder s)) @ evs"
    "\<forall>ev \<in> set evs. event_cp ev = cp"
    using assms by (auto simp: emits_def)
  show ?thesis
    by (rule that[of "mset (concat (map result_id evs))"])
       (simp_all add: reported_def reported_by_def answered_def evs(1) answer_for_own[OF evs(2)] answer_for_other[OF evs(2)])
qed

section \<open>The router and the snapshots across the publisher\<close>

lemma router_publish_state [simp]: "pub_router (publish_charge_point_state E A cp s p) = pub_router p"
  by (simp add: publish_charge_point_state_def split: sum.splits)

lemma router_update_snapshot [simp]: "pub_router (update_snapshot E A cp f p) = pub_router p"
  by (simp add: update_snapshot_def Let_def split: prod.splits)

lemma router_result [simp]: "pub_router (publish_command_result E A now cp r p) = pub_router p"
  by (simp add: publish_command_result_def Let_def split: sum.splits)

lemma router_republish [simp]:
  "pub_router (fold (\<lambda>(cp, s). publish_charge_point_state E A cp s) xs p) = pub_router p"
  by (induction xs arbitrary: p) auto

lemma router_subscribe [simp]: "pub_router (try_subscribe A p) = pub_router p"
  by (simp add: try_subscribe_def split: prod.split sum.split)

lemma router_connack [simp]: "pub_router (on_connack E A now p) = pub_router p"
  by (simp add: on_connack_def Let_def republish_snapshots_def flush_buffer_def publish_online_def set_state_def
      drain_fields split: option.split)

lemma snapshots_quiet [simp]:
  "snapshots (fold (\<lambda>(cp, s). publish_charge_point_state E A cp s) xs p) = snapshots p"
  "snapshots (try_subscribe A p) = snapshots p" "snapshots (on_connack E A now p) = snapshots p"
proof -
  show republish: "snapshots (fold (\<lambda>(cp, s). publish_charge_point_state E A cp s) xs p) = snapshots p" for xs p
    by (induction xs arbitrary: p) auto
  show subscribe: "snapshots (try_subscribe A p) = snapshots p" for p
    by (simp add: try_subscribe_def split: prod.split sum.split)
  show "snapshots (on_connack E A now p) = snapshots p"
    by (simp add: on_connack_def Let_def republish subscribe republish_snapshots_def flush_buffer_def publish_online_def
        set_state_def drain_fields split: option.split)
qed

definition ids :: "command_request list \<Rightarrow> string multiset" where
  "ids rs = image_mset req_id (mset rs)"

lemma ids_simps [simp]: "ids [] = {#}" "ids (xs @ ys) = ids xs + ids ys" "ids [r] = {#req_id r#}"
  by (simp_all add: ids_def)

section \<open>Traces\<close>

text \<open>A move of a system is labelled with what an observer sees of it, which may be nothing.\<close>

inductive traces :: "('s \<Rightarrow> 'e list \<Rightarrow> 's \<Rightarrow> bool) \<Rightarrow> 's \<Rightarrow> 'e list \<Rightarrow> 's \<Rightarrow> bool" for move s where
  still: "traces move s [] s"
| then_moves: "traces move s es t \<Longrightarrow> move t fs v \<Longrightarrow> traces move s (es @ fs) v"

lemma traces_one [intro]: "move s es t \<Longrightarrow> traces move s es t"
  using then_moves[OF still, of move s es t] by simp

lemma traces_append [trans]:
  assumes "traces move s es t" "traces move t fs v"
  shows "traces move s (es @ fs) v"
  using assms(2)
proof (induction rule: traces.induct)
  case (then_moves gs u hs v)
  from traces.then_moves[OF then_moves.IH then_moves.hyps(2)] show ?case by simp
qed (simp add: assms(1))

text \<open>A concrete system implements a specification: every move of it, under an invariant, is a trace of the specification with the same labels.\<close>

locale simulation =
  fixes inv :: "'s \<Rightarrow> bool"
    and conc :: "'s \<Rightarrow> 'e list \<Rightarrow> 's \<Rightarrow> bool"
    and spec :: "'a \<Rightarrow> 'e list \<Rightarrow> 'a \<Rightarrow> bool"
    and view :: "'s \<Rightarrow> 'a"
  assumes inv_kept: "inv s \<Longrightarrow> conc s es s' \<Longrightarrow> inv s'"
    and simulated: "inv s \<Longrightarrow> conc s es s' \<Longrightarrow> traces spec (view s) es (view s')"
begin

lemma trace_included: "traces conc s es s' \<Longrightarrow> inv s \<Longrightarrow> inv s' \<and> traces spec (view s) es (view s')"
proof (induction rule: traces.induct)
  case (then_moves es t fs v)
  then have t: "inv t" "traces spec (view s) es (view t)" by blast+
  from traces_append[OF t(2) simulated[OF t(1) then_moves.hyps(2)]] show ?case using inv_kept[OF t(1) then_moves.hyps(2)] by blast
qed (simp add: traces.still)

end

section \<open>The ledger\<close>

text \<open>
  The specification. Every connection has an account: the commands the router accepted for it and its session has not received
  (\<open>awaiting\<close>, in order), those the session has received and not answered (\<open>pending\<close>), and whether the session serves,
  has shut or is over. What an observer sees: a connection of a charger opens; the router accepts a command for it; a charger's command
  is answered; a session shuts; it is over. A session takes commands in the order the router accepted them, answers only
  what it has taken and only once, and shuts only when it has taken and answered all the router had accepted. What is accepted after
  that stays in the account for ever.
\<close>

datatype stage = Unopened | Serving | Shut | Over

record account =
  owner :: string
  awaiting :: "string list"
  pending :: "string multiset"
  stage :: stage

type_synonym ledger = "nat \<Rightarrow> account"

datatype entry =
    Opens nat string
  | Accepts nat string
  | Answers string string
  | Shuts nat
  | Ends nat

definition account_new :: "string \<Rightarrow> stage \<Rightarrow> account" where
  "account_new cp st = \<lparr>owner = cp, awaiting = [], pending = {#}, stage = st\<rparr>"

definition unopened :: ledger where
  "unopened = (\<lambda>_. account_new '''' Unopened)"

inductive ledger_step :: "ledger \<Rightarrow> entry list \<Rightarrow> ledger \<Rightarrow> bool" where
  opens: "stage (L i) = Unopened \<Longrightarrow> ledger_step L [Opens i cp] (L(i := account_new cp Serving))"
| accepts: "stage (L i) \<in> {Serving, Shut} \<Longrightarrow>
    ledger_step L [Accepts i c] (L(i := (L i)\<lparr>awaiting := awaiting (L i) @ [c]\<rparr>))"
| takes: "stage (L i) = Serving \<Longrightarrow> awaiting (L i) = c # cs \<Longrightarrow>
    ledger_step L [] (L(i := (L i)\<lparr>awaiting := cs, pending := add_mset c (pending (L i))\<rparr>))"
| answers: "stage (L i) = Serving \<Longrightarrow> pending (L i) = add_mset c p \<Longrightarrow>
    ledger_step L [Answers (owner (L i)) c] (L(i := (L i)\<lparr>pending := p\<rparr>))"
| shuts: "stage (L i) = Serving \<Longrightarrow> awaiting (L i) = [] \<Longrightarrow> pending (L i) = {#} \<Longrightarrow>
    ledger_step L [Shuts i] (L(i := (L i)\<lparr>stage := Shut\<rparr>))"
| ends: "stage (L i) = Shut \<Longrightarrow> ledger_step L [Ends i] (L(i := (L i)\<lparr>stage := Over\<rparr>))"

inductive_cases ledger_stepE: "ledger_step L es L'"

text \<open>Several commands at once.\<close>

lemma takes_all:
  "stage (L i) = Serving \<Longrightarrow> awaiting (L i) = cs @ ds \<Longrightarrow>
   traces ledger_step L [] (L(i := (L i)\<lparr>awaiting := ds, pending := mset cs + pending (L i)\<rparr>))"
proof (induction cs arbitrary: L)
  case (Cons c cs)
  let ?L = "L(i := (L i)\<lparr>awaiting := cs @ ds, pending := add_mset c (pending (L i))\<rparr>)"
  have "traces ledger_step L [] ?L" using takes[of L i c "cs @ ds"] Cons.prems by auto
  also have "traces ledger_step ?L [] (L(i := (L i)\<lparr>awaiting := ds, pending := mset (c # cs) + pending (L i)\<rparr>))"
    using Cons.IH[of ?L] Cons.prems by (simp del: fun_upd_apply add: fun_upd_same)
  finally show ?case by (simp del: fun_upd_apply)
next
  case Nil
  then have "L(i := (L i)\<lparr>awaiting := ds, pending := mset [] + pending (L i)\<rparr>) = L" by (intro fun_upd_idem) simp
  then show ?case by (metis traces.still)
qed

lemma answers_all:
  "stage (L i) = Serving \<Longrightarrow> owner (L i) = cp \<Longrightarrow> pending (L i) = mset cs + p \<Longrightarrow>
   traces ledger_step L (map (Answers cp) cs) (L(i := (L i)\<lparr>pending := p\<rparr>))"
proof (induction cs arbitrary: L)
  case (Cons c cs)
  let ?L = "L(i := (L i)\<lparr>pending := mset cs + p\<rparr>)"
  have "traces ledger_step L [Answers cp c] ?L" using answers[of L i c "mset cs + p"] Cons.prems by auto
  also have "traces ledger_step ?L (map (Answers cp) cs) (L(i := (L i)\<lparr>pending := p\<rparr>))" using Cons.IH[of ?L] Cons.prems by (simp del: fun_upd_apply add: fun_upd_same)
  finally show ?case by (simp del: fun_upd_apply)
next
  case Nil
  then have "L(i := (L i)\<lparr>pending := p\<rparr>) = L" by (intro fun_upd_idem) simp
  then show ?case by (simp add: traces.still)
qed

lemma accepts_all:
  "cs = [] \<or> stage (L i) \<in> {Serving, Shut} \<Longrightarrow>
   traces ledger_step L (map (Accepts i) cs) (L(i := (L i)\<lparr>awaiting := awaiting (L i) @ cs\<rparr>))"
proof (induction cs arbitrary: L)
  case (Cons c cs)
  let ?L = "L(i := (L i)\<lparr>awaiting := awaiting (L i) @ [c]\<rparr>)"
  have "traces ledger_step L [Accepts i c] ?L" using accepts[of L i c] Cons.prems by auto
  also have "traces ledger_step ?L (map (Accepts i) cs) (L(i := (L i)\<lparr>awaiting := awaiting (L i) @ c # cs\<rparr>))"
    using Cons.IH[of ?L] Cons.prems by (simp del: fun_upd_apply add: fun_upd_same)
  finally show ?case by (simp del: fun_upd_apply)
next
  case Nil
  have "L(i := (L i)\<lparr>awaiting := awaiting (L i) @ []\<rparr>) = L" by simp
  then show ?case by (simp add: traces.still)
qed

text \<open>What the specification rules out: its books balance, whatever its trace.\<close>

definition accepted_ids :: "nat \<Rightarrow> entry list \<Rightarrow> string list" where
  "accepted_ids i es = concat (map (\<lambda>e. case e of Accepts j c \<Rightarrow> if j = i then [c] else [] | _ \<Rightarrow> []) es)"

definition answered_ids :: "string \<Rightarrow> entry list \<Rightarrow> string list" where
  "answered_ids cp es = concat (map (\<lambda>e. case e of Answers cp' c \<Rightarrow> if cp' = cp then [c] else [] | _ \<Rightarrow> []) es)"

definition opened :: "string \<Rightarrow> ledger \<Rightarrow> nat set" where
  "opened cp L = {i. stage (L i) \<noteq> Unopened \<and> owner (L i) = cp}"

definition balanced :: "entry list \<Rightarrow> ledger \<Rightarrow> bool" where
  "balanced es L \<longleftrightarrow>
     (\<forall>i. stage (L i) = Unopened \<longrightarrow> accepted_ids i es = [])
     \<and> (\<forall>i. stage (L i) \<in> {Shut, Over} \<longrightarrow> pending (L i) = {#})
     \<and> (\<forall>cp. finite (opened cp L)
          \<and> (\<Sum>i \<in> opened cp L. mset (accepted_ids i es))
            = mset (answered_ids cp es) + (\<Sum>i \<in> opened cp L. mset (awaiting (L i)) + pending (L i)))"


lemma ids_of_append [simp]:
  "accepted_ids i (es @ fs) = accepted_ids i es @ accepted_ids i fs"
  "answered_ids cp (es @ fs) = answered_ids cp es @ answered_ids cp fs"
  by (simp_all add: accepted_ids_def answered_ids_def)

lemma ids_of_entry [simp]:
  "accepted_ids i [] = []" "accepted_ids i [Opens j cp] = []" "accepted_ids i [Answers cp c] = []" "accepted_ids i [Shuts j] = []"
  "accepted_ids i [Ends j] = []" "accepted_ids i [Accepts j c] = (if j = i then [c] else [])"
  "answered_ids cp [] = []" "answered_ids cp [Opens j cp'] = []" "answered_ids cp [Accepts j c] = []" "answered_ids cp [Shuts j] = []"
  "answered_ids cp [Ends j] = []" "answered_ids cp [Answers cp' c] = (if cp' = cp then [c] else [])"
  by (simp_all add: accepted_ids_def answered_ids_def)

definition outstanding :: "ledger \<Rightarrow> nat \<Rightarrow> string multiset" where
  "outstanding L i = mset (awaiting (L i)) + pending (L i)"

lemma opened_update:
  assumes "stage (L i) \<noteq> Unopened" "stage a \<noteq> Unopened" "owner a = owner (L i)"
  shows "opened cp (L(i := a)) = opened cp L"
  using assms by (auto simp: opened_def)

text \<open>If one account changes, and what it was handed and what was answered with it, the balance stays.\<close>

lemma balance_account:
  fixes f g :: "nat \<Rightarrow> string multiset"
  assumes "finite S" "sum f S = a + sum g S" "i \<in> S" "\<And>j. j \<noteq> i \<Longrightarrow> f' j = f j \<and> g' j = g j" "f' i + b + g i = f i + d + g' i"
  shows "sum f' S + b = a + d + sum g' S"
proof -
  have f: "sum f S = f i + sum f (S - {i})" "sum f' S = f' i + sum f (S - {i})"
    and g: "sum g S = g i + sum g (S - {i})" "sum g' S = g' i + sum g (S - {i})"
    using assms(4) by (simp_all add: sum.remove[OF assms(1,3)] cong: sum.cong_simp)
  have "sum f' S + b + sum g S = sum f S + d + sum g' S" unfolding f g using assms(5) by (simp add: add_ac)
  then show ?thesis unfolding assms(2) by (simp add: add_ac)
qed

lemma balanced_at:
  assumes b: "balanced es L" and L': "L' = L(i := a)" and st: "stage (L i) \<noteq> Unopened" "stage a \<noteq> Unopened" "owner a = owner (L i)"
    and shut: "stage a \<in> {Shut, Over} \<Longrightarrow> pending a = {#}"
    and only: "\<And>j. j \<noteq> i \<Longrightarrow> accepted_ids j fs = []" "\<And>cp. cp \<noteq> owner (L i) \<Longrightarrow> answered_ids cp fs = []"
    and sums: "mset (accepted_ids i fs) + outstanding L i = mset (answered_ids (owner (L i)) fs) + (mset (awaiting a) + pending a)"
  shows "balanced (es @ fs) L'"
proof -
  have "finite (opened cp L') \<and> (\<Sum>j \<in> opened cp L'. mset (accepted_ids j (es @ fs)))
      = mset (answered_ids cp (es @ fs)) + sum (outstanding L') (opened cp L')" for cp
  proof -
    have same: "opened cp L' = opened cp L" unfolding L' using st by (rule opened_update)
    have fin: "finite (opened cp L)" and eq: "(\<Sum>j \<in> opened cp L. mset (accepted_ids j es)) = mset (answered_ids cp es) + sum (outstanding L) (opened cp L)"
      using b by (auto simp: balanced_def outstanding_def)
    show ?thesis
    proof (cases "owner (L i) = cp")
      case True
      then have i: "i \<in> opened cp L" using st(1) by (simp add: opened_def)
      have "(\<Sum>j \<in> opened cp L. mset (accepted_ids j (es @ fs))) + {#}
          = mset (answered_ids cp es) + mset (answered_ids cp fs) + sum (outstanding L') (opened cp L)"
        by (rule balance_account[OF fin eq i]) (use only(1) sums True in \<open>auto simp: L' outstanding_def add_ac\<close>)
      then show ?thesis using same fin by (simp add: add_ac)
    next
      case False
      then have "i \<notin> opened cp L" by (simp add: opened_def)
      then have "sum (outstanding L') (opened cp L) = sum (outstanding L) (opened cp L)"
          "(\<Sum>j \<in> opened cp L. mset (accepted_ids j (es @ fs))) = (\<Sum>j \<in> opened cp L. mset (accepted_ids j es))"
        using only(1) by (force simp: L' outstanding_def intro!: sum.cong)+
      then show ?thesis using same fin eq only(2)[of cp] False by simp
    qed
  qed
  moreover have "accepted_ids j (es @ fs) = []" if "stage (L' j) = Unopened" for j
    using b that only(1)[of j] st by (cases "j = i") (auto simp: L' balanced_def)
  moreover have "pending (L' j) = {#}" if "stage (L' j) \<in> {Shut, Over}" for j
    using b that shut by (cases "j = i") (auto simp: L' balanced_def)
  ultimately show ?thesis by (simp add: balanced_def outstanding_def)
qed

lemma balanced_step:
  assumes "balanced es L" "ledger_step L fs L'"
  shows "balanced (es @ fs) L'"
  using assms(2)
proof cases
  case (opens i cp)
  have e: "accepted_ids i es = []" "finite (opened cp' L)" for cp' using assms(1) opens(3) by (auto simp: balanced_def)
  have o: "opened cp' L' = (if cp' = cp then insert i (opened cp' L) else opened cp' L)" "i \<notin> opened cp' L" for cp'
    using opens by (auto simp: opened_def account_new_def)
  have "(\<Sum>j \<in> opened cp' L. mset (awaiting (L' j)) + pending (L' j)) = (\<Sum>j \<in> opened cp' L. mset (awaiting (L j)) + pending (L j))" for cp'
    using o(2)[of cp'] opens(2) by (intro sum.cong) auto
  moreover have "L' i = account_new cp Serving" "\<And>j. j \<noteq> i \<Longrightarrow> L' j = L j" using opens(2) by simp_all
  moreover have "sum h (opened cp' L') = sum h (opened cp' L)" if "h i = {#}" for h :: "nat \<Rightarrow> string multiset" and cp'
    unfolding o(1)[of cp'] using that e(2)[of cp'] o(2)[of cp'] by auto
  moreover have "stage (L' j) = Unopened \<Longrightarrow> accepted_ids j es = []" "stage (L' j) \<in> {Shut, Over} \<Longrightarrow> pending (L' j) = {#}" for j
    using assms(1) opens(2) by (cases "j = i"; auto simp: balanced_def account_new_def)+
  moreover have "(\<Sum>j \<in> opened cp' L. mset (accepted_ids j es)) = mset (answered_ids cp' es)
      + (\<Sum>j \<in> opened cp' L. mset (awaiting (L j)) + pending (L j))" for cp'
    using assms(1) by (simp add: balanced_def)
  ultimately show ?thesis using e unfolding balanced_def opens(1) by (simp add: o(1) account_new_def)
next
  case (accepts i c)
  show ?thesis by (rule balanced_at[OF assms(1) accepts(2)]) (use accepts(3) assms(1) in \<open>auto simp: accepts(1) outstanding_def balanced_def\<close>)
next
  case (takes i c cs)
  show ?thesis by (rule balanced_at[OF assms(1) takes(2)]) (use takes in \<open>auto simp: outstanding_def\<close>)
next
  case (answers i c p)
  show ?thesis by (rule balanced_at[OF assms(1) answers(2)]) (use answers in \<open>auto simp: outstanding_def\<close>)
next
  case (shuts i)
  show ?thesis by (rule balanced_at[OF assms(1) shuts(2)]) (use shuts in \<open>auto simp: outstanding_def\<close>)
next
  case (ends i)
  show ?thesis by (rule balanced_at[OF assms(1) ends(2)]) (use ends assms(1) in \<open>auto simp: outstanding_def balanced_def\<close>)
qed

lemma ledger_balances: "traces ledger_step unopened es L \<Longrightarrow> balanced es L"
proof (induction rule: traces.induct)
  case still
  then show ?case by (auto simp: balanced_def unopened_def account_new_def opened_def)
qed (rule balanced_step)

lemma ledger_opened: "traces ledger_step unopened es L \<Longrightarrow> opened cp L = {i. Opens i cp \<in> set es}"
proof (induction rule: traces.induct)
  case still
  then show ?case by (simp add: opened_def unopened_def account_new_def)
next
  case (then_moves es L fs L')
  from then_moves.hyps(2) show ?case
  proof cases
    case (opens i cp')
    then have "Opens i cp \<notin> set es" using then_moves.IH by (auto simp: opened_def)
    moreover have "opened cp L' = (if cp = cp' then insert i (opened cp L) else opened cp L - {i})"
      using opens by (auto simp: opened_def account_new_def)
    ultimately show ?thesis using then_moves.IH opens(1) by auto
  qed (use then_moves.IH in \<open>auto simp: opened_update simp del: fun_upd_apply\<close>)
qed

lemma last_entry: "traces ledger_step s gs t \<Longrightarrow> gs = es @ [e] \<Longrightarrow> \<exists>u v. traces ledger_step s es u \<and> ledger_step u [e] v"
proof (induction rule: traces.induct)
  case (then_moves hs t fs v)
  from then_moves.hyps(2) then_moves.prems show ?case
    by cases (use then_moves.IH then_moves.hyps in auto)
qed simp

text \<open>
  So when the only session a charger has had shuts, all it was handed has been answered: one that closes with a command
  it never answered is no trace of the ledger.
\<close>

lemma shut_means_answered:
  assumes t: "traces ledger_step unopened (es @ [Shuts i]) L" and one: "\<And>j. Opens j cp \<in> set es \<longleftrightarrow> j = i"
  shows "mset (answered_ids cp es) = mset (accepted_ids i es)"
proof -
  obtain L1 L2 where L: "traces ledger_step unopened es L1" "ledger_step L1 [Shuts i] L2" using last_entry[OF t refl] by blast
  from L(2) have "awaiting (L1 i) = []" "pending (L1 i) = {#}" by (auto elim: ledger_stepE)
  moreover have "opened cp L1 = {i}" using ledger_opened[OF L(1)] one by auto
  moreover have "(\<Sum>j \<in> opened cp L1. mset (accepted_ids j es))
      = mset (answered_ids cp es) + (\<Sum>j \<in> opened cp L1. mset (awaiting (L1 j)) + pending (L1 j))"
    using ledger_balances[OF L(1)] unfolding balanced_def by blast
  ultimately show ?thesis by simp
qed

section \<open>An example\<close>

definition demo_settings :: session_config where
  "demo_settings = \<lparr>sc_central_system_url = ''ws://cs.example/ocpp'', sc_upstream_bind_address = None,
     sc_subprotocol = ''ocpp1.6'', sc_connect_timeout = from_secs 10,
     sc_message_buffer_size = 100, sc_max_buffer_duration = from_secs 30, sc_initial_backoff = from_secs 1,
     sc_max_backoff = from_secs 60, max_reconnect_window = from_secs 300, call_tracker_max_age = from_secs 300,
     sc_charging = charging_config_default\<rparr>"

definition demo_ws :: "unit ws_send" where
  "demo_ws u m = (Inr (), ())"

definition demo_clear :: command_request where
  "demo_clear = request_new 5 (generated_id 5 ''limit'') ClearCurrentLimit SourceMqtt"
lemma demo_clear_parsed:
  "parse_command_topic ''ocpp/CP1/command/current_limit'' = Some (''CP1'', TopicCurrentLimit)"
  "parse_command_payload demo_ext 5 TopicCurrentLimit ''off'' = Inr demo_clear"
proof -
  show "parse_command_topic ''ocpp/CP1/command/current_limit'' = Some (''CP1'', TopicCurrentLimit)"
    by (simp add: parse_command_topic_def)
  have "to_ascii_lowercase ''off'' = ''off''" by code_simp
  then show "parse_command_payload demo_ext 5 TopicCurrentLimit ''off'' = Inr demo_clear"
    by (simp add: parse_command_payload_def from_utf8_def trim_def trim_start.simps trim_end.simps
        ws_suffix_def starts_with_def Let_def demo_clear_def)
qed

end
