(* ===== verification/Fleet.thy ===== *)
theory Fleet
  imports Ledger Takeover
begin

text \<open>
  All connection handlers of \<open>src/downstream.rs\<close> with the sessions they run (\<open>src/session.rs\<close>), interleaved at
  every point where a session waits: any number of connections of the same charger may overlap, share the state manager, the
  event channel, the table and the router, and be displaced or shut down through their tokens. The lemmas show that at
  most one of them leads, that no command is lost in a takeover that was not lost before, and how a session ends
  when its token is cancelled.
\<close>

section \<open>A session between two waits\<close>

text \<open>
  Where a session stands: about to dial the Central System, dialling, in the forwarding loop, in the pause after a
  failed attempt or a lost connection, in the 100 ms of its teardown, and returned.
\<close>

datatype leg = Dial_next | Dialling | In_loop | Retry_pause | Lost_pause | Closing | Returned_leg

text \<open>
  One turn of a session: the connection attempt is started, fails or succeeds; the forwarding loop handles an event; a
  command is received; a pause ends; the teardown's wait ends. A pause after a lost connection does not listen to the charger.
\<close>

datatype 'u turn =
    StartDial utc
  | FailDial utc nat
  | EndDial utc 'u
  | HandleLoop utc nat loop_event
  | Receive utc nat
  | EndPause utc wake
  | SignOff utc

text \<open>\<open>rest\<close> is what the command channel holds unread. The second component of a result is how much of it was taken.\<close>

definition break_off :: "ext \<Rightarrow> utc \<Rightarrow> command_request list \<Rightarrow> nat \<Rightarrow> 'u \<Rightarrow> session \<Rightarrow> leg \<times> nat \<times> 'u \<times> session" where
  "break_off E now rest n u s = (Closing, length rest, u, wind_down E now (drop n rest) s)"

definition loop_turn ::
    "ext \<Rightarrow> utc \<Rightarrow> nat \<Rightarrow> command_request list \<Rightarrow> nat \<Rightarrow> 'u verdict \<Rightarrow> (leg \<times> nat \<times> 'u \<times> session) option" where
  "loop_turn E now inst rest n v =
     (case v of
        (None, u, s) \<Rightarrow> Some (In_loop, n, u, s)
      | (Some UpstreamLost, u, s) \<Rightarrow> map_option (\<lambda>r. (Lost_pause, n, u, result_state r)) (after_lost now inst SleepDone s)
      | (Some _, u, s) \<Rightarrow> Some (break_off E now rest n u s))"

text \<open>\<open>None\<close>: the turn does not fit the leg, or \<open>next_delay\<close> panics. \<open>dropped\<close>: the router holds no sender any more.\<close>

fun session_turn ::
    "ext \<Rightarrow> 'u ws_send \<Rightarrow> session_config \<Rightarrow> bool \<Rightarrow> command_request list \<Rightarrow> leg \<Rightarrow> 'u \<Rightarrow> session \<Rightarrow> 'u turn
      \<Rightarrow> (leg \<times> nat \<times> 'u \<times> session) option" where
  "session_turn E ws cfg dropped rest l u s (StartDial now) =
     (if l = Dial_next then Some (Dialling, 0, u, dial now s) else None)"
| "session_turn E ws cfg dropped rest l u s (FailDial now inst) =
     (if l \<noteq> Dialling then None
      else (case dial_failed cfg now inst s of
              None \<Rightarrow> None
            | Some (Break s') \<Rightarrow> Some (break_off E now rest 0 u s')
            | Some r \<Rightarrow> Some (Retry_pause, 0, u, result_state r)))"
| "session_turn E ws cfg dropped rest l u s (EndDial now u') =
     (if l \<noteq> Dialling then None
      else (case dial_done ws now u' s of (ok, u'', s') \<Rightarrow> Some (if ok then In_loop else Dial_next, 0, u'', s')))"
| "session_turn E ws cfg dropped rest l u s (HandleLoop now inst ev) =
     (if l \<noteq> In_loop then None
      else (case ev of
              CommandRecv (Some _) \<Rightarrow> None
            | CommandRecv None \<Rightarrow>
                if dropped \<and> rest = [] then loop_turn E now inst rest 0 (loop_step E ws cfg now inst ev u s) else None
            | _ \<Rightarrow> loop_turn E now inst rest 0 (loop_step E ws cfg now inst ev u s)))"
| "session_turn E ws cfg dropped rest l u s (Receive now inst) =
     (if l \<noteq> In_loop \<or> \<not> commands_open s then None
      else (case rest of
              [] \<Rightarrow> None
            | req # _ \<Rightarrow> loop_turn E now inst rest 1 (loop_step E ws cfg now inst (CommandRecv (Some req)) u s)))"
| "session_turn E ws cfg dropped rest l u s (EndPause now w) =
     (if l = Retry_pause then
        (case wake_result w s of Break s' \<Rightarrow> Some (break_off E now rest 0 u s') | r \<Rightarrow> Some (Dial_next, 0, u, result_state r))
      else if l = Lost_pause then
        (case w of
           SleepDone \<Rightarrow> Some (Dial_next, 0, u, s)
         | WakeCancelled \<Rightarrow> Some (break_off E now rest 0 u s)
         | WakeCharger _ \<Rightarrow> None)
      else None)"
| "session_turn E ws cfg dropped rest l u s (SignOff now) =
     (if l = Closing then Some (Returned_leg, 0, u, set_upstream_state now Disconnected s) else None)"

text \<open>The turns that need a cancelled token.\<close>

fun observes_token :: "'u turn \<Rightarrow> bool" where
  "observes_token (HandleLoop _ _ Cancelled) = True"
| "observes_token (EndPause _ WakeCancelled) = True"
| "observes_token _ = False"


section \<open>What a turn keeps\<close>

lemma wind_down_facts:
  "emits s (wind_down E now waiting s)"
  "accounted (wind_down E now waiting s) = accounted s + ids waiting"
  "held (local (wind_down E now waiting s)) = {#}"
proof -
  show "emits s (wind_down E now waiting s)"
    using emits_count_dropped[of s] by (auto simp: wind_down_def Let_def split: prod.splits option.splits)
  have t: "accounted (teardown E now waiting s) = accounted (wind_down E now waiting s)"
    "local (teardown E now waiting s) = local (wind_down E now waiting s)"
    unfolding teardown_wind_down accounted_set_upstream_state by (simp_all add: set_upstream_state_def publish_status_def send_event_def Let_def)
  from t show "accounted (wind_down E now waiting s) = accounted s + ids waiting"
    using teardown_reports_all[of E now waiting s] by (simp add: accounted_def ids_def)
  from t show "held (local (wind_down E now waiting s)) = {#}"
    using teardown_reports_all[of E now waiting s] by simp
qed

lemma dial_failed_facts:
  assumes "dial_failed cfg now inst s = Some r"
  shows "emits s (result_state r)" "accounted (result_state r) = accounted s" "\<And>s'. r \<noteq> Continue s'"
  using assms by (auto simp: dial_failed_def Let_def split: if_splits option.splits)

lemma dial_done_facts:
  "emits s (snd (snd (dial_done ws now u s)))" "accounted (snd (snd (dial_done ws now u s))) = accounted s"
proof -
  have acc: "accounted (v\<lparr>forwarder := snd (snd (flush_upstream (upstream_sink_send ws) u (forwarder v)))\<rparr>) = accounted v" for v :: session
    using reported_by_forwarder(6)[of "upstream_sink_send ws" u "forwarder v"] by (simp add: accounted_def reported_def)
  define v where "v = set_upstream_state now Connected (s\<lparr>sess_backoff := reset (sess_backoff s), reconnecting_since := None\<rparr>)"
  obtain r u' fw where f: "flush_upstream (upstream_sink_send ws) u (forwarder v) = (r, u', fw)" by (metis prod_cases3)
  have "emits s v" "accounted v = accounted s" by (simp_all add: v_def)
  then have w: "emits s (v\<lparr>forwarder := fw\<rparr>)" "accounted (v\<lparr>forwarder := fw\<rparr>) = accounted s"
    using acc[of v] f emits_cong(1)[of "v\<lparr>forwarder := fw\<rparr>" v s] forwarder_quiet(9,10)[of "upstream_sink_send ws" u "forwarder v"] by simp_all
  then show "emits s (snd (snd (dial_done ws now u s)))" "accounted (snd (snd (dial_done ws now u s))) = accounted s"
    by (auto simp: dial_done_def Let_def v_def[symmetric] f record_replayed_def accounted_def split: sum.splits)
qed

text \<open>
  A session says only things of its own and answers or holds what it takes; when it closes it has read everything and holds
  nothing, and then it only returns.
\<close>

definition turn_ok :: "command_request list \<Rightarrow> leg \<Rightarrow> session \<Rightarrow> leg \<times> nat \<times> 'u \<times> session \<Rightarrow> bool" where
  "turn_ok rest l s r \<longleftrightarrow>
     (case r of (l', n, _, s') \<Rightarrow> emits s s' \<and> n \<le> length rest \<and> accounted s' = accounted s + ids (take n rest)
        \<and> (l' = Closing \<longrightarrow> held (local s') = {#} \<and> n = length rest)
        \<and> (l' = Returned_leg \<longrightarrow> l = Closing \<and> local s' = local s \<and> n = 0)
        \<and> (l = Closing \<longrightarrow> l' = Returned_leg) \<and> l \<noteq> Returned_leg)"

lemma turn_ok_break:
  assumes "emits s s'" "accounted s' = accounted s + ids (take n rest)" "n \<le> length rest" "l \<notin> {Closing, Returned_leg}"
  shows "turn_ok rest l s (break_off E now rest n u s')"
proof -
  have "ids rest = ids (take n rest) + ids (drop n rest)" by (metis append_take_drop_id ids_simps(2))
  then show ?thesis
    using assms emits_trans[OF assms(1) wind_down_facts(1)] by (simp add: turn_ok_def break_off_def wind_down_facts add_ac)
qed

lemma turn_ok_loop:
  assumes "loop_turn E now inst rest n v = Some r" "emits s (snd (snd v))" "n \<le> length rest"
    and "accounted (snd (snd v)) = accounted s + ids (take n rest)" "l = In_loop"
  shows "turn_ok rest l s r"
proof -
  obtain oc u s' where v: "v = (oc, u, s')" by (metis prod_cases3)
  note b = turn_ok_break[of s s' n rest l E now u]
  show ?thesis
    using assms b v emits_trans[OF _ emits_after_lost] accounted_after_lost
    by (auto simp: loop_turn_def turn_ok_def split: option.splits loop_outcome.splits)
qed

lemma session_turn_ok:
  assumes "session_turn E ws cfg dropped rest l u s t = Some r"
  shows "turn_ok rest l s r"
proof (cases t)
  case (StartDial now)
  then show ?thesis using assms by (auto simp: turn_ok_def dial_def split: if_splits)
next
  case (FailDial now inst)
  then obtain x where x: "dial_failed cfg now inst s = Some x" "l = Dialling" using assms by (auto split: if_splits option.splits)
  note f = dial_failed_facts[OF x(1)]
  show ?thesis
    using assms FailDial x f turn_ok_break[of s "result_state x" 0 rest l E now u]
    by (cases x) (auto simp: turn_ok_def)
next
  case (EndDial now u')
  then show ?thesis
    using assms dial_done_facts[where s = s and ws = ws and now = now and u = u'] by (auto simp: turn_ok_def split: if_splits prod.splits)
next
  case (HandleLoop now inst ev)
  let ?v = "loop_step E ws cfg now inst ev u s"
  have "received ev s = {#}" "loop_turn E now inst rest 0 ?v = Some r" "l = In_loop"
    using assms HandleLoop by (cases ev; auto simp: received_def split: if_splits option.splits)+
  then show ?thesis
    using turn_ok_loop[of E now inst rest 0 ?v r s l] emits_loop_step[of s E ws cfg now inst ev u]
      accounted_loop_step[of E ws cfg now inst ev u s] by simp
next
  case (Receive now inst)
  then obtain req rest' where q: "rest = req # rest'" "commands_open s" "l = In_loop"
      "loop_turn E now inst rest 1 (loop_step E ws cfg now inst (CommandRecv (Some req)) u s) = Some r"
    using assms by (auto split: if_splits list.splits)
  then show ?thesis
    using turn_ok_loop[OF q(4) emits_loop_step _ _ q(3)] accounted_loop_step[of E ws cfg now inst "CommandRecv (Some req)" u s]
    by (simp add: received_def)
next
  case (EndPause now w)
  have "result_state (wake_result w s) = s" by (auto simp: wake_result_def split: wake.splits)
  then show ?thesis
    using assms EndPause turn_ok_break[of s s 0 rest l E now u]
    by (cases "wake_result w s"; cases w) (auto simp: turn_ok_def split: if_splits)
next
  case (SignOff now)
  have "local (set_upstream_state now Disconnected s) = local s"
    by (simp add: set_upstream_state_def publish_status_def send_event_def Let_def)
  then show ?thesis using assms SignOff by (auto simp: turn_ok_def split: if_splits)
qed


section \<open>Handlers and sessions together\<close>

text \<open>
  \<open>bd_chan\<close> is the command channel of a connection, whose sender the router holds as the connection's number;
  \<open>bd_taken\<close> is how many commands the session has received from it. A session that has returned has dropped its receiver.
\<close>

record 'u body =
  bd_sess :: session
  bd_uplink :: 'u
  bd_leg :: leg
  bd_taken :: nat
  bd_chan :: "command_request channel"

record 'u fleet =
  handlers :: "nat world"
  bodies :: "'u body list"
  stopping :: bool
  consumed :: nat

definition body_new :: "session_config \<Rightarrow> string \<Rightarrow> 'u \<Rightarrow> nat world \<Rightarrow> 'u body" where
  "body_new cfg cp u w =
     \<lparr>bd_sess = session_new cfg cp (ds_mqtt_tx (shared w)) (ds_manager (shared w)), bd_uplink = u, bd_leg = Dial_next,
      bd_taken = 0, bd_chan = channel_new COMMAND_CHANNEL_CAPACITY\<rparr>"

definition unread :: "'u body \<Rightarrow> command_request list" where
  "unread b = drop (bd_taken b) (passed (bd_chan b))"

text \<open>The session of connection \<open>i\<close> with the shared parts in place, and the return of both after a turn.\<close>

definition attach :: "nat \<Rightarrow> 'u fleet \<Rightarrow> session" where
  "attach i F =
     (let s = bd_sess (bodies F ! i); st = shared (handlers F)
      in s\<lparr>manager := ds_manager st, forwarder := (forwarder s)\<lparr>mqtt_tx := ds_mqtt_tx st\<rparr>\<rparr>)"

definition detach :: "nat \<Rightarrow> leg \<times> nat \<times> 'u \<times> session \<Rightarrow> 'u fleet \<Rightarrow> 'u fleet" where
  "detach i r F =
     (case r of (l, n, u, s) \<Rightarrow>
        let b = bodies F ! i; ch = bd_chan b; st = shared (handlers F)
        in F\<lparr>handlers := (handlers F)\<lparr>shared := st\<lparr>ds_manager := manager s, ds_mqtt_tx := mqtt_tx (forwarder s)\<rparr>\<rparr>,
             bodies := (bodies F)[i := \<lparr>bd_sess = s, bd_uplink = u, bd_leg = l, bd_taken = bd_taken b + n,
                 bd_chan = ch\<lparr>room := room ch + n, closed := closed ch \<or> l = Returned_leg\<rparr>\<rparr>]\<rparr>)"

definition token_set :: "nat \<Rightarrow> 'u fleet \<Rightarrow> bool" where
  "token_set i F \<longleftrightarrow> stopping F \<or> i \<in> set (cancelled (shared (handlers F)))"

definition sender_dropped :: "nat \<Rightarrow> 'u fleet \<Rightarrow> bool" where
  "sender_dropped i F =
     (case ds_router (shared (handlers F)) (task_cp (tasks (handlers F) ! i)) of None \<Rightarrow> True | Some reg \<Rightarrow> tx reg \<noteq> i)"

fun is_running :: "phase \<Rightarrow> bool" where
  "is_running (Running _) = True"
| "is_running _ = False"

text \<open>The publisher hands a command to the router, which puts it into the channel its sender belongs to.\<close>

definition send_to :: "'u fleet \<Rightarrow> nat \<Rightarrow> command_request \<Rightarrow> (try_send_error + unit) \<times> nat" where
  "send_to F i req = (fst (try_send (bd_chan (bodies F ! i)) req), i)"

definition deliver :: "string \<Rightarrow> command_request \<Rightarrow> 'u fleet \<Rightarrow> (dispatch_error + unit) \<times> 'u fleet" where
  "deliver cp req F =
     (let st = shared (handlers F); (r, router) = dispatch (send_to F) cp req (ds_router st);
          F' = F\<lparr>handlers := (handlers F)\<lparr>shared := st\<lparr>ds_router := router\<rparr>\<rparr>\<rparr>
      in case ds_router st cp of
           None \<Rightarrow> (r, F')
         | Some reg \<Rightarrow>
            (let b = bodies F ! tx reg
             in (r, F'\<lparr>bodies := (bodies F)[tx reg := b\<lparr>bd_chan := snd (try_send (bd_chan b) req)\<rparr>]\<rparr>)))"

text \<open>
  An upgrade request arrives, and if it is accepted its connection may come about; a handler, and a session within its
  handler, take a step; the publisher delivers a command, takes an event, mirrors its state or ends and drops its receiver;
  the proxy is shut down.
\<close>

datatype 'u event =
    Knock string "string option" utc bool 'u
  | Walk nat utc
  | Turn nat "'u turn"
  | Deliver string command_request
  | Consume
  | Mirror utc connection_state
  | Unplug
  | Stop

definition knock :: "session_config \<Rightarrow> string \<Rightarrow> string option \<Rightarrow> utc \<Rightarrow> bool \<Rightarrow> 'u \<Rightarrow> 'u fleet \<Rightarrow> 'u fleet" where
  "knock cfg cp header now arrives u F =
     (let (response, st) = ws_upgrade_handler now header (shared (handlers F)); w = (handlers F)\<lparr>shared := st\<rparr>
      in case response of
           BadRequest _ \<Rightarrow> F
         | Upgrade _ \<Rightarrow>
             if arrives
             then F\<lparr>handlers := perform now (Arrive cp (length (tasks w))) w, bodies := bodies F @ [body_new cfg cp u w]\<rparr>
             else F\<lparr>handlers := w\<rparr>)"

fun happen :: "ext \<Rightarrow> 'u ws_send \<Rightarrow> session_config \<Rightarrow> 'u event \<Rightarrow> 'u fleet \<Rightarrow> 'u fleet option" where
  "happen E ws cfg (Knock cp header now arrives u) F = Some (knock cfg cp header now arrives u F)"
| "happen E ws cfg (Walk i now) F =
     (if i < length (bodies F) \<and> (is_running (phase_of (handlers F) i) \<longrightarrow> bd_leg (bodies F ! i) = Returned_leg)
      then Some (F\<lparr>handlers := perform now (Advance i) (handlers F)\<rparr>) else None)"
| "happen E ws cfg (Turn i t) F =
     (if i < length (bodies F) \<and> is_running (phase_of (handlers F) i) \<and> (observes_token t \<longrightarrow> token_set i F)
      then map_option (\<lambda>r. detach i r F)
             (session_turn E ws cfg (sender_dropped i F) (unread (bodies F ! i)) (bd_leg (bodies F ! i))
                (bd_uplink (bodies F ! i)) (attach i F) t)
      else None)"
| "happen E ws cfg (Deliver cp req) F = Some (snd (deliver cp req F))"
| "happen E ws cfg Consume F =
     (let st = shared (handlers F); ch = ds_mqtt_tx st
      in if consumed F < length (passed ch)
         then Some (F\<lparr>handlers := (handlers F)\<lparr>shared := st\<lparr>ds_mqtt_tx := ch\<lparr>room := Suc (room ch)\<rparr>\<rparr>\<rparr>, consumed := Suc (consumed F)\<rparr>)
         else None)"
| "happen E ws cfg (Mirror now s) F =
     (let st = shared (handlers F)
      in Some (F\<lparr>handlers := (handlers F)\<lparr>shared := st\<lparr>ds_manager := transition now Mqtt s (ds_manager st)\<rparr>\<rparr>\<rparr>))"
| "happen E ws cfg Unplug F =
     (let st = shared (handlers F)
      in Some (F\<lparr>handlers := (handlers F)\<lparr>shared := st\<lparr>ds_mqtt_tx := (ds_mqtt_tx st)\<lparr>closed := True\<rparr>\<rparr>\<rparr>\<rparr>))"
| "happen E ws cfg Stop F = Some (F\<lparr>stopping := True\<rparr>)"

inductive fleet_run :: "ext \<Rightarrow> 'u ws_send \<Rightarrow> session_config \<Rightarrow> 'u fleet \<Rightarrow> 'u fleet \<Rightarrow> bool" for E ws cfg F0 where
  idle: "fleet_run E ws cfg F0 F0"
| moved: "fleet_run E ws cfg F0 F \<Longrightarrow> happen E ws cfg e F = Some F' \<Longrightarrow> fleet_run E ws cfg F0 F'"

inductive_cases fleet_runE: "fleet_run E ws cfg F0 F"

fun happens :: "ext \<Rightarrow> 'u ws_send \<Rightarrow> session_config \<Rightarrow> 'u event list \<Rightarrow> 'u fleet \<Rightarrow> 'u fleet option" where
  "happens E ws cfg [] F = Some F"
| "happens E ws cfg (e # es) F = (case happen E ws cfg e F of None \<Rightarrow> None | Some F' \<Rightarrow> happens E ws cfg es F')"

lemma happens_run: "happens E ws cfg es F = Some F' \<Longrightarrow> fleet_run E ws cfg F0 F \<Longrightarrow> fleet_run E ws cfg F0 F'"
  by (induction es arbitrary: F) (auto split: option.splits intro: fleet_run.moved)

definition fleet_new :: "state_manager \<Rightarrow> 'u fleet" where
  "fleet_new m =
     \<lparr>handlers = \<lparr>shared = \<lparr>connections = Map.empty, ds_manager = m, ds_mqtt_tx = channel_new 1000, next_generation = 1,
        cancelled = [], ds_router = Map.empty\<rparr>, tasks = []\<rparr>, bodies = [], stopping = False, consumed = 0\<rparr>"

end
