(* ===== verification/Fleet_Facts.thy ===== *)
theory Fleet_Facts
  imports Fleet
begin

text \<open>
  Invariants of \<open>Fleet\<close>: the locale \<open>fleet_law\<close> turns what every event keeps into a fact of all reachable fleets. It is
  interpreted for the table of connections, for the agreement of handlers, sessions and router, and for the account of
  commands.
\<close>

locale fleet_law =
  fixes E :: ext and ws :: "'u ws_send" and cfg :: session_config and inv :: "'u fleet \<Rightarrow> bool"
  assumes kept: "inv F \<Longrightarrow> happen E ws cfg e F = Some F' \<Longrightarrow> inv F'"
begin

lemma run_keeps: "fleet_run E ws cfg F0 F \<Longrightarrow> inv F0 \<Longrightarrow> inv F"
  by (induction rule: fleet_run.induct) (auto intro: kept)

end

section \<open>The table\<close>

lemma beside_refl [simp]: "beside w w"
  by (simp add: beside_def)

lemma detach_beside: "beside (handlers F) (handlers (detach i r F))"
  by (simp add: detach_def beside_def Let_def split: prod.splits)

lemma upgrade_effect:
  "(\<exists>m. ws_upgrade_handler now header st = (BadRequest m, st))
   \<or> (\<exists>p. ws_upgrade_handler now header st = (Upgrade p, st\<lparr>ds_manager := transition now Downstream Connecting (ds_manager st)\<rparr>))"
  by (simp add: ws_upgrade_handler_def Let_def)

lemma detach_router [simp]: "ds_router (shared (handlers (detach i r F))) = ds_router (shared (handlers F))"
  by (simp add: detach_def Let_def split: prod.splits)

lemma knock_cases:
  obtains "knock cfg cp header now arrives u F = F"
  | st where "knock cfg cp header now arrives u F = F\<lparr>handlers := (handlers F)\<lparr>shared := st\<rparr>\<rparr>"
      "st = (shared (handlers F))\<lparr>ds_manager := transition now Downstream Connecting (ds_manager (shared (handlers F)))\<rparr>"
  | w where "knock cfg cp header now arrives u F = F\<lparr>handlers := perform now (Arrive cp (length (tasks (handlers F)))) w,
        bodies := bodies F @ [body_new cfg cp u w]\<rparr>"
      "w = (handlers F)\<lparr>shared := (shared (handlers F))\<lparr>ds_manager := transition now Downstream Connecting (ds_manager (shared (handlers F)))\<rparr>\<rparr>"
  using upgrade_effect[of now header "shared (handlers F)"]
proof (elim disjE exE)
  fix m assume "ws_upgrade_handler now header (shared (handlers F)) = (BadRequest m, shared (handlers F))"
  then show ?thesis using that(1) by (simp add: knock_def)
next
  fix p assume "ws_upgrade_handler now header (shared (handlers F))
     = (Upgrade p, (shared (handlers F))\<lparr>ds_manager := transition now Downstream Connecting (ds_manager (shared (handlers F)))\<rparr>)"
  then show ?thesis using that(2,3) by (cases arrives) (simp_all add: knock_def Let_def)
qed

text \<open>What the handlers and the table keep on their own, they keep among all events.\<close>

lemma happen_handlers:
  assumes walks: "\<And>now a w. law w \<Longrightarrow> law (perform now a w)" and same: "\<And>w w'. beside w w' \<Longrightarrow> law w \<Longrightarrow> law w'"
    and F: "law (handlers F)" "happen E ws cfg e F = Some F'"
  shows "law (handlers F')"
proof (cases e)
  case (Knock cp header now arrives u)
  then have F': "F' = knock cfg cp header now arrives u F" using F(2) by simp
  show ?thesis
  proof (rule knock_cases[of cfg cp header now arrives u F])
    fix w assume "knock cfg cp header now arrives u F = F\<lparr>handlers := perform now (Arrive cp (length (tasks (handlers F)))) w,
        bodies := bodies F @ [body_new cfg cp u w]\<rparr>"
      "w = (handlers F)\<lparr>shared := (shared (handlers F))\<lparr>ds_manager := transition now Downstream Connecting (ds_manager (shared (handlers F)))\<rparr>\<rparr>"
    then show ?thesis
      using F' walks[of w] same[of "handlers F" w] F(1) by (simp add: beside_def)
  qed (use F' F(1) same[of "handlers F" "handlers F'"] in \<open>auto simp: beside_def\<close>)
next
  case (Walk i now)
  then show ?thesis using F walks by (auto split: if_splits)
next
  case (Turn i t)
  then show ?thesis using F same[OF detach_beside] by (auto split: if_splits)
next
  case (Deliver cp req)
  then show ?thesis
    using F same[of "handlers F" "handlers F'"]
    by (auto simp: beside_def deliver_def Let_def split: prod.splits option.splits)
qed (use F same[of "handlers F" "handlers F'"] in \<open>auto simp: beside_def Let_def split: if_splits\<close>)

interpretation table_law: fleet_law E ws cfg "\<lambda>F. takeover_ok (handlers F)" for E ws cfg
  by unfold_locales (rule happen_handlers[where law = takeover_ok, OF takeover_perform takeover_beside])

lemma table_live_beside: "beside w w' \<Longrightarrow> table_live w \<Longrightarrow> table_live w'"
  by (simp add: beside_def table_live_def table_entry_def)

interpretation table_entries: fleet_law E ws cfg "\<lambda>F. table_live (handlers F)" for E ws cfg
  by unfold_locales (rule happen_handlers[where law = table_live, OF table_live_perform table_live_beside])


section \<open>Handlers, sessions and the router\<close>

fun not_started :: "phase \<Rightarrow> bool" where
  "not_started Accepted_socket = True"
| "not_started (Fetched _) = True"
| "not_started (Tabled _) = True"
| "not_started (Routed _) = True"
| "not_started _ = False"

fun routed_as :: "phase \<Rightarrow> u64 option" where
  "routed_as (Routed g) = Some g"
| "routed_as (Running g) = Some g"
| "routed_as (Finished g) = Some g"
| "routed_as _ = None"

text \<open>Where a session may stand, given how far its handler has come.\<close>

definition in_step :: "'u body \<Rightarrow> nat task \<Rightarrow> bool" where
  "in_step b t \<longleftrightarrow>
     (not_started (task_phase t) \<longrightarrow> bd_leg b = Dial_next)
     \<and> (\<not> not_started (task_phase t) \<and> \<not> is_running (task_phase t) \<longrightarrow> bd_leg b = Returned_leg)
     \<and> closed (bd_chan b) = (bd_leg b = Returned_leg)
     \<and> bd_taken b \<le> length (passed (bd_chan b))
     \<and> (bd_leg b \<in> {Closing, Returned_leg} \<longrightarrow> held (local (bd_sess b)) = {#})
     \<and> charge_point_id (forwarder (bd_sess b)) = task_cp t"

definition sessions_ok :: "'u fleet \<Rightarrow> bool" where
  "sessions_ok F \<longleftrightarrow> list_all2 in_step (bodies F) (tasks (handlers F))"

definition router_ok :: "nat world \<Rightarrow> bool" where
  "router_ok w \<longleftrightarrow>
     (\<forall>i < length (tasks w). task_tx (tasks w ! i) = i)
     \<and> (\<forall>cp reg. ds_router (shared w) cp = Some reg \<longrightarrow>
          tx reg < length (tasks w) \<and> task_cp (tasks w ! tx reg) = cp \<and> routed_as (phase_of w (tx reg)) = Some (generation reg))"

lemma router_ok_beside: "beside w w' \<Longrightarrow> ds_router (shared w') = ds_router (shared w) \<Longrightarrow> router_ok w' = router_ok w"
  by (simp add: router_ok_def beside_def)

lemma advance_same [simp]:
  "task_cp (fst (advance now i t st)) = task_cp t" "task_tx (fst (advance now i t st)) = task_tx t"
  by (auto simp: advance_def Let_def split: phase.splits prod.splits)

lemma advance_router:
  assumes "advance now i t st = (t', st')" "ds_router st' cp = Some reg"
  shows "(ds_router st cp = Some reg \<and> (cp = task_cp t \<longrightarrow> routed_as (task_phase t) = Some (generation reg) \<longrightarrow>
            routed_as (task_phase t') = Some (generation reg)))
    \<or> (cp = task_cp t \<and> tx reg = task_tx t \<and> routed_as (task_phase t') = Some (generation reg))"
  using assms
  by (cases "task_phase t")
     (auto simp: advance_def fetch_generation_def insert_connection_def router_register_def router_deregister_def
       deregister_connection_def announce_def ds_publish_status_def Let_def split: option.splits if_splits prod.splits)

lemma router_ok_advance:
  assumes ok: "router_ok w" and i: "i < length (tasks w)" and a: "advance now i (tasks w ! i) (shared w) = (t', st')"
  shows "router_ok (w\<lparr>shared := st', tasks := (tasks w)[i := t']\<rparr>)"
proof -
  have t': "task_cp t' = task_cp (tasks w ! i)" "task_tx t' = i"
    using advance_same[of now i "tasks w ! i" "shared w"] a ok i by (simp_all add: router_ok_def)
  have "tx reg < length (tasks w) \<and> task_cp ((tasks w)[i := t'] ! tx reg) = cp
      \<and> routed_as (task_phase ((tasks w)[i := t'] ! tx reg)) = Some (generation reg)"
    if r: "ds_router st' cp = Some reg" for cp reg
    using advance_router[OF a r]
  proof
    assume c: "ds_router (shared w) cp = Some reg \<and> (cp = task_cp (tasks w ! i) \<longrightarrow>
        routed_as (phase_of w i) = Some (generation reg) \<longrightarrow> routed_as (task_phase t') = Some (generation reg))"
    then have "tx reg < length (tasks w)" "task_cp (tasks w ! tx reg) = cp" "routed_as (phase_of w (tx reg)) = Some (generation reg)"
      using ok unfolding router_ok_def by blast+
    then show ?thesis using c t' i by (cases "tx reg = i") auto
  next
    assume "cp = task_cp (tasks w ! i) \<and> tx reg = task_tx (tasks w ! i) \<and> routed_as (task_phase t') = Some (generation reg)"
    then show ?thesis using t' i ok by (simp add: router_ok_def)
  qed
  moreover have "\<forall>j < length (tasks w). task_tx ((tasks w)[i := t'] ! j) = j"
    using ok t' i by (auto simp: router_ok_def nth_list_update)
  ultimately show ?thesis by (simp add: router_ok_def)
qed

lemma router_ok_arrive: "router_ok w \<Longrightarrow> router_ok (perform now (Arrive cp (length (tasks w))) w)"
  by (fastforce simp: router_ok_def perform_def nth_append)

lemma router_ok_walk: "router_ok w \<Longrightarrow> router_ok (perform now (Advance i) w)"
  using router_ok_advance[of w i now] by (simp add: perform_def Let_def split: prod.split)

text \<open>A handler leaves its session's phase only when the session has returned.\<close>

lemma in_step_advance:
  assumes "in_step b t" "is_running (task_phase t) \<longrightarrow> bd_leg b = Returned_leg"
  shows "in_step b (fst (advance now i t st))"
  using assms by (cases "task_phase t") (auto simp: in_step_def advance_def Let_def split: prod.splits)

lemma in_step_new: "in_step (body_new cfg cp u w) \<lparr>task_cp = cp, task_tx = n, task_phase = Accepted_socket\<rparr>"
  by (simp add: in_step_def body_new_def session_new_def with_charge_point_id_def channel_new_def)

lemma attach_parts [simp]:
  "local (attach i F) = local (bd_sess (bodies F ! i))" "mqtt_tx (forwarder (attach i F)) = ds_mqtt_tx (shared (handlers F))"
  "charge_point_id (forwarder (attach i F)) = charge_point_id (forwarder (bd_sess (bodies F ! i)))"
  by (simp_all add: attach_def Let_def)

lemma in_step_turn:
  assumes "in_step b t" "is_running (task_phase t)" "local s = local (bd_sess b)"
    "charge_point_id (forwarder s) = charge_point_id (forwarder (bd_sess b))" "turn_ok (unread b) (bd_leg b) s (l, n, u, s')"
  shows "in_step \<lparr>bd_sess = s', bd_uplink = u, bd_leg = l, bd_taken = bd_taken b + n,
     bd_chan = (bd_chan b)\<lparr>room := room (bd_chan b) + n, closed := closed (bd_chan b) \<or> l = Returned_leg\<rparr>\<rparr> t"
proof -
  have "\<not> not_started (task_phase t)" using assms(2) by (cases "task_phase t") auto
  then show ?thesis
    using assms by (cases l) (auto simp: in_step_def turn_ok_def emits_def unread_def)
qed


definition agreed :: "'u fleet \<Rightarrow> bool" where
  "agreed F \<longleftrightarrow> sessions_ok F \<and> router_ok (handlers F)"

lemma agreed_length: "agreed F \<Longrightarrow> length (bodies F) = length (tasks (handlers F))"
  unfolding agreed_def sessions_ok_def by (blast dest: list_all2_lengthD)

lemma agreed_fits: "agreed F \<Longrightarrow> i < length (bodies F) \<Longrightarrow> in_step (bodies F ! i) (tasks (handlers F) ! i)"
  by (simp add: agreed_def sessions_ok_def list_all2_nthD)

lemma perform_advance_tasks:
  "i < length (tasks w) \<Longrightarrow>
   tasks (perform now (Advance i) w) = (tasks w)[i := fst (advance now i (tasks w ! i) (shared w))]"
  by (simp add: perform_def Let_def split: prod.split)

lemma agreed_walk:
  assumes "agreed F" "i < length (bodies F)" "is_running (phase_of (handlers F) i) \<longrightarrow> bd_leg (bodies F ! i) = Returned_leg"
  shows "agreed (F\<lparr>handlers := perform now (Advance i) (handlers F)\<rparr>)"
proof -
  let ?t = "fst (advance now i (tasks (handlers F) ! i) (shared (handlers F)))"
  have "list_all2 in_step ((bodies F)[i := bodies F ! i]) ((tasks (handlers F))[i := ?t])"
    using assms(1) in_step_advance[OF agreed_fits[OF assms(1,2)] assms(3)]
    by (intro list_all2_update_cong) (simp_all add: agreed_def sessions_ok_def)
  then show ?thesis
    using assms agreed_length[OF assms(1)] router_ok_walk
    by (simp add: agreed_def sessions_ok_def perform_advance_tasks)
qed

lemma agreed_turn:
  assumes ok: "agreed F" and i: "i < length (bodies F)" "is_running (phase_of (handlers F) i)"
    and r: "turn_ok (unread (bodies F ! i)) (bd_leg (bodies F ! i)) (attach i F) r"
  shows "agreed (detach i r F)"
proof -
  obtain l n u s where r': "r = (l, n, u, s)" by (metis prod_cases4)
  let ?b = "bodies F ! i"
  let ?b' = "\<lparr>bd_sess = s, bd_uplink = u, bd_leg = l, bd_taken = bd_taken ?b + n,
     bd_chan = (bd_chan ?b)\<lparr>room := room (bd_chan ?b) + n, closed := closed (bd_chan ?b) \<or> l = Returned_leg\<rparr>\<rparr>"
  have "in_step ?b' (tasks (handlers F) ! i)"
    using in_step_turn[OF agreed_fits[OF ok i(1)] i(2), of "attach i F" l n u s] r r' by simp
  then have "list_all2 in_step ((bodies F)[i := ?b']) ((tasks (handlers F))[i := tasks (handlers F) ! i])"
    using ok by (intro list_all2_update_cong) (simp_all add: agreed_def sessions_ok_def)
  moreover have "router_ok (handlers (detach i r F))"
    using ok by (simp add: agreed_def router_ok_beside[OF detach_beside detach_router])
  ultimately show ?thesis by (simp add: agreed_def sessions_ok_def detach_def r' Let_def)
qed

text \<open>Only the channel the router names is touched by a delivery, and the router stays as it is.\<close>

lemma deliver_cases:
  obtains "ds_router (shared (handlers F)) cp = None" "deliver cp req F = (Inl DispatchNotConnected, F)"
  | reg where "ds_router (shared (handlers F)) cp = Some reg"
      "deliver cp req F = (case fst (try_send (bd_chan (bodies F ! tx reg)) req) of
           Inr _ \<Rightarrow> Inr () | Inl Full \<Rightarrow> Inl QueueFull | Inl Closed \<Rightarrow> Inl DispatchNotConnected,
         F\<lparr>bodies := (bodies F)[tx reg := (bodies F ! tx reg)\<lparr>bd_chan := snd (try_send (bd_chan (bodies F ! tx reg)) req)\<rparr>]\<rparr>)"
proof (cases "ds_router (shared (handlers F)) cp")
  case None
  then show ?thesis using that(1) by (simp add: deliver_def dispatch_def Let_def)
next
  case (Some reg)
  have "(ds_router (shared (handlers F)))(cp \<mapsto> reg) = ds_router (shared (handlers F))" using Some by auto
  then show ?thesis
    using that(2)[OF Some] Some
    by (simp add: deliver_def dispatch_def send_to_def Let_def split: sum.splits try_send_error.splits)
qed

lemma agreed_deliver: "agreed F \<Longrightarrow> agreed (snd (deliver cp req F))"
proof (rule deliver_cases[of F cp req])
  fix reg :: "nat registration"
  let ?b = "bodies F ! tx reg"
  let ?b' = "?b\<lparr>bd_chan := snd (try_send (bd_chan ?b) req)\<rparr>"
  assume ok: "agreed F" and reg: "ds_router (shared (handlers F)) cp = Some reg"
    and d: "deliver cp req F = (case fst (try_send (bd_chan ?b) req) of
        Inr _ \<Rightarrow> Inr () | Inl Full \<Rightarrow> Inl QueueFull | Inl Closed \<Rightarrow> Inl DispatchNotConnected, F\<lparr>bodies := (bodies F)[tx reg := ?b']\<rparr>)"
  have "tx reg < length (bodies F)" using ok reg agreed_length[OF ok] by (auto simp: agreed_def router_ok_def)
  from agreed_fits[OF ok this] have "in_step ?b' (tasks (handlers F) ! tx reg)"
    by (auto simp: in_step_def try_send_def Let_def)
  then have "list_all2 in_step ((bodies F)[tx reg := ?b']) ((tasks (handlers F))[tx reg := tasks (handlers F) ! tx reg])"
    using ok by (intro list_all2_update_cong) (simp_all add: agreed_def sessions_ok_def)
  then show "agreed (snd (deliver cp req F))" using ok d by (simp add: agreed_def sessions_ok_def)
qed simp

lemma happen_agreed:
  assumes "agreed F" "happen E ws cfg e F = Some F'"
  shows "agreed F'"
proof (cases e)
  case (Knock cp header now arrives u)
  then have F': "F' = knock cfg cp header now arrives u F" using assms(2) by simp
  show ?thesis
  proof (rule knock_cases[of cfg cp header now arrives u F])
    fix w assume w: "knock cfg cp header now arrives u F = F\<lparr>handlers := perform now (Arrive cp (length (tasks (handlers F)))) w,
        bodies := bodies F @ [body_new cfg cp u w]\<rparr>"
      "w = (handlers F)\<lparr>shared := (shared (handlers F))\<lparr>ds_manager := transition now Downstream Connecting (ds_manager (shared (handlers F)))\<rparr>\<rparr>"
    have "router_ok w" using assms(1) w(2) router_ok_beside[of "handlers F" w] by (simp add: agreed_def beside_def)
    from router_ok_arrive[OF this, of now cp] show ?thesis
      using F' w assms(1) by (simp add: agreed_def sessions_ok_def perform_def in_step_new list_all2_appendI)
  qed (use F' assms(1) router_ok_beside[of "handlers F" "handlers F'"] in \<open>auto simp: agreed_def sessions_ok_def beside_def\<close>)
next
  case (Walk i now)
  then show ?thesis using assms agreed_walk[of F i now] by (auto split: if_splits)
next
  case (Turn i t)
  then obtain r where r: "session_turn E ws cfg (sender_dropped i F) (unread (bodies F ! i)) (bd_leg (bodies F ! i))
      (bd_uplink (bodies F ! i)) (attach i F) t = Some r" "i < length (bodies F)" "is_running (phase_of (handlers F) i)" "F' = detach i r F"
    using assms(2) by (auto split: if_splits)
  show ?thesis using agreed_turn[OF assms(1) r(2,3) session_turn_ok[OF r(1)]] r(4) by simp
next
  case (Deliver cp req)
  then show ?thesis using assms agreed_deliver by auto
next
  case Stop
  then show ?thesis using assms by (auto simp: agreed_def sessions_ok_def)
qed (use assms router_ok_beside[of "handlers F" "handlers F'"] in
    \<open>auto simp: agreed_def sessions_ok_def beside_def Let_def split: if_splits\<close>)

interpretation agreement: fleet_law E ws cfg agreed for E ws cfg
  by unfold_locales (rule happen_agreed)


section \<open>The account of commands\<close>

text \<open>The sum of \<open>f\<close> over all connections a charge point has ever had.\<close>

definition tally :: "('u body \<Rightarrow> string multiset) \<Rightarrow> string \<Rightarrow> 'u fleet \<Rightarrow> string multiset" where
  "tally f cp F = sum_list (map (\<lambda>(b, t). if task_cp t = cp then f b else {#}) (zip (bodies F) (tasks (handlers F))))"

definition held_ids :: "'u body \<Rightarrow> string multiset" where
  "held_ids b = image_mset req_id (held (local (bd_sess b)))"

definition taken_ids :: "'u body \<Rightarrow> string multiset" where
  "taken_ids b = ids (take (bd_taken b) (passed (bd_chan b)))"

definition delivered_ids :: "'u body \<Rightarrow> string multiset" where
  "delivered_ids b = ids (passed (bd_chan b))"

definition unread_ids :: "'u body \<Rightarrow> string multiset" where
  "unread_ids b = ids (unread b)"

lemma sum_list_exchange:
  fixes xs :: "'a::comm_monoid_add list"
  shows "i < length xs \<Longrightarrow> sum_list (xs[i := x]) + xs ! i = sum_list xs + x"
  by (induction xs arbitrary: i) (auto simp: add_ac split: nat.splits)

lemma tally_keys:
  "tally f cp F = sum_list (map (\<lambda>(b, k). if k = cp then f b else {#}) (zip (bodies F) (map task_cp (tasks (handlers F)))))"
  by (simp add: tally_def zip_map2 comp_def case_prod_unfold cong: if_cong)

lemma tally_exchange:
  assumes "length (bodies F) = length (tasks (handlers F))" "i < length (bodies F)"
    and "bodies F' = (bodies F)[i := b]" "map task_cp (tasks (handlers F')) = map task_cp (tasks (handlers F))"
    and "task_cp (tasks (handlers F) ! i) = cp"
  shows "tally f cp F' + f (bodies F ! i) = tally f cp F + f b"
    and "cp' \<noteq> cp \<Longrightarrow> tally f cp' F' = tally f cp' F"
proof -
  let ?g = "\<lambda>c (b :: 'a body, k). if k = c then f b else {#}"
  let ?ks = "map task_cp (tasks (handlers F))"
  have z: "zip (bodies F') ?ks = (zip (bodies F) ?ks)[i := (b, cp)]"
    using assms(1,2,3,5) zip_update[of "bodies F" i b ?ks cp] by (metis list_update_id length_map nth_map)
  have len: "i < length (map (?g c) (zip (bodies F) ?ks))" for c using assms(1,2) by simp
  have nth: "map (?g c) (zip (bodies F) ?ks) ! i = (if cp = c then f (bodies F ! i) else {#})" for c
    using assms(1,2,5) by simp
  have e: "tally f c F' + (if cp = c then f (bodies F ! i) else {#}) = tally f c F + (if cp = c then f b else {#})" for c
    using sum_list_exchange[OF len[of c], of "?g c (b, cp)"] nth[of c] unfolding tally_keys assms(4) z map_update by simp
  from e[of cp] show "tally f cp F' + f (bodies F ! i) = tally f cp F + f b" by simp
  from e[of cp'] show "cp' \<noteq> cp \<Longrightarrow> tally f cp' F' = tally f cp' F" by simp
qed

lemma tally_cong:
  "bodies F' = bodies F \<Longrightarrow> map task_cp (tasks (handlers F')) = map task_cp (tasks (handlers F)) \<Longrightarrow> tally f cp F' = tally f cp F"
  by (simp add: tally_keys)

definition accounts_ok :: "'u fleet \<Rightarrow> bool" where
  "accounts_ok F \<longleftrightarrow> agreed F \<and>
     (\<forall>cp. tally taken_ids cp F = answered cp (ds_mqtt_tx (shared (handlers F))) + tally held_ids cp F)"

lemma accounts_same:
  assumes "accounts_ok F" "agreed F'" "bodies F' = bodies F" "map task_cp (tasks (handlers F')) = map task_cp (tasks (handlers F))"
    and "\<And>cp. answered cp (ds_mqtt_tx (shared (handlers F'))) = answered cp (ds_mqtt_tx (shared (handlers F)))"
  shows "accounts_ok F'"
  using assms tally_cong[OF assms(3,4)] by (simp add: accounts_ok_def)

lemma advance_answers [simp]:
  "answered cp (ds_mqtt_tx (snd (advance now i t st))) = answered cp (ds_mqtt_tx st)"
  by (cases "task_phase t")
     (auto simp: advance_def fetch_generation_def insert_connection_def deregister_connection_def announce_def
       ds_publish_status_def Let_def answered_def answer_for_def result_id_def split: option.splits)

lemma walk_answers:
  "answered cp (ds_mqtt_tx (shared (perform now (Advance i) w))) = answered cp (ds_mqtt_tx (shared w))"
  "map task_cp (tasks (perform now (Advance i) w)) = map task_cp (tasks w)"
  by (auto simp: perform_def Let_def map_update split: prod.split)
     (metis advance_answers snd_conv, metis advance_same(1) fst_conv list_update_id nth_map)


lemma accounts_walk:
  assumes "accounts_ok F" "happen E ws cfg (Walk i now) F = Some F'"
  shows "accounts_ok F'"
proof -
  have F': "F' = F\<lparr>handlers := perform now (Advance i) (handlers F)\<rparr>" using assms(2) by (auto split: if_splits)
  have "agreed F'" using happen_agreed[OF _ assms(2)] assms(1) by (simp add: accounts_ok_def)
  then show ?thesis using accounts_same[OF assms(1), of F'] F' by (simp add: walk_answers)
qed

text \<open>A turn settles or holds exactly what it takes, so both sides of the account grow alike.\<close>

lemma accounts_turn:
  assumes ok: "accounts_ok F" and i: "i < length (bodies F)" "is_running (phase_of (handlers F) i)"
    and r: "turn_ok (unread (bodies F ! i)) (bd_leg (bodies F ! i)) (attach i F) r"
  shows "accounts_ok (detach i r F)"
proof -
  obtain l n u s where r': "r = (l, n, u, s)" by (metis prod_cases4)
  let ?b = "bodies F ! i" and ?F = "detach i r F" and ?cp = "task_cp (tasks (handlers F) ! i)"
  let ?b' = "\<lparr>bd_sess = s, bd_uplink = u, bd_leg = l, bd_taken = bd_taken ?b + n,
     bd_chan = (bd_chan ?b)\<lparr>room := room (bd_chan ?b) + n, closed := closed (bd_chan ?b) \<or> l = Returned_leg\<rparr>\<rparr>"
  have ag: "agreed F" using ok by (simp add: accounts_ok_def)
  have F': "bodies ?F = (bodies F)[i := ?b']" "tasks (handlers ?F) = tasks (handlers F)"
      "ds_mqtt_tx (shared (handlers ?F)) = mqtt_tx (forwarder s)"
    by (simp_all add: detach_def r' Let_def)
  have "charge_point_id (forwarder (attach i F)) = ?cp" using agreed_fits[OF ag i(1)] by (simp add: in_step_def)
  then obtain new where new: "reported s = reported (attach i F) + new"
      "answered ?cp (mqtt_tx (forwarder s)) = answered ?cp (ds_mqtt_tx (shared (handlers F))) + new"
      "\<And>cp. cp \<noteq> ?cp \<Longrightarrow> answered cp (mqtt_tx (forwarder s)) = answered cp (ds_mqtt_tx (shared (handlers F)))"
    using emits_answers[of "attach i F" s ?cp] r r' by (auto simp: turn_ok_def)
  have held: "held_ids ?b' + new = held_ids ?b + ids (take n (unread ?b))"
    using r new(1) by (simp add: turn_ok_def r' accounted_def held_ids_def add_ac)
  have taken: "taken_ids ?b' = taken_ids ?b + ids (take n (unread ?b))"
    by (simp add: taken_ids_def unread_def take_add)
  note ex = tally_exchange[OF agreed_length[OF ag] i(1) F'(1) _ refl, unfolded F'(2), OF refl]
  have sum: "tally taken_ids cp F = answered cp (ds_mqtt_tx (shared (handlers F))) + tally held_ids cp F" for cp
    using ok by (simp add: accounts_ok_def)
  have "tally taken_ids cp ?F = answered cp (mqtt_tx (forwarder s)) + tally held_ids cp ?F" for cp
  proof (cases "cp = ?cp")
    case True
    have "tally taken_ids cp ?F + taken_ids ?b = tally taken_ids cp F + taken_ids ?b'" using ex(1)[of taken_ids] True by simp
    then have "tally taken_ids cp ?F + taken_ids ?b = tally taken_ids cp F + (taken_ids ?b + ids (take n (unread ?b)))"
      unfolding taken .
    then have took: "tally taken_ids cp ?F = tally taken_ids cp F + ids (take n (unread ?b))" by (simp add: add_ac)
    have h: "tally held_ids cp ?F + held_ids ?b = tally held_ids cp F + held_ids ?b'" using ex(1)[of held_ids] True by simp
    have "(answered cp (mqtt_tx (forwarder s)) + tally held_ids cp ?F) + held_ids ?b
        = answered cp (ds_mqtt_tx (shared (handlers F))) + new + (tally held_ids cp F + held_ids ?b')"
      using new(2) True unfolding h[symmetric] by (simp add: add_ac)
    also have "\<dots> = answered cp (ds_mqtt_tx (shared (handlers F))) + tally held_ids cp F + (held_ids ?b' + new)"
      by (simp only: add_ac)
    also have "\<dots> = tally taken_ids cp F + ids (take n (unread ?b)) + held_ids ?b"
      unfolding held sum[of cp] by (simp add: add_ac)
    finally show ?thesis using took by simp
  next
    case False
    then show ?thesis using ex(2)[of cp taken_ids] ex(2)[of cp held_ids] sum[of cp] new(3)[of cp] by simp
  qed
  then show ?thesis using agreed_turn[OF ag i r] F'(3) by (simp add: accounts_ok_def)
qed

lemma accounts_deliver: "accounts_ok F \<Longrightarrow> accounts_ok (snd (deliver cp req F))"
proof (rule deliver_cases[of F cp req])
  fix reg :: "nat registration"
  let ?b = "bodies F ! tx reg" and ?F = "snd (deliver cp req F)"
  let ?b' = "?b\<lparr>bd_chan := snd (try_send (bd_chan ?b) req)\<rparr>"
  assume ok: "accounts_ok F" and reg: "ds_router (shared (handlers F)) cp = Some reg"
    and d: "deliver cp req F = (case fst (try_send (bd_chan ?b) req) of
        Inr _ \<Rightarrow> Inr () | Inl Full \<Rightarrow> Inl QueueFull | Inl Closed \<Rightarrow> Inl DispatchNotConnected, F\<lparr>bodies := (bodies F)[tx reg := ?b']\<rparr>)"
  have ag: "agreed F" using ok by (simp add: accounts_ok_def)
  then have i: "tx reg < length (bodies F)" using reg agreed_length[OF ag] by (auto simp: agreed_def router_ok_def)
  from agreed_fits[OF ag i] have "bd_taken ?b \<le> length (passed (bd_chan ?b))" by (simp add: in_step_def)
  then have same: "held_ids ?b' = held_ids ?b" "taken_ids ?b' = taken_ids ?b"
    by (auto simp: held_ids_def taken_ids_def try_send_def Let_def)
  note ex = tally_exchange[OF agreed_length[OF ag] i, of ?F ?b', OF _ _ refl]
  have keep: "tally f c ?F = tally f c F" if "f ?b' = f ?b" for f c
    using ex(1)[of f] ex(2)[of c f] that d by (cases "c = task_cp (tasks (handlers F) ! tx reg)") auto
  show "accounts_ok ?F"
    using ok agreed_deliver[OF ag, of cp req] keep[of held_ids] keep[of taken_ids] same d by (simp add: accounts_ok_def)
qed simp

lemma accounts_knock: "accounts_ok F \<Longrightarrow> accounts_ok (knock cfg cp header now arrives u F)"
proof -
  assume ok: "accounts_ok F"
  let ?F = "knock cfg cp header now arrives u F"
  have ag: "agreed ?F" using happen_agreed[of F E ws cfg "Knock cp header now arrives u" ?F] ok by (simp add: accounts_ok_def)
  show ?thesis
  proof (rule knock_cases[of cfg cp header now arrives u F])
    fix w assume w: "?F = F\<lparr>handlers := perform now (Arrive cp (length (tasks (handlers F)))) w,
        bodies := bodies F @ [body_new cfg cp u w]\<rparr>"
      "w = (handlers F)\<lparr>shared := (shared (handlers F))\<lparr>ds_manager := transition now Downstream Connecting (ds_manager (shared (handlers F)))\<rparr>\<rparr>"
    have "length (bodies F) = length (tasks (handlers F))" using ok agreed_length by (auto simp: accounts_ok_def)
    moreover have "held_ids (body_new cfg cp u w) = {#}" "taken_ids (body_new cfg cp u w) = {#}" for cp w
      by (simp_all add: held_ids_def taken_ids_def body_new_def session_new_def queue_new_def held_def)
    ultimately have "tally held_ids c ?F = tally held_ids c F" "tally taken_ids c ?F = tally taken_ids c F" for c
      using w by (simp_all add: tally_def perform_def)
    then show ?thesis using ok ag w by (simp add: accounts_ok_def perform_def)
  qed (use ok ag accounts_same[OF ok ag] in auto)
qed

lemma happen_accounts:
  assumes "accounts_ok F" "happen E ws cfg e F = Some F'"
  shows "accounts_ok F'"
proof (cases e)
  case (Walk i now)
  then show ?thesis using accounts_walk assms by metis
next
  case (Turn i t)
  then obtain r where r: "session_turn E ws cfg (sender_dropped i F) (unread (bodies F ! i)) (bd_leg (bodies F ! i))
      (bd_uplink (bodies F ! i)) (attach i F) t = Some r" "i < length (bodies F)" "is_running (phase_of (handlers F) i)" "F' = detach i r F"
    using assms(2) by (auto split: if_splits)
  show ?thesis using accounts_turn[OF assms(1) r(2,3) session_turn_ok[OF r(1)]] r(4) by simp
next
  case (Deliver cp req)
  then show ?thesis using assms accounts_deliver by auto
next
  case (Knock cp header now arrives u)
  then show ?thesis using assms accounts_knock by auto
qed (use assms happen_agreed[OF _ assms(2)] accounts_same[OF assms(1), of F'] in
    \<open>auto simp: accounts_ok_def Let_def answered_def split: if_splits\<close>)

interpretation account: fleet_law E ws cfg accounts_ok for E ws cfg
  by unfold_locales (rule happen_accounts)

lemma fleet_new_ok: "takeover_ok (handlers (fleet_new m))" "accounts_ok (fleet_new m)" "agreed (fleet_new m)"
  "table_live (handlers (fleet_new m))"
  by (simp_all add: fleet_new_def table_live_def table_entry_def takeover_start accounts_ok_def agreed_def sessions_ok_def router_ok_def tally_def
      answered_def channel_new_def)

end
