(* ===== verification/Fleet_Ledger.thy ===== *)
theory Fleet_Ledger
  imports Fleet_Facts
begin

text \<open>
  What an observer sees of overlapping connections is a trace of the ledger: a connection opens; the router accepts a
  command for it; a session hands an answer to the event channel; it goes into its teardown's wait with the
  channel read out; it returns.
\<close>

section \<open>The accounts of the connections\<close>

fun stage_of :: "leg \<Rightarrow> stage" where
  "stage_of Closing = Shut"
| "stage_of Returned_leg = Over"
| "stage_of _ = Serving"

lemma stage_of_eqs [simp]: "stage_of l \<noteq> Unopened" "stage_of l = Shut \<longleftrightarrow> l = Closing" "stage_of l = Over \<longleftrightarrow> l = Returned_leg"
    "stage_of l = Serving \<longleftrightarrow> l \<notin> {Closing, Returned_leg}"
  by (cases l; simp)+

definition body_account :: "string \<Rightarrow> 'u body \<Rightarrow> account" where
  "body_account cp b = \<lparr>owner = cp, awaiting = map req_id (unread b), pending = held_ids b, stage = stage_of (bd_leg b)\<rparr>"

definition fleet_books :: "'u fleet \<Rightarrow> ledger" where
  "fleet_books F = (\<lambda>i. if i < length (bodies F) then body_account (task_cp (tasks (handlers F) ! i)) (bodies F ! i) else unopened i)"

section \<open>What an observer sees\<close>

definition newly :: "'a list \<Rightarrow> 'a list \<Rightarrow> 'a list" where
  "newly xs ys = drop (length xs) ys"

lemma newly_simps [simp]: "newly xs xs = []" "newly xs (xs @ ys) = ys"
  by (simp_all add: newly_def)

definition became :: "leg \<Rightarrow> 'u fleet \<Rightarrow> 'u fleet \<Rightarrow> nat list" where
  "became l F F' = filter (\<lambda>i. bd_leg (bodies F ! i) \<noteq> l \<and> bd_leg (bodies F' ! i) = l) [0..<length (bodies F)]"

definition answers_in :: "mqtt_event list \<Rightarrow> entry list" where
  "answers_in evs = concat (map (\<lambda>ev. map (Answers (event_cp ev)) (result_id ev)) evs)"

abbreviation heard :: "'u fleet \<Rightarrow> mqtt_event list" where
  "heard F \<equiv> offered (ds_mqtt_tx (shared (handlers F)))"

definition visible :: "'u fleet \<Rightarrow> 'u fleet \<Rightarrow> entry list" where
  "visible F F' =
     map (\<lambda>i. Opens i (task_cp (tasks (handlers F') ! i))) [length (bodies F)..<length (bodies F')]
     @ concat (map (\<lambda>i. map (\<lambda>req. Accepts i (req_id req))
          (newly (passed (bd_chan (bodies F ! i))) (passed (bd_chan (bodies F' ! i))))) [0..<length (bodies F)])
     @ answers_in (newly (heard F) (heard F'))
     @ map Shuts (became Closing F F') @ map Ends (became Returned_leg F F')"

lemma answers_in_own: "\<forall>ev \<in> set evs. event_cp ev = cp \<Longrightarrow> answers_in evs = map (Answers cp) (concat (map result_id evs))"
  unfolding answers_in_def by (induction evs) simp_all

lemma answers_in_nothing: "\<forall>ev \<in> set evs. result_id ev = [] \<Longrightarrow> answers_in evs = []"
  by (simp add: answers_in_def)

lemma concat_only: "i < n \<Longrightarrow> (\<And>j. j \<noteq> i \<Longrightarrow> f j = []) \<Longrightarrow> concat (map f [0..<n]) = f i"
  by (induction n) (auto simp: less_Suc_eq)

lemma filter_only: "i < n \<Longrightarrow> (\<And>j. j \<noteq> i \<Longrightarrow> \<not> P j) \<Longrightarrow> filter P [0..<n] = (if P i then [i] else [])"
  by (induction n) (auto simp: less_Suc_eq)

lemma visible_body:
  assumes "bodies F' = (bodies F)[i := b']" "i < length (bodies F)" "heard F' = heard F @ evs"
  shows "visible F F' = map (\<lambda>req. Accepts i (req_id req)) (newly (passed (bd_chan (bodies F ! i))) (passed (bd_chan b')))
    @ answers_in evs @ (if bd_leg (bodies F ! i) \<noteq> Closing \<and> bd_leg b' = Closing then [Shuts i] else [])
    @ (if bd_leg (bodies F ! i) \<noteq> Returned_leg \<and> bd_leg b' = Returned_leg then [Ends i] else [])"
proof -
  have "became l F F' = (if bd_leg (bodies F ! i) \<noteq> l \<and> bd_leg b' = l then [i] else [])" for l
    unfolding became_def using assms(2) by (subst filter_only[of i]) (simp_all add: assms(1))
  moreover have "concat (map (\<lambda>j. map (\<lambda>req. Accepts j (req_id req))
          (newly (passed (bd_chan (bodies F ! j))) (passed (bd_chan (bodies F' ! j))))) [0..<length (bodies F)])
      = map (\<lambda>req. Accepts i (req_id req)) (newly (passed (bd_chan (bodies F ! i))) (passed (bd_chan b')))"
    using assms(2) by (subst concat_only[of i]) (simp_all add: assms(1))
  ultimately show ?thesis unfolding visible_def by (simp add: assms(1,3))
qed

lemma visible_nothing:
  assumes "bodies F' = bodies F" "heard F' = heard F @ evs" "\<forall>ev \<in> set evs. result_id ev = []"
  shows "visible F F' = []"
  by (simp add: visible_def became_def assms(1,2) answers_in_nothing[OF assms(3)] cong: map_cong)

lemma visible_self: "visible F F = []"
  using visible_nothing[of F F "[]"] by simp

lemma fleet_books_update:
  "bodies F' = (bodies F)[i := b] \<Longrightarrow> i < length (bodies F) \<Longrightarrow> map task_cp (tasks (handlers F')) = map task_cp (tasks (handlers F))
    \<Longrightarrow> length (bodies F) = length (tasks (handlers F))
    \<Longrightarrow> fleet_books F' = (fleet_books F)(i := body_account (task_cp (tasks (handlers F) ! i)) b)"
proof -
  assume a: "bodies F' = (bodies F)[i := b]" "i < length (bodies F)" "map task_cp (tasks (handlers F')) = map task_cp (tasks (handlers F))"
    "length (bodies F) = length (tasks (handlers F))"
  have "task_cp (tasks (handlers F') ! j) = task_cp (tasks (handlers F) ! j)" if "j < length (bodies F)" for j
    using a(3,4) that by (metis length_map nth_map)
  then show ?thesis using a(1,2) by (auto simp: fleet_books_def fun_eq_iff)
qed

lemma fleet_books_same:
  assumes "bodies F' = bodies F" "map task_cp (tasks (handlers F')) = map task_cp (tasks (handlers F))"
    "length (bodies F) = length (tasks (handlers F))"
  shows "fleet_books F' = fleet_books F"
proof -
  have "task_cp (tasks (handlers F') ! j) = task_cp (tasks (handlers F) ! j)" if "j < length (bodies F)" for j
    using assms(2,3) that by (metis length_map nth_map)
  then show ?thesis using assms(1) by (auto simp: fleet_books_def fun_eq_iff)
qed

section \<open>Every event is a trace of the ledger\<close>

text \<open>A turn of a session, seen from its account.\<close>

lemma turn_trace:
  assumes r: "turn_ok (unread b) (bd_leg b) s (l, n, u, s')" and s: "local s = local (bd_sess b)" "charge_point_id (forwarder s) = cp"
    and closing: "bd_leg b = Closing \<Longrightarrow> held_ids b = {#}"
    and b': "b' = \<lparr>bd_sess = s', bd_uplink = u, bd_leg = l, bd_taken = bd_taken b + n,
        bd_chan = (bd_chan b)\<lparr>room := room (bd_chan b) + n, closed := closed (bd_chan b) \<or> l = Returned_leg\<rparr>\<rparr>"
    and evs: "offered (mqtt_tx (forwarder s')) = offered (mqtt_tx (forwarder s)) @ evs" "\<forall>ev \<in> set evs. event_cp ev = cp"
    and L: "L i = body_account cp b"
  shows "traces ledger_step L (answers_in evs @ (if bd_leg b \<noteq> Closing \<and> l = Closing then [Shuts i] else [])
      @ (if bd_leg b \<noteq> Returned_leg \<and> l = Returned_leg then [Ends i] else [])) (L(i := body_account cp b'))"
proof -
  let ?new = "concat (map result_id evs)"
  have unread: "unread b' = drop n (unread b)" by (simp add: b' unread_def add.commute)
  have "reported s' = reported s + mset ?new" by (simp add: reported_def reported_by_def evs(1))
  then have held: "held_ids b' + mset ?new = held_ids b + ids (take n (unread b))"
    using r s by (simp add: turn_ok_def accounted_def held_ids_def b' add_ac)
  show ?thesis
  proof (cases "bd_leg b = Closing")
    case True
    then have l: "l = Returned_leg" "n = 0" "held_ids b' = {#}" "held_ids b = {#}"
      using r closing s by (auto simp: turn_ok_def b' held_ids_def)
    then have "answers_in evs = []" using held by (simp add: answers_in_own[OF evs(2)])
    moreover have "L(i := (L i)\<lparr>stage := Over\<rparr>) = L(i := body_account cp b')"
      using l unread by (simp add: L body_account_def) (simp add: b')
    moreover have "ledger_step L [Ends i] (L(i := (L i)\<lparr>stage := Over\<rparr>))" by (rule ends) (simp add: L body_account_def True)
    ultimately show ?thesis using True l by (auto simp del: fun_upd_apply)
  next
    case False
    then have serving: "bd_leg b \<notin> {Closing, Returned_leg}" "l \<noteq> Returned_leg" using r by (auto simp: turn_ok_def)
    let ?L1 = "L(i := (L i)\<lparr>awaiting := map req_id (unread b'), pending := ids (take n (unread b)) + held_ids b\<rparr>)"
    let ?L2 = "L(i := (L i)\<lparr>awaiting := map req_id (unread b'), pending := held_ids b'\<rparr>)"
    have "awaiting (L i) = map req_id (take n (unread b)) @ map req_id (unread b')"
      unfolding unread map_append[symmetric] by (simp add: L body_account_def)
    from takes_all[where L = L and i = i, OF _ this] have "traces ledger_step L [] ?L1" using serving(1) by (simp add: L body_account_def ids_def)
    also have "traces ledger_step ?L1 (map (Answers cp) ?new) ?L2"
      using answers_all[of ?L1 i cp ?new "held_ids b'"] held serving(1) by (simp add: L body_account_def add_ac del: fun_upd_apply add: fun_upd_same)
    finally have two: "traces ledger_step L (answers_in evs) ?L2" by (simp add: answers_in_own[OF evs(2)] del: fun_upd_apply)
    show ?thesis
    proof (cases "l = Closing")
      case True
      then have "n = length (unread b)" "held_ids b' = {#}" using r by (auto simp: turn_ok_def held_ids_def b')
      then have "ledger_step ?L2 [Shuts i] (?L2(i := (?L2 i)\<lparr>stage := Shut\<rparr>))"
        using serving(1) by (intro shuts) (simp_all add: L body_account_def unread)
      moreover have "?L2(i := (?L2 i)\<lparr>stage := Shut\<rparr>) = L(i := body_account cp b')"
        using True by (simp add: L body_account_def) (simp add: b')
      ultimately have "traces ledger_step ?L2 [Shuts i] (L(i := body_account cp b'))" by (metis traces_one)
      from traces_append[OF two this] show ?thesis using True False by simp
    next
      case F: False
      have "stage_of (bd_leg b') = stage_of (bd_leg b)" using serving F by (cases l; cases "bd_leg b") (simp_all add: b')
      then have "?L2 = L(i := body_account cp b')" by (simp add: L body_account_def)
      then show ?thesis using two serving(2) F by (simp del: fun_upd_apply)
    qed
  qed
qed

lemma turn_ledger:
  assumes ag: "agreed F" and i: "i < length (bodies F)"
    and r: "turn_ok (unread (bodies F ! i)) (bd_leg (bodies F ! i)) (attach i F) r"
  shows "traces ledger_step (fleet_books F) (visible F (detach i r F)) (fleet_books (detach i r F))"
proof -
  obtain l n u s where r': "r = (l, n, u, s)" by (metis prod_cases4)
  let ?b = "bodies F ! i" and ?cp = "task_cp (tasks (handlers F) ! i)"
  define b where "b = \<lparr>bd_sess = s, bd_uplink = u, bd_leg = l, bd_taken = bd_taken ?b + n,
     bd_chan = (bd_chan ?b)\<lparr>room := room (bd_chan ?b) + n, closed := closed (bd_chan ?b) \<or> l = Returned_leg\<rparr>\<rparr>"
  have F': "bodies (detach i r F) = (bodies F)[i := b]" "tasks (handlers (detach i r F)) = tasks (handlers F)"
      "heard (detach i r F) = offered (mqtt_tx (forwarder s))"
    by (simp_all add: detach_def r' b_def Let_def)
  have cp: "charge_point_id (forwarder (attach i F)) = ?cp" using agreed_fits[OF ag i] by (simp add: in_step_def)
  obtain evs where evs: "offered (mqtt_tx (forwarder s)) = offered (mqtt_tx (forwarder (attach i F))) @ evs" "\<forall>ev \<in> set evs. event_cp ev = ?cp"
    using r cp by (auto simp: turn_ok_def r' emits_def)
  have shut: "bd_leg ?b = Closing \<Longrightarrow> held_ids ?b = {#}" using agreed_fits[OF ag i] by (auto simp: in_step_def held_ids_def)
  have books: "fleet_books (detach i r F) = (fleet_books F)(i := body_account ?cp b)"
    by (rule fleet_books_update[OF F'(1) i]) (simp_all add: F'(2) agreed_length[OF ag])
  have "fleet_books F i = body_account ?cp ?b" using i by (simp add: fleet_books_def)
  from turn_trace[where L = "fleet_books F", OF r[unfolded r'] attach_parts(1) cp shut b_def evs this] show ?thesis
    unfolding books visible_body[OF F'(1) i, of evs, unfolded F'(3), OF evs(1)[unfolded attach_parts]] by (simp add: b_def)
qed

lemma deliver_ledger:
  assumes ag: "agreed F"
  shows "traces ledger_step (fleet_books F) (visible F (snd (deliver cp req F))) (fleet_books (snd (deliver cp req F)))"
proof (rule deliver_cases[of F cp req])
  fix reg :: "nat registration"
  let ?b = "bodies F ! tx reg" and ?F = "snd (deliver cp req F)" and ?cp = "task_cp (tasks (handlers F) ! tx reg)"
  let ?b' = "?b\<lparr>bd_chan := snd (try_send (bd_chan ?b) req)\<rparr>"
  assume reg: "ds_router (shared (handlers F)) cp = Some reg"
    and d: "deliver cp req F = (case fst (try_send (bd_chan ?b) req) of
        Inr _ \<Rightarrow> Inr () | Inl Full \<Rightarrow> Inl QueueFull | Inl Closed \<Rightarrow> Inl DispatchNotConnected, F\<lparr>bodies := (bodies F)[tx reg := ?b']\<rparr>)"
  have i: "tx reg < length (bodies F)" using ag reg agreed_length[OF ag] by (auto simp: agreed_def router_ok_def)
  have fits: "bd_taken ?b \<le> length (passed (bd_chan ?b))" "closed (bd_chan ?b) = (bd_leg ?b = Returned_leg)"
    using agreed_fits[OF ag i] by (simp_all add: in_step_def)
  have F': "bodies ?F = (bodies F)[tx reg := ?b']" "tasks (handlers ?F) = tasks (handlers F)" "heard ?F = heard F @ []" using d by simp_all
  have books: "fleet_books ?F = (fleet_books F)(tx reg := body_account ?cp ?b')"
    by (rule fleet_books_update[OF F'(1) i]) (simp_all add: F'(2) agreed_length[OF ag])
  obtain rs where rs: "passed (snd (try_send (bd_chan ?b) req)) = passed (bd_chan ?b) @ rs" "closed (bd_chan ?b) \<Longrightarrow> rs = []"
    by (rule that[of "if closed (bd_chan ?b) \<or> room (bd_chan ?b) = 0 then [] else [req]"]) (simp_all add: try_send_def Let_def)
  have "visible F ?F = map (Accepts (tx reg)) (map req_id rs)"
    unfolding visible_body[OF F'(1) i F'(3)] by (simp add: rs(1) answers_in_def)
  moreover have "body_account ?cp ?b' = (fleet_books F (tx reg))\<lparr>awaiting := awaiting (fleet_books F (tx reg)) @ map req_id rs\<rparr>"
    using fits(1) i by (simp add: fleet_books_def body_account_def unread_def held_ids_def rs(1))
  moreover have "map req_id rs = [] \<or> stage (fleet_books F (tx reg)) \<in> {Serving, Shut}"
    using rs(2) fits(2) i by (auto simp: fleet_books_def body_account_def)
  ultimately show ?thesis unfolding books using accepts_all by metis
qed (simp add: visible_self traces.still)

lemma knock_ledger:
  assumes ag: "agreed F"
  shows "traces ledger_step (fleet_books F) (visible F (knock cfg cp header now arrives u F)) (fleet_books (knock cfg cp header now arrives u F))"
proof (rule knock_cases[of cfg cp header now arrives u F])
  let ?F = "knock cfg cp header now arrives u F" and ?n = "length (bodies F)"
  fix w assume k: "?F = F\<lparr>handlers := perform now (Arrive cp (length (tasks (handlers F)))) w, bodies := bodies F @ [body_new cfg cp u w]\<rparr>"
    and w: "w = (handlers F)\<lparr>shared := (shared (handlers F))\<lparr>ds_manager := transition now Downstream Connecting (ds_manager (shared (handlers F)))\<rparr>\<rparr>"
  have F': "bodies ?F = bodies F @ [body_new cfg cp u w]" "tasks (handlers ?F) = tasks (handlers F) @ [\<lparr>task_cp = cp, task_tx = ?n, task_phase = Accepted_socket\<rparr>]"
      "heard ?F = heard F"
    by (simp_all add: k w perform_def agreed_length[OF ag])
  have len: "length (tasks (handlers F)) = ?n" using agreed_length[OF ag] by simp
  have "became l F ?F = []" for l by (auto simp: became_def F'(1) nth_append filter_empty_conv)
  then have "visible F ?F = [Opens ?n cp]" by (simp add: visible_def F' answers_in_def nth_append len cong: map_cong)
  moreover have "body_account cp (body_new cfg cp u w) = account_new cp Serving"
    by (simp add: body_account_def account_new_def held_ids_def unread_def body_new_def session_new_def queue_new_def held_def channel_new_def)
  then have "fleet_books ?F = (fleet_books F)(?n := account_new cp Serving)"
    by (auto simp: fleet_books_def F' fun_eq_iff nth_append len)
  moreover have "ledger_step (fleet_books F) [Opens ?n cp] ((fleet_books F)(?n := account_new cp Serving))"
    by (rule opens) (simp add: fleet_books_def unopened_def account_new_def)
  ultimately show ?thesis by (simp add: traces_one del: fun_upd_apply)
next
  fix st assume "knock cfg cp header now arrives u F = F\<lparr>handlers := (handlers F)\<lparr>shared := st\<rparr>\<rparr>"
    "st = (shared (handlers F))\<lparr>ds_manager := transition now Downstream Connecting (ds_manager (shared (handlers F)))\<rparr>"
  then have "bodies (knock cfg cp header now arrives u F) = bodies F" "tasks (handlers (knock cfg cp header now arrives u F)) = tasks (handlers F)"
      "heard (knock cfg cp header now arrives u F) = heard F @ []"
    by simp_all
  then show ?thesis using visible_nothing[of "knock cfg cp header now arrives u F" F "[]"] fleet_books_same[of "knock cfg cp header now arrives u F" F]
      agreed_length[OF ag] by (simp add: traces.still)
qed (simp add: visible_self traces.still)

lemma advance_offered:
  obtains evs where "offered (ds_mqtt_tx (snd (advance now i t st))) = offered (ds_mqtt_tx st) @ evs" "\<forall>ev \<in> set evs. result_id ev = []"
proof -
  have "\<exists>evs. offered (ds_mqtt_tx (snd (advance now i t st))) = offered (ds_mqtt_tx st) @ evs \<and> (\<forall>ev \<in> set evs. result_id ev = [])"
    by (cases "task_phase t")
       (auto simp: advance_def fetch_generation_def insert_connection_def deregister_connection_def announce_def
         ds_publish_status_def Let_def result_id_def split: option.splits)
  then show ?thesis using that by blast
qed

lemma walk_ledger:
  assumes ag: "agreed F" and F': "F' = F\<lparr>handlers := perform now (Advance i) (handlers F)\<rparr>"
  shows "traces ledger_step (fleet_books F) (visible F F') (fleet_books F')"
proof -
  obtain evs where "offered (ds_mqtt_tx (snd (advance now i (tasks (handlers F) ! i) (shared (handlers F))))) = heard F @ evs"
      "\<forall>ev \<in> set evs. result_id ev = []"
    using advance_offered by blast
  then obtain evs where "heard F' = heard F @ evs" "\<forall>ev \<in> set evs. result_id ev = []"
    by (cases "i < length (tasks (handlers F))") (auto simp: F' perform_def Let_def case_prod_unfold)
  then have "visible F F' = []" by (intro visible_nothing) (simp_all add: F')
  moreover have "fleet_books F' = fleet_books F" by (rule fleet_books_same) (simp_all add: F' walk_answers(2) agreed_length[OF ag])
  ultimately show ?thesis by (simp add: traces.still)
qed

lemma happen_ledger:
  assumes ag: "agreed F" and e: "happen E ws cfg e F = Some F'"
  shows "traces ledger_step (fleet_books F) (visible F F') (fleet_books F')"
proof -
  have quiet: ?thesis if "bodies F' = bodies F" "tasks (handlers F') = tasks (handlers F)" "heard F' = heard F"
    using visible_nothing[of F' F "[]"] fleet_books_same[of F' F] agreed_length[OF ag] that by (simp add: traces.still)
  show ?thesis
  proof (cases e)
    case (Knock cp header now arrives u)
    then show ?thesis using knock_ledger[OF ag] e by auto
  next
    case (Walk i now)
    then show ?thesis using walk_ledger[OF ag] e by (auto split: if_splits)
  next
    case (Turn i t)
    then obtain r where r: "session_turn E ws cfg (sender_dropped i F) (unread (bodies F ! i)) (bd_leg (bodies F ! i))
        (bd_uplink (bodies F ! i)) (attach i F) t = Some r" "i < length (bodies F)" "F' = detach i r F"
      using e by (auto split: if_splits)
    show ?thesis using turn_ledger[OF ag r(2) session_turn_ok[OF r(1)]] r(3) by simp
  next
    case (Deliver cp req)
    then show ?thesis using deliver_ledger[OF ag] e by auto
  qed (use quiet e in \<open>auto simp: Let_def split: if_splits\<close>)
qed

text \<open>Only bodies, charge points and events count for what an observer sees.\<close>

definition looks_like :: "'u fleet \<Rightarrow> 'u fleet \<Rightarrow> bool" where
  "looks_like F G \<longleftrightarrow> bodies F = bodies G \<and> tasks (handlers F) = tasks (handlers G) \<and> heard F = heard G"

lemma looks_like_same:
  assumes "looks_like F G"
  shows "visible F F' = visible G F'" "visible F' F = visible F' G" "fleet_books F = fleet_books G"
  using assms by (simp_all add: looks_like_def visible_def became_def fleet_books_def cong: if_cong)

section \<open>A session that ends has received all it was handed\<close>

definition ended :: "leg \<Rightarrow> bool" where
  "ended l \<longleftrightarrow> l \<in> {Closing, Returned_leg}"

text \<open>How a connection's channel and session have moved on.\<close>

definition moved_on :: "'u body \<Rightarrow> 'u body \<Rightarrow> bool" where
  "moved_on b b' \<longleftrightarrow> prefix (passed (bd_chan b)) (passed (bd_chan b')) \<and> bd_taken b \<le> bd_taken b'
     \<and> (ended (bd_leg b) \<longrightarrow> ended (bd_leg b'))
     \<and> (\<not> ended (bd_leg b) \<and> ended (bd_leg b') \<longrightarrow> length (passed (bd_chan b)) \<le> bd_taken b')"

lemma moved_on_refl [simp]: "moved_on b b"
  by (simp add: moved_on_def)

lemma moved_on_trans: "moved_on a b \<Longrightarrow> moved_on b c \<Longrightarrow> moved_on a c"
  by (fastforce simp: moved_on_def dest: prefix_length_le prefix_order.trans)

lemma moved_on_turn:
  assumes "turn_ok (unread b) (bd_leg b) s (l, n, u, s')" "bd_taken b \<le> length (passed (bd_chan b))"
  shows "moved_on b \<lparr>bd_sess = s', bd_uplink = u, bd_leg = l, bd_taken = bd_taken b + n,
     bd_chan = (bd_chan b)\<lparr>room := room (bd_chan b) + n, closed := closed (bd_chan b) \<or> l = Returned_leg\<rparr>\<rparr>"
  using assms by (auto simp: moved_on_def turn_ok_def unread_def ended_def)

lemma moved_on_send: "moved_on b (b\<lparr>bd_chan := snd (try_send (bd_chan b) req)\<rparr>)"
  by (auto simp: moved_on_def try_send_def Let_def)

lemma happen_moves_on:
  assumes ag: "agreed F" and e: "happen E ws cfg e F = Some F'" and i: "i < length (bodies F)"
  shows "i < length (bodies F') \<and> moved_on (bodies F ! i) (bodies F' ! i)"
proof (cases e)
  case (Knock cp header now arrives u)
  then show ?thesis using e i by (cases rule: knock_cases[of cfg cp header now arrives u F]) (auto simp: nth_append)
next
  case (Turn j t)
  then obtain r where r: "session_turn E ws cfg (sender_dropped j F) (unread (bodies F ! j)) (bd_leg (bodies F ! j))
      (bd_uplink (bodies F ! j)) (attach j F) t = Some r" "j < length (bodies F)" "F' = detach j r F"
    using e by (auto split: if_splits)
  obtain l n u s where r': "r = (l, n, u, s)" by (metis prod_cases4)
  have "bd_taken (bodies F ! j) \<le> length (passed (bd_chan (bodies F ! j)))" using agreed_fits[OF ag r(2)] by (simp add: in_step_def)
  from moved_on_turn[OF session_turn_ok[OF r(1), unfolded r'] this] show ?thesis
    using i by (cases "i = j") (simp_all add: r(3) r' detach_def Let_def)
next
  case (Deliver cp req)
  then have F': "F' = snd (deliver cp req F)" using e by simp
  show ?thesis
  proof (rule deliver_cases[of F cp req])
    fix reg :: "nat registration"
    let ?b = "bodies F ! tx reg"
    assume d: "deliver cp req F = (case fst (try_send (bd_chan ?b) req) of
        Inr _ \<Rightarrow> Inr () | Inl Full \<Rightarrow> Inl QueueFull | Inl Closed \<Rightarrow> Inl DispatchNotConnected,
        F\<lparr>bodies := (bodies F)[tx reg := ?b\<lparr>bd_chan := snd (try_send (bd_chan ?b) req)\<rparr>]\<rparr>)"
    show ?thesis using i moved_on_send[of ?b req] by (cases "i = tx reg") (simp_all add: F' d)
  qed (use F' i in simp)
qed (use e i in \<open>auto simp: Let_def split: if_splits\<close>)

lemma run_moves_on:
  assumes "agreed F" "fleet_run E ws cfg F F'"
  shows "agreed F' \<and> (\<forall>i < length (bodies F). i < length (bodies F') \<and> moved_on (bodies F ! i) (bodies F' ! i))"
  using assms(2)
proof (induction rule: fleet_run.induct)
  case (moved G e G')
  then show ?case using happen_agreed happen_moves_on moved_on_trans by meson
qed (use assms(1) in simp)

end
