(* ===== verification/Fleet_Example.thy ===== *)
theory Fleet_Example
  imports Fleet_Ledger
begin

text \<open>A charger that connects while its previous connection still stands: the run the examples start from.\<close>

definition demo_arrival :: "nat \<Rightarrow> unit event list" where
  "demo_arrival i =
     [Knock ''CP1'' (Some ''ocpp1.6'') 1 True (), Walk i 1, Walk i 1, Walk i 1, Walk i 1, Turn i (StartDial 1), Turn i (EndDial 1 ())]"

lemma demo_header: "ws_upgrade_handler now (Some ''ocpp1.6'') st =
   (Upgrade ''ocpp1.6'', st\<lparr>ds_manager := transition now Downstream Connecting (ds_manager st)\<rparr>)"
proof -
  have "header_to_str ''ocpp1.6'' = Some ''ocpp1.6''" "validate_subprotocol (parse_subprotocol_header ''ocpp1.6'')"
    by code_simp+
  then show ?thesis by (simp add: ws_upgrade_handler_def OCPP16_SUBPROTOCOL_def)
qed

lemmas fleet_simps = demo_header knock_def body_new_def attach_def detach_def unread_def dial_def dial_done_def
  break_off_def wind_down_def loop_turn_def loop_step_def token_set_def sender_dropped_def

lemmas overlap_simps = demo_arrival_def fleet_simps fleet_new_def schedule_simps session_new_def
  set_upstream_state_def publish_status_def send_event_def with_charge_point_id_def queue_new_def channel_new_def try_send_def
  flush_upstream_def record_replayed_def

text \<open>Both sessions reach the Central System; the second connection leads.\<close>

definition demo_overlap :: "ext \<Rightarrow> session_config \<Rightarrow> state_manager \<Rightarrow> unit fleet" where
  "demo_overlap E cfg m = the (happens E demo_ws cfg (demo_arrival 0 @ demo_arrival 1) (fleet_new m))"

lemma demo_overlap_facts:
  "happens E demo_ws cfg (demo_arrival 0 @ demo_arrival 1) (fleet_new m) = Some (demo_overlap E cfg m)"
  "map bd_leg (bodies (demo_overlap E cfg m)) = [In_loop, In_loop]"
  "map task_phase (tasks (handlers (demo_overlap E cfg m))) = [Running 1, Running 2]"
  "map task_cp (tasks (handlers (demo_overlap E cfg m))) = [''CP1'', ''CP1'']"
  "cancelled (shared (handlers (demo_overlap E cfg m))) = [0]"
  "closed (charger_tx (bd_sess (bodies (demo_overlap E cfg m) ! 0))) = False"
  "ds_router (shared (handlers (demo_overlap E cfg m))) = [''CP1'' \<mapsto> \<lparr>generation = 2, tx = 1\<rparr>]"
  "map bd_chan (bodies (demo_overlap E cfg m)) = [channel_new COMMAND_CHANNEL_CAPACITY, channel_new COMMAND_CHANNEL_CAPACITY]"
  "map bd_taken (bodies (demo_overlap E cfg m)) = [0, 0]"
  by (simp_all add: demo_overlap_def overlap_simps)

lemma demo_overlap_run: "fleet_run E demo_ws cfg (fleet_new m) (demo_overlap E cfg m)"
  using happens_run[OF demo_overlap_facts(1) fleet_run.idle] .

lemma demo_overlap_lengths: "length (bodies (demo_overlap E cfg m)) = 2" "length (tasks (handlers (demo_overlap E cfg m))) = 2"
  using arg_cong[OF demo_overlap_facts(2), of length] arg_cong[OF demo_overlap_facts(3), of length] by simp_all

lemma demo_overlap_nth:
  "bd_leg (bodies (demo_overlap E cfg m) ! 0) = In_loop" "bd_leg (bodies (demo_overlap E cfg m) ! 1) = In_loop"
  "phase_of (handlers (demo_overlap E cfg m)) 0 = Running 1" "phase_of (handlers (demo_overlap E cfg m)) 1 = Running 2"
  "task_cp (tasks (handlers (demo_overlap E cfg m)) ! 0) = ''CP1''" "task_cp (tasks (handlers (demo_overlap E cfg m)) ! 1) = ''CP1''"
  "bd_chan (bodies (demo_overlap E cfg m) ! 1) = channel_new COMMAND_CHANNEL_CAPACITY" "bd_taken (bodies (demo_overlap E cfg m) ! 1) = 0"
proof -
  have two: "f (xs ! 0) = a \<and> f (xs ! 1) = b" if "map f xs = [a, b]" for f :: "'x \<Rightarrow> 'y" and xs a b
    using that by (cases xs; cases "tl xs") auto
  show "bd_leg (bodies (demo_overlap E cfg m) ! 0) = In_loop" "bd_leg (bodies (demo_overlap E cfg m) ! 1) = In_loop"
    "phase_of (handlers (demo_overlap E cfg m)) 0 = Running 1" "phase_of (handlers (demo_overlap E cfg m)) 1 = Running 2"
    "task_cp (tasks (handlers (demo_overlap E cfg m)) ! 0) = ''CP1''" "task_cp (tasks (handlers (demo_overlap E cfg m)) ! 1) = ''CP1''"
    "bd_chan (bodies (demo_overlap E cfg m) ! 1) = channel_new COMMAND_CHANNEL_CAPACITY" "bd_taken (bodies (demo_overlap E cfg m) ! 1) = 0"
    using two[OF demo_overlap_facts(2)] two[OF demo_overlap_facts(3)] two[OF demo_overlap_facts(4)] two[OF demo_overlap_facts(8)]
      two[OF demo_overlap_facts(9)] by blast+
qed

text \<open>The session that leads is idle, and all that has been said are status changes.\<close>

fun is_status :: "mqtt_event \<Rightarrow> bool" where
  "is_status (StateChanged cp up down) = True"
| "is_status _ = False"

lemma demo_overlap_session:
  "local (bd_sess (bodies (demo_overlap E cfg m) ! 1)) = queue_new (command_timeout (sc_charging cfg)) COMMAND_CHANNEL_CAPACITY"
  "charger_tx (bd_sess (bodies (demo_overlap E cfg m) ! 1)) = channel_new 256"
  "commands_open (bd_sess (bodies (demo_overlap E cfg m) ! 1))"
  "charge_point_id (forwarder (bd_sess (bodies (demo_overlap E cfg m) ! 1))) = ''CP1''"
  "\<not> has_recent_pending_call now CentralToCharger g (forwarder (bd_sess (bodies (demo_overlap E cfg m) ! 1)))"
  by (simp_all add: demo_overlap_def overlap_simps has_recent_pending_call_def has_recent_pending_in_def tracker_new_def)

lemma demo_overlap_events:
  "list_all is_status (passed (ds_mqtt_tx (shared (handlers (demo_overlap E cfg (set_listener_bound True manager_new))))))"
  "length (passed (ds_mqtt_tx (shared (handlers (demo_overlap E cfg (set_listener_bound True manager_new)))))) = 6"
  "closed (ds_mqtt_tx (shared (handlers (demo_overlap E cfg (set_listener_bound True manager_new))))) = False"
  "consumed (demo_overlap E cfg (set_listener_bound True manager_new)) = 0"
  by (simp_all add: demo_overlap_def overlap_simps transition_def manager_new_def set_listener_bound_def)

end
