(* ===== verification/Whole.thy ===== *)
theory Whole
  imports Fleet_Example Lifecycle
begin

text \<open>
  The running proxy as \<open>main\<close> leaves it: all connection handlers with their sessions (\<open>Fleet\<close>) and the thread of
  the MQTT publisher (\<open>src/main.rs\<close>, \<open>src/mqtt.rs\<close>), from its start-up connect over its loop to its end, over the state
  manager, the event channel and the router they share. Every step of the whole is a run of \<open>Fleet\<close>, whose events for the
  publisher are thereby what the publisher really does.
\<close>

section \<open>The publisher and what it shares\<close>

text \<open>Where the publisher's thread stands: built, in the start-up connect, in its loop, ended or never built.\<close>

datatype thread = Thread_built hub | Thread_connecting hub | Thread_looping hub | Thread_ended

record 'u whole =
  site :: "'u fleet"
  thread_at :: thread

text \<open>
  The router's senders are the numbers of the connections; the publisher sees the channels they belong to, and
  what it put into them is stored back.
\<close>

definition router_view :: "'u fleet \<Rightarrow> command_request channel command_router" where
  "router_view F = (\<lambda>cp. map_option (\<lambda>reg. \<lparr>generation = generation reg, tx = bd_chan (bodies F ! tx reg)\<rparr>)
     (ds_router (shared (handlers F)) cp))"

definition channel_of :: "command_request channel command_router \<Rightarrow> 'u fleet \<Rightarrow> nat \<Rightarrow> command_request channel" where
  "channel_of router F i =
     (let cp = task_cp (tasks (handlers F) ! i)
      in case (ds_router (shared (handlers F)) cp, router cp) of
           (Some reg, Some seen) \<Rightarrow> if tx reg = i then tx seen else bd_chan (bodies F ! i)
         | _ \<Rightarrow> bd_chan (bodies F ! i))"

definition store_channels :: "command_request channel command_router \<Rightarrow> 'u fleet \<Rightarrow> 'u fleet" where
  "store_channels router F =
     F\<lparr>bodies := map (\<lambda>i. (bodies F ! i)\<lparr>bd_chan := channel_of router F i\<rparr>) [0..<length (bodies F)]\<rparr>"

text \<open>The publisher with the shared parts in place and \<open>k\<close> free slots in its request channel; and the shared parts after its step.\<close>

definition hub_in :: "'u fleet \<Rightarrow> nat \<Rightarrow> hub \<Rightarrow> hub" where
  "hub_in F k p =
     p\<lparr>shared_manager := Some (ds_manager (shared (handlers F))), client := (client p)\<lparr>room := k\<rparr>,
       pub_router := map_option (\<lambda>_. router_view F) (pub_router p)\<rparr>"

definition store_manager :: "state_manager option \<Rightarrow> 'u fleet \<Rightarrow> 'u fleet" where
  "store_manager m F =
     (case m of
        None \<Rightarrow> F
      | Some m' \<Rightarrow> F\<lparr>handlers := (handlers F)\<lparr>shared := (shared (handlers F))\<lparr>ds_manager := m'\<rparr>\<rparr>\<rparr>)"

definition hub_out :: "hub \<Rightarrow> 'u fleet \<Rightarrow> 'u fleet" where
  "hub_out p F =
     store_manager (shared_manager p) (case pub_router p of None \<Rightarrow> F | Some router \<Rightarrow> store_channels router F)"

text \<open>Taking the next event frees its slot.\<close>

definition take_event :: "'u fleet \<Rightarrow> 'u fleet" where
  "take_event F =
     (let st = shared (handlers F); ch = ds_mqtt_tx st
      in F\<lparr>handlers := (handlers F)\<lparr>shared := st\<lparr>ds_mqtt_tx := ch\<lparr>room := Suc (room ch)\<rparr>\<rparr>\<rparr>, consumed := Suc (consumed F)\<rparr>)"

definition drop_receiver :: "'u fleet \<Rightarrow> 'u fleet" where
  "drop_receiver F =
     (let st = shared (handlers F)
      in F\<lparr>handlers := (handlers F)\<lparr>shared := st\<lparr>ds_mqtt_tx := (ds_mqtt_tx st)\<lparr>closed := True\<rparr>\<rparr>\<rparr>\<rparr>)"


section \<open>Steps\<close>

text \<open>
  What happens outside the publisher; the start of its thread; an attempt of the start-up connect, with the time left and
  what \<open>poll()\<close> returned; a turn of the loop, which polls or takes an event; the end of the thread once the token is set.
\<close>

datatype 'u deed =
    Outside "'u event"
  | Begin_connect utc
  | Attempt utc nat duration "poll option"
  | Poll_broker utc nat poll
  | Take_event utc
  | Quit utc

fun by_publisher :: "'u event \<Rightarrow> bool" where
  "by_publisher (Deliver cp req) = True"
| "by_publisher Consume = True"
| "by_publisher (Mirror now s) = True"
| "by_publisher Unplug = True"
| "by_publisher _ = False"

definition after_attempt :: "hub returned \<Rightarrow> 'u fleet \<Rightarrow> 'u whole" where
  "after_attempt r F =
     (case r of
        StillTrying p \<Rightarrow> \<lparr>site = hub_out p F, thread_at = Thread_connecting p\<rparr>
      | Returned _ p \<Rightarrow> \<lparr>site = hub_out p F, thread_at = Thread_looping p\<rparr>)"

text \<open>\<open>None\<close>: the deed is not possible, or a handler panics.\<close>

fun whole_step :: "ext \<Rightarrow> 'u ws_send \<Rightarrow> session_config \<Rightarrow> 'u deed \<Rightarrow> 'u whole \<Rightarrow> 'u whole option" where
  "whole_step E ws cfg (Outside e) W =
     (if by_publisher e then None else map_option (\<lambda>F. W\<lparr>site := F\<rparr>) (happen E ws cfg e (site W)))"
| "whole_step E ws cfg (Begin_connect now) W =
     (case thread_at W of
        Thread_built p \<Rightarrow>
          (let p' = set_state now Connecting (hub_in (site W) (room (client p)) p)
           in Some \<lparr>site = hub_out p' (site W), thread_at = Thread_connecting p'\<rparr>)
      | _ \<Rightarrow> None)"
| "whole_step E ws cfg (Attempt now k remaining out) W =
     (case thread_at W of
        Thread_connecting p \<Rightarrow>
          map_option (\<lambda>r. after_attempt r (site W))
            (connect_attempts E channel_api now [(remaining, out)] (hub_in (site W) k p))
      | _ \<Rightarrow> None)"
| "whole_step E ws cfg (Poll_broker now k out) W =
     (case thread_at W of
        Thread_looping p \<Rightarrow>
          (case run_step E channel_api now (Poll out) (hub_in (site W) k p) of
             Some (Some p') \<Rightarrow> Some \<lparr>site = hub_out p' (site W), thread_at = Thread_looping p'\<rparr>
           | _ \<Rightarrow> None)
      | _ \<Rightarrow> None)"
| "whole_step E ws cfg (Take_event now) W =
     (let F = site W; ch = ds_mqtt_tx (shared (handlers F))
      in case thread_at W of
           Thread_looping p \<Rightarrow>
             if consumed F < length (passed ch)
             then (let p' = handle_event E channel_api now (passed ch ! consumed F) (hub_in F (room (client p)) p)
                   in Some \<lparr>site = hub_out p' (take_event F), thread_at = Thread_looping p'\<rparr>)
             else None
         | _ \<Rightarrow> None)"
| "whole_step E ws cfg (Quit now) W =
     (if \<not> stopping (site W) then None
      else case thread_at W of
          Thread_ended \<Rightarrow> None
        | Thread_looping p \<Rightarrow>
            (let m = transition now Mqtt Disconnected (ds_manager (shared (handlers (site W))))
             in Some \<lparr>site = drop_receiver (store_manager (Some m) (site W)), thread_at = Thread_ended\<rparr>)
        | _ \<Rightarrow> Some \<lparr>site = drop_receiver (site W), thread_at = Thread_ended\<rparr>)"

inductive whole_run :: "ext \<Rightarrow> 'u ws_send \<Rightarrow> session_config \<Rightarrow> 'u whole \<Rightarrow> 'u whole \<Rightarrow> bool" for E ws cfg W0 where
  idle: "whole_run E ws cfg W0 W0"
| did: "whole_run E ws cfg W0 W \<Longrightarrow> whole_step E ws cfg d W = Some W' \<Longrightarrow> whole_run E ws cfg W0 W'"

inductive_cases whole_runE: "whole_run E ws cfg W0 W"

text \<open>What \<open>main\<close> starts. A publisher that could not be built has dropped its receiver.\<close>

definition whole_start :: "(mqtt_request channel, command_request channel) proxy \<Rightarrow> 'u whole" where
  "whole_start px =
     (let F = fleet_new (ds_manager (px_downstream px))
      in case px_publisher px of
           Inr p \<Rightarrow> \<lparr>site = F, thread_at = Thread_built p\<rparr>
         | Inl _ \<Rightarrow> \<lparr>site = drop_receiver F, thread_at = Thread_ended\<rparr>)"


section \<open>The publisher as the fleet sees it\<close>

text \<open>A step of the publisher hands at most one command to the router and sets its state at most once.\<close>

definition one_command :: "hub \<Rightarrow> hub \<Rightarrow> bool" where
  "one_command p p' \<longleftrightarrow> pub_router p' = pub_router p
     \<or> (\<exists>router cp req. pub_router p = Some router \<and> pub_router p' = Some (snd (dispatch try_send cp req router)))"

definition one_state :: "hub \<Rightarrow> hub \<Rightarrow> bool" where
  "one_state p p' \<longleftrightarrow> shared_manager p' = shared_manager p
     \<or> (\<exists>now s. shared_manager p' = map_option (transition now Mqtt s) (shared_manager p))"

lemma one_command_cong:
  "pub_router q' = pub_router q \<Longrightarrow> one_command p q' = one_command p q"
  "pub_router p' = pub_router p \<Longrightarrow> one_command p' q = one_command p q"
  by (simp_all add: one_command_def)

lemma one_command_same [simp]: "pub_router p' = pub_router p \<Longrightarrow> one_command p p'"
  by (simp add: one_command_def)

lemma one_command_dispatch: "one_command p (dispatch_command E channel_api now cp req p)"
proof (cases "pub_router p")
  case (Some router)
  obtain r router' where d: "dispatch try_send cp req router = (r, router')" by fastforce
  then have "pub_router (dispatch_command E channel_api now cp req p) = Some router'"
    using Some by (auto simp: dispatch_command_def channel_api_def Let_def split: sum.splits dispatch_error.splits)
  then show ?thesis unfolding one_command_def using Some d by (metis snd_conv)
qed (simp add: dispatch_command_def)

lemma one_command_event: "one_command p (handle_event E channel_api now ev p)"
proof (cases ev)
  case (StateChanged cp up down)
  have "one_command p (maybe_reapply_limit E channel_api now cp q)" if "pub_router q = pub_router p" for q
    using one_command_dispatch[of q] one_command_cong(2)[OF that[symmetric]]
    by (simp add: maybe_reapply_limit_def that split: option.split)
  with StateChanged show ?thesis by (simp add: handle_event_def Let_def split: sum.split)
qed (simp_all add: handle_event_def split: sum.split)

lemma one_command_incoming: "one_command p (handle_incoming_publish E channel_api now t bytes p)"
  by (auto simp: handle_incoming_publish_def one_command_dispatch split: option.split sum.split)

lemma one_command_poll:
  assumes "run_step E channel_api now (Poll out) p = Some (Some p')"
  shows "one_command p p'"
proof (cases out)
  case (PollPublish t bytes)
  then have "pub_router p' = pub_router (handle_incoming_publish E channel_api now t bytes p)"
    using assms by (auto simp: run_step_def Let_def drain_fields split: if_splits)
  then show ?thesis using one_command_incoming one_command_cong(1) by blast
qed (use assms in \<open>auto simp: run_step_def Let_def drain_fields set_state_def split: if_splits option.splits prod.splits\<close>)

lemma one_state_cong: "conn_view q = conn_view p \<Longrightarrow> one_state p q"
  by (simp add: one_state_def conn_view_def)

lemma one_state_connack: "one_state p (on_connack E A now p)"
  using conn_view_connack[of E A now p] by (auto simp: one_state_def conn_view_def)

lemma one_state_set [simp]: "one_state p (set_state now s p)"
  by (auto simp: one_state_def set_state_def)

lemma one_state_poll:
  assumes "run_step E channel_api now (Poll out) p = Some (Some p')"
  shows "one_state p p'"
  using assms
  by (cases out)
     (auto simp: run_step_def Let_def one_state_connack intro: one_state_cong split: if_splits option.splits,
      auto simp: one_state_def set_state_def)

fun attempted :: "'a returned \<Rightarrow> 'a" where
  "attempted (Returned b p) = p"
| "attempted (StillTrying p) = p"

lemma attempt_once:
  assumes "connect_attempts E channel_api now [(remaining, out)] p = Some r"
  shows "one_command p (attempted r) \<and> one_state p (attempted r)"
proof -
  have "one_state p (p\<lparr>pub_backoff := b\<rparr>)" for b by (simp add: one_state_def)
  moreover have "one_command p (set_state now s p)" "one_state p p" for s by (simp_all add: set_state_def one_state_def)
  ultimately show ?thesis
    using assms one_state_connack[of p E channel_api now] by (auto split: if_splits option.splits poll.splits)
qed

text \<open>Seen from the fleet, that is at most a \<open>Deliver\<close> and a \<open>Mirror\<close>.\<close>

lemma store_channels_same: "store_channels (router_view F) F = F"
proof -
  have "channel_of (router_view F) F i = bd_chan (bodies F ! i)" for i
    by (auto simp: channel_of_def router_view_def Let_def split: option.split)
  then show ?thesis by (simp add: store_channels_def map_nth)
qed

lemma store_channels_dispatch:
  assumes "agreed F"
  shows "store_channels (snd (dispatch try_send cp req (router_view F))) F = snd (deliver cp req F)"
proof (rule deliver_cases[of F cp req])
  assume "ds_router (shared (handlers F)) cp = None" "deliver cp req F = (Inl DispatchNotConnected, F)"
  then show ?thesis by (simp add: dispatch_def router_view_def store_channels_same[unfolded router_view_def])
next
  fix reg :: "nat registration"
  let ?b = "bodies F ! tx reg"
  let ?b' = "?b\<lparr>bd_chan := snd (try_send (bd_chan ?b) req)\<rparr>"
  let ?seen = "\<lparr>generation = generation reg, tx = snd (try_send (bd_chan ?b) req)\<rparr>"
  assume reg: "ds_router (shared (handlers F)) cp = Some reg"
    and d: "deliver cp req F = (case fst (try_send (bd_chan ?b) req) of
        Inr _ \<Rightarrow> Inr () | Inl Full \<Rightarrow> Inl QueueFull | Inl Closed \<Rightarrow> Inl DispatchNotConnected, F\<lparr>bodies := (bodies F)[tx reg := ?b']\<rparr>)"
  have r: "snd (dispatch try_send cp req (router_view F)) = (router_view F)(cp \<mapsto> ?seen)"
    using reg by (auto simp: dispatch_def router_view_def split: prod.split sum.split try_send_error.split)
  have own: "tx reg < length (bodies F)" "task_cp (tasks (handlers F) ! tx reg) = cp"
    using assms reg agreed_length[OF assms] unfolding agreed_def router_ok_def by auto
  have "channel_of ((router_view F)(cp \<mapsto> ?seen)) F i = (if i = tx reg then snd (try_send (bd_chan ?b) req) else bd_chan (bodies F ! i))" for i
    using reg own(2) by (auto simp: channel_of_def router_view_def Let_def split: option.split)
  then have "map (\<lambda>i. (bodies F ! i)\<lparr>bd_chan := channel_of ((router_view F)(cp \<mapsto> ?seen)) F i\<rparr>) [0..<length (bodies F)]
      = (bodies F)[tx reg := ?b']"
    using own(1) by (intro nth_equalityI) (auto simp: nth_list_update)
  then have "store_channels ((router_view F)(cp \<mapsto> ?seen)) F = F\<lparr>bodies := (bodies F)[tx reg := ?b']\<rparr>"
    by (simp add: store_channels_def)
  then show ?thesis using r d by simp
qed


lemma happens_append:
  "happens E ws cfg (es @ es') F = (case happens E ws cfg es F of None \<Rightarrow> None | Some F' \<Rightarrow> happens E ws cfg es' F')"
  by (induction es arbitrary: F) (auto split: option.split)

lemma manager_kept [simp]:
  "ds_manager (shared (handlers (snd (deliver cp req F)))) = ds_manager (shared (handlers F))"
  by (rule deliver_cases[of F cp req]) simp_all

lemma store_manager_same [simp]: "store_manager (Some (ds_manager (shared (handlers F)))) F = F"
  by (simp add: store_manager_def)

lemma hub_out_happens:
  assumes "agreed F" "one_command (hub_in F k p) p'" "one_state (hub_in F k p) p'"
  shows "\<exists>es. happens E ws cfg es F = Some (hub_out p' F)"
proof -
  define G where "G = (case pub_router p' of None \<Rightarrow> F | Some router \<Rightarrow> store_channels router F)"
  have "\<exists>es. happens E ws cfg es F = Some G \<and> ds_manager (shared (handlers G)) = ds_manager (shared (handlers F))"
  proof (cases "pub_router p")
    case None
    then have "G = F" using assms(2) by (auto simp: one_command_def hub_in_def G_def)
    then show ?thesis by (intro exI[of _ "[]"]) simp
  next
    case (Some router)
    then consider "pub_router p' = Some (router_view F)"
      | cp req where "pub_router p' = Some (snd (dispatch try_send cp req (router_view F)))"
      using assms(2) by (auto simp: one_command_def hub_in_def)
    then show ?thesis
    proof cases
      case 1
      then show ?thesis by (intro exI[of _ "[]"]) (simp add: G_def store_channels_same)
    next
      case (2 cp req)
      then show ?thesis by (intro exI[of _ "[Deliver cp req]"]) (simp add: G_def store_channels_dispatch[OF assms(1)])
    qed
  qed
  then obtain es where es: "happens E ws cfg es F = Some G" "ds_manager (shared (handlers G)) = ds_manager (shared (handlers F))"
    by blast
  have out: "hub_out p' F = store_manager (shared_manager p') G" by (simp add: hub_out_def G_def)
  from assms(3) consider "shared_manager p' = Some (ds_manager (shared (handlers G)))"
    | now s where "shared_manager p' = Some (transition now Mqtt s (ds_manager (shared (handlers G))))"
    unfolding one_state_def hub_in_def es(2) by auto
  then show ?thesis
  proof cases
    case 1
    then show ?thesis using es(1) out by auto
  next
    case (2 now s)
    then have "happens E ws cfg [Mirror now s] G = Some (hub_out p' F)" by (simp add: out store_manager_def Let_def)
    then show ?thesis using es(1) happens_append[of E ws cfg es "[Mirror now s]" F] by (metis option.simps(5))
  qed
qed

text \<open>Every deed is a run of the fleet.\<close>

lemma take_event_happens:
  "consumed F < length (passed (ds_mqtt_tx (shared (handlers F)))) \<Longrightarrow> happen E ws cfg Consume F = Some (take_event F)"
  by (simp add: take_event_def Let_def)

lemma take_event_hub [simp]: "hub_in (take_event F) k p = hub_in F k p"
  by (simp add: hub_in_def take_event_def router_view_def Let_def)

lemma quit_happens:
  "happens E ws cfg [Unplug] F = Some (drop_receiver F)"
  "happens E ws cfg [Mirror now Disconnected, Unplug] F
     = Some (drop_receiver (store_manager (Some (transition now Mqtt Disconnected (ds_manager (shared (handlers F))))) F))"
  by (simp_all add: drop_receiver_def store_manager_def Let_def)

lemma whole_step_happens:
  assumes ok: "agreed (site W)" and d: "whole_step E ws cfg d W = Some W'"
  shows "\<exists>es. happens E ws cfg es (site W) = Some (site W')"
proof (cases d)
  case (Outside e)
  then obtain F where "happen E ws cfg e (site W) = Some F" "W' = W\<lparr>site := F\<rparr>" using d by (auto split: if_splits)
  then show ?thesis by (intro exI[of _ "[e]"]) simp
next
  case (Begin_connect now)
  then obtain p where p: "thread_at W = Thread_built p" "site W' = hub_out (set_state now Connecting (hub_in (site W) (room (client p)) p)) (site W)"
    using d by (auto simp: Let_def split: thread.splits)
  have "one_command q (set_state now Connecting q)" for q by (simp add: set_state_def)
  then show ?thesis unfolding p(2) using hub_out_happens[OF ok] one_state_set by blast
next
  case (Attempt now k remaining out)
  then obtain p r where r: "connect_attempts E channel_api now [(remaining, out)] (hub_in (site W) k p) = Some r" "W' = after_attempt r (site W)"
    using d by (auto split: thread.splits)
  then have "site W' = hub_out (attempted r) (site W)" by (cases r) (simp_all add: after_attempt_def)
  then show ?thesis using hub_out_happens[OF ok] attempt_once[OF r(1)] by metis
next
  case (Poll_broker now k out)
  then obtain p p' where p: "run_step E channel_api now (Poll out) (hub_in (site W) k p) = Some (Some p')" "site W' = hub_out p' (site W)"
    using d by (auto split: thread.splits option.splits)
  show ?thesis unfolding p(2) by (rule hub_out_happens[OF ok one_command_poll[OF p(1)] one_state_poll[OF p(1)]])
next
  case (Take_event now)
  let ?F = "site W"
  obtain p p' where p: "consumed ?F < length (passed (ds_mqtt_tx (shared (handlers ?F))))"
      "p' = handle_event E channel_api now (passed (ds_mqtt_tx (shared (handlers ?F))) ! consumed ?F) (hub_in ?F (room (client p)) p)"
      "site W' = hub_out p' (take_event ?F)"
    using d Take_event by (auto simp: Let_def split: thread.splits if_splits)
  have "agreed (take_event ?F)" using happen_agreed[OF ok take_event_happens[OF p(1)]] .
  then have "\<exists>es. happens E ws cfg es (take_event ?F) = Some (hub_out p' (take_event ?F))"
    using hub_out_happens[of "take_event ?F" "room (client p)" p p'] one_command_event one_state_cong[OF conn_view_event]
    unfolding p(2) take_event_hub by blast
  then obtain es where "happens E ws cfg es (take_event ?F) = Some (site W')" using p(3) by auto
  then show ?thesis using take_event_happens[OF p(1), of E ws cfg] by (intro exI[of _ "Consume # es"]) simp
next
  case (Quit now)
  then consider "site W' = drop_receiver (site W)"
    | "site W' = drop_receiver (store_manager (Some (transition now Mqtt Disconnected (ds_manager (shared (handlers (site W)))))) (site W))"
    using d by (cases "thread_at W") (auto simp: Let_def split: if_splits)
  then show ?thesis using quit_happens[of E ws cfg] by cases metis+
qed

lemma whole_run_fleet:
  assumes "whole_run E ws cfg W0 W" "fleet_run E ws cfg (fleet_new m) (site W0)"
  shows "fleet_run E ws cfg (fleet_new m) (site W)"
  using assms
proof (induction rule: whole_run.induct)
  case (did W d W')
  then have F: "fleet_run E ws cfg (fleet_new m) (site W)" by blast
  have "agreed (site W)" using agreement.run_keeps[OF F fleet_new_ok(3)] .
  from whole_step_happens[OF this did.hyps(2)] show ?case using happens_run F by blast
qed

lemma whole_start_fleet: "fleet_run E ws cfg (fleet_new (ds_manager (px_downstream px))) (site (whole_start px))"
  using happens_run[OF quit_happens(1) fleet_run.idle]
  by (auto simp: whole_start_def Let_def intro: fleet_run.idle split: sum.split)

lemma whole_implements_fleet:
  "whole_run E ws cfg (whole_start px) W \<Longrightarrow> fleet_run E ws cfg (fleet_new (ds_manager (px_downstream px))) (site W)"
  using whole_run_fleet[OF _ whole_start_fleet] .

section \<open>A command from the broker\<close>

text \<open>What the router accepts is delivered; the snapshots are as they were.\<close>

lemma poll_delivers:
  assumes ok: "agreed (site W)" and p: "thread_at W = Thread_looping p"
    and g: "ds_router (shared (handlers (site W))) cp = Some \<lparr>generation = g, tx = i\<rparr>"
      "\<not> closed (bd_chan (bodies (site W) ! i))" "0 < room (bd_chan (bodies (site W) ! i))" "pub_router p \<noteq> None"
    and c: "parse_command_topic t = Some (cp, kind)" "parse_command_payload E now kind bytes = Inr req"
  obtains p1 where "whole_step E ws cfg (Poll_broker now k (PollPublish t bytes)) W
      = Some \<lparr>site = snd (deliver cp req (site W)), thread_at = Thread_looping p1\<rparr>"
    "snapshots p1 = snapshots p" "pub_router p1 \<noteq> None"
proof -
  let ?F = "site W" and ?b = "bodies (site W) ! i"
  let ?q = "hub_in ?F k p"
  have q: "pub_router ?q = Some (router_view ?F)" "snapshots ?q = snapshots p" "shared_manager ?q = Some (ds_manager (shared (handlers ?F)))"
    using g(4) by (auto simp: hub_in_def)
  have seen: "router_view ?F cp = Some \<lparr>generation = g, tx = bd_chan ?b\<rparr>" using g(1) by (simp add: router_view_def)
  let ?h = "handle_incoming_publish E channel_api now t bytes ?q"
  have h: "?h = ?q\<lparr>pub_router := Some (snd (dispatch try_send cp req (router_view ?F)))\<rparr>"
    using c q(1) seen g(2,3)
    by (simp add: handle_incoming_publish_def dispatch_command_def dispatch_def channel_api_def try_send_def Let_def)
  define p1 where "p1 = (if pub_state ?h = Connected then snd (drain_buffer channel_api ?h) else ?h)"
  have p1: "pub_router p1 = Some (snd (dispatch try_send cp req (router_view ?F)))" "snapshots p1 = snapshots p"
      "shared_manager p1 = Some (ds_manager (shared (handlers ?F)))"
    using h q(2,3) conn_view_drain[of channel_api ?h] by (simp_all add: p1_def drain_fields conn_view_def)
  then have "hub_out p1 ?F = snd (deliver cp req ?F)"
    using store_channels_dispatch[OF ok, of cp req] store_manager_same[of "snd (deliver cp req ?F)"] by (simp add: hub_out_def)
  moreover have "run_step E channel_api now (Poll (PollPublish t bytes)) ?q = Some (Some p1)" by (simp add: run_step_def p1_def Let_def)
  ultimately show ?thesis using that[of p1] p p1 by simp
qed

section \<open>What \<open>main\<close> starts with\<close>

lemma started:
  assumes "main_start E read mk P d loaded = Inr px"
  obtains url where "loaded = Inr (px_config px)" "px_session px = session_config_of (px_config px) url"
    "px_publisher px = build_publisher E read mk (px_config px) d manager_new Map.empty"
    "ds_manager (px_downstream px) = set_listener_bound True manager_new"
proof -
  obtain c url served m bound where c: "startup_checks (parse_url P) (local_address P) (show_addr P) loaded = Inr (c, url)"
      "bind_ports P c manager_new = Inr (served, m, bound)"
    using assms by (auto simp: main_start_def Let_def split: sum.splits prod.splits)
  then have "px_config px = c" "px_session px = session_config_of c url" "px_publisher px = build_publisher E read mk c d manager_new Map.empty"
    using assms by (auto simp: main_start_def Let_def split: sum.splits)
  moreover have "loaded = Inr c" using c(1) by (simp add: startup_checks_Inr)
  ultimately show ?thesis using that main_start_facts(1)[OF assms] by blast
qed

lemma built_publisher:
  assumes "build_publisher E read mk c d m router = Inr p"
  shows "pub_state p = Disconnected" "pub_backoff p = with_defaults (from_secs 1) (from_secs 30)"
    "snapshots p = store_load E (snapshot_store_of c) d" "pub_router p = (if enabled (charging c) then Some router else None)"
  using assms by (auto simp: build_publisher_def publisher_new_def with_state_manager_def with_command_router_def Let_def split: sum.splits)

end
