(* ===== verification/Whole_Invariant.thy ===== *)
theory Whole_Invariant
  imports Whole
begin

text \<open>
  Invariants of the running proxy, once and for all: what the handlers of one session keep of its own part and of the shared
  parts, and the publisher of the shared parts, holds in every reachable state, however connections overlap.
\<close>

section \<open>The law\<close>

text \<open>
  \<open>own\<close> speaks of what belongs to a session, \<open>common\<close> of what all share: the state manager, the event channel
  and the publisher. \<open>keeps p\<close> is both, with the publisher in state \<open>p\<close>.
\<close>

definition keeps :: "(session \<Rightarrow> bool) \<Rightarrow> (state_manager \<Rightarrow> mqtt_event channel \<Rightarrow> hub \<Rightarrow> bool) \<Rightarrow> hub \<Rightarrow> session \<Rightarrow> bool" where
  "keeps own common p s \<longleftrightarrow> own s \<and> common (manager s) (mqtt_tx (forwarder s)) p"

fun running_hub :: "thread \<Rightarrow> hub option" where
  "running_hub (Thread_built p) = Some p"
| "running_hub (Thread_connecting p) = Some p"
| "running_hub (Thread_looping p) = Some p"
| "running_hub Thread_ended = None"

text \<open>\<open>own\<close> of every session there ever was, \<open>common\<close> of what they share with the publisher.\<close>

definition fleet_keeps ::
    "(session \<Rightarrow> bool) \<Rightarrow> (state_manager \<Rightarrow> mqtt_event channel \<Rightarrow> hub \<Rightarrow> bool) \<Rightarrow> hub \<Rightarrow> 'u fleet \<Rightarrow> bool" where
  "fleet_keeps own common p F \<longleftrightarrow> (\<forall>b \<in> set (bodies F). own (bd_sess b))
     \<and> common (ds_manager (shared (handlers F))) (ds_mqtt_tx (shared (handlers F))) p"

definition whole_keeps ::
    "(session \<Rightarrow> bool) \<Rightarrow> (state_manager \<Rightarrow> mqtt_event channel \<Rightarrow> hub \<Rightarrow> bool) \<Rightarrow> 'u whole \<Rightarrow> bool" where
  "whole_keeps own common W \<longleftrightarrow>
     (\<exists>p. fleet_keeps own common p (site W) \<and> (\<forall>q. running_hub (thread_at W) = Some q \<longrightarrow> q = p))"

locale whole_law =
  fixes E :: ext and ws :: "'u ws_send" and cfg :: session_config
    and own :: "session \<Rightarrow> bool" and common :: "state_manager \<Rightarrow> mqtt_event channel \<Rightarrow> hub \<Rightarrow> bool"
  assumes own_plugged: "own (s\<lparr>manager := m, forwarder := (forwarder s)\<lparr>mqtt_tx := ch\<rparr>\<rparr>) = own s"
    and common_room: "common m (ch\<lparr>room := n\<rparr>) p = common m ch p"
    and common_router: "common m ch (p\<lparr>pub_router := table\<rparr>) = common m ch p"
    and session_starts: "common m ch p \<Longrightarrow> own (session_new cfg cp ch m)"
    and loop_step_keeps: "keeps own common p s \<Longrightarrow> keeps own common p (snd (snd (loop_step E ws cfg now inst ev u s)))"
    and after_lost_keeps: "keeps own common p s \<Longrightarrow> after_lost now inst w s = Some r \<Longrightarrow> keeps own common p (result_state r)"
    and upstream_keeps: "keeps own common p s \<Longrightarrow> keeps own common p (set_upstream_state now st s)"
    and dial_failed_keeps: "keeps own common p s \<Longrightarrow> dial_failed cfg now inst s = Some r \<Longrightarrow> keeps own common p (result_state r)"
    and dial_done_keeps: "keeps own common p s \<Longrightarrow> keeps own common p (snd (snd (dial_done ws now u s)))"
    and wind_down_keeps: "keeps own common p s \<Longrightarrow> keeps own common p (wind_down E now waiting s)"
    and downstream_keeps: "keeps own common p s \<Longrightarrow> m = transition now Downstream st (manager s)
          \<Longrightarrow> keeps own common p (publish_status (upstream_state m) (downstream_state m) (s\<lparr>manager := m\<rparr>))"
    and event_keeps: "common m ch p \<Longrightarrow> said \<in> set (passed ch) \<Longrightarrow> common m ch (handle_event E channel_api now said p)"
    and poll_keeps: "common m ch p
          \<Longrightarrow> run_step E channel_api now (Poll out) (p\<lparr>shared_manager := Some m, client := (client p)\<lparr>room := k\<rparr>\<rparr>) = Some (Some p')
          \<Longrightarrow> common (case shared_manager p' of None \<Rightarrow> m | Some m' \<Rightarrow> m') ch p'"
    and common_plugged: "common m ch (p\<lparr>shared_manager := x, client := c\<rparr>) = common m ch p"
    and common_closed: "common m (ch\<lparr>closed := b\<rparr>) p = common m ch p"
    and request_keeps: "common m ch p \<Longrightarrow> common (transition now Downstream st m) ch p"
    and begin_keeps: "common m ch p
          \<Longrightarrow> common (transition now Mqtt Connecting m) ch (set_state now Connecting (p\<lparr>shared_manager := Some m, client := c\<rparr>))"
    and attempt_keeps: "common m ch p
          \<Longrightarrow> connect_attempts E channel_api now [(remaining, got)] (p\<lparr>shared_manager := Some m, client := c\<rparr>) = Some tried
          \<Longrightarrow> common (case shared_manager (attempted tried) of None \<Rightarrow> m | Some m' \<Rightarrow> m') ch (attempted tried)"
    and quit_keeps: "common m ch p \<Longrightarrow> \<exists>q. common (transition now Mqtt Disconnected m) ch q"
begin

abbreviation "kept \<equiv> keeps own common"
abbreviation "fleet_ok \<equiv> fleet_keeps own common"
abbreviation "whole_ok \<equiv> whole_keeps own common"

lemma attach_kept: "fleet_ok p F \<Longrightarrow> i < length (bodies F) \<Longrightarrow> kept p (attach i F)"
  by (simp add: fleet_keeps_def keeps_def attach_def Let_def own_plugged)

lemma detach_ok: "fleet_ok p F \<Longrightarrow> kept p s \<Longrightarrow> fleet_ok p (detach i (l, n, u, s) F)"
  using set_update_subset_insert[of "bodies F" i] by (fastforce simp: fleet_keeps_def keeps_def detach_def Let_def)

lemma break_off_kept: "kept p s \<Longrightarrow> kept p (snd (snd (snd (break_off E now rest n u s))))"
  by (simp add: break_off_def wind_down_keeps)

lemma loop_turn_kept:
  assumes "kept p (snd (snd v))" "loop_turn E now inst rest n v = Some r"
  shows "kept p (snd (snd (snd r)))"
proof -
  obtain oc u s where v: "v = (oc, u, s)" by (metis prod_cases3)
  then show ?thesis
    using assms break_off_kept after_lost_keeps
    by (auto simp: loop_turn_def split: option.splits loop_outcome.splits)
qed

lemma turn_kept:
  assumes k: "kept p s" and t: "session_turn E ws cfg dropped rest l u s t = Some r"
  shows "kept p (snd (snd (snd r)))"
proof (cases t)
  case (StartDial now)
  then show ?thesis using t k upstream_keeps by (auto simp: dial_def split: if_splits)
next
  case (FailDial now inst)
  then obtain x where x: "dial_failed cfg now inst s = Some x" "l = Dialling" using t by (auto split: if_splits option.splits)
  then show ?thesis
    using t FailDial dial_failed_keeps[OF k x(1)] break_off_kept by (cases x) auto
next
  case (EndDial now u')
  then show ?thesis using t dial_done_keeps[OF k, of now u'] by (auto split: if_splits prod.splits)
next
  case (HandleLoop now inst ev)
  then have "loop_turn E now inst rest 0 (loop_step E ws cfg now inst ev u s) = Some r"
    using t by (auto split: if_splits loop_event.splits option.splits)
  then show ?thesis using loop_turn_kept[OF loop_step_keeps[OF k]] by blast
next
  case (Receive now inst)
  then show ?thesis using t loop_turn_kept[OF loop_step_keeps[OF k]] by (auto split: if_splits list.splits)
next
  case (EndPause now w)
  have "result_state (wake_result w s) = s" by (auto simp: wake_result_def split: wake.splits)
  then show ?thesis
    using t k EndPause break_off_kept[OF k] by (cases "wake_result w s"; cases w) (auto split: if_splits)
next
  case (SignOff now)
  then show ?thesis using t k upstream_keeps by (auto split: if_splits)
qed

lemma announce_ok:
  assumes "common (ds_manager st) (ds_mqtt_tx st) p"
  shows "common (ds_manager (announce now cp x st)) (ds_mqtt_tx (announce now cp x st)) p"
proof -
  let ?m = "transition now Downstream x (ds_manager st)" and ?s = "session_new cfg cp (ds_mqtt_tx st) (ds_manager st)"
  have "kept p ?s" using assms session_starts by (simp add: keeps_def session_new_def with_charge_point_id_def)
  then have "kept p (publish_status (upstream_state ?m) (downstream_state ?m) (?s\<lparr>manager := ?m\<rparr>))"
    by (rule downstream_keeps) (simp add: session_new_def)
  then show ?thesis
    by (simp add: keeps_def announce_def ds_publish_status_def publish_status_def send_event_def session_new_def
        with_charge_point_id_def Let_def)
qed

lemma advance_common:
  assumes "common (ds_manager st) (ds_mqtt_tx st) p" "advance now i t st = (t', st')"
  shows "common (ds_manager st') (ds_mqtt_tx st') p"
  using assms announce_ok[OF assms(1)]
  by (cases "task_phase t")
     (auto simp: advance_def fetch_generation_def insert_connection_def deregister_connection_def Let_def
       split: option.splits if_splits)

lemma walk_ok: "fleet_ok p F \<Longrightarrow> fleet_ok p (F\<lparr>handlers := perform now (Advance i) (handlers F)\<rparr>)"
  using advance_common[of "shared (handlers F)" p now i "tasks (handlers F) ! i"]
  by (auto simp: fleet_keeps_def perform_def Let_def split: prod.split)

lemma knock_ok: "fleet_ok p F \<Longrightarrow> fleet_ok p (knock cfg cp header now arrives u F)"
proof -
  assume F: "fleet_ok p F"
  then have m: "common (transition now Downstream Connecting (ds_manager (shared (handlers F)))) (ds_mqtt_tx (shared (handlers F))) p"
    by (simp add: fleet_keeps_def request_keeps)
  show ?thesis
    by (rule knock_cases[of cfg cp header now arrives u F])
       (use F m session_starts[OF m] in \<open>simp_all add: fleet_keeps_def perform_def body_new_def\<close>)
qed

lemma happen_ok:
  assumes F: "fleet_ok p F" and e: "happen E ws cfg e F = Some F'" "\<not> by_publisher e"
  shows "fleet_ok p F'"
proof (cases e)
  case (Knock cp header now arrives u)
  then show ?thesis using knock_ok[OF F] e by auto
next
  case (Walk i now)
  then show ?thesis using walk_ok[OF F] e by (auto split: if_splits)
next
  case (Turn i t)
  then obtain r where r: "session_turn E ws cfg (sender_dropped i F) (unread (bodies F ! i)) (bd_leg (bodies F ! i))
      (bd_uplink (bodies F ! i)) (attach i F) t = Some r" "i < length (bodies F)" "F' = detach i r F"
    using e by (auto split: if_splits)
  then show ?thesis using detach_ok[OF F turn_kept[OF attach_kept[OF F r(2)] r(1)]] by (metis prod.collapse)
next
  case Stop
  then show ?thesis using F e by (auto simp: fleet_keeps_def)
qed (use e in auto)

text \<open>The publisher's steps.\<close>

lemma hub_out_ok:
  assumes "fleet_ok p F"
    and "common (case shared_manager p' of None \<Rightarrow> ds_manager (shared (handlers F)) | Some m \<Rightarrow> m) (ds_mqtt_tx (shared (handlers F))) p'"
  shows "fleet_ok p' (hub_out p' F)"
proof -
  have "\<forall>b \<in> set (bodies (store_channels router F)). own (bd_sess b)" for router
    using assms(1) by (auto simp: store_channels_def fleet_keeps_def)
  then show ?thesis
    using assms by (auto simp: hub_out_def store_manager_def fleet_keeps_def store_channels_def[of _ F] split: option.split)
qed

lemma hub_common: "common m ch (hub_in F k p) = common m ch p"
proof -
  have "hub_in F k p = (p\<lparr>pub_router := map_option (\<lambda>_. router_view F) (pub_router p)\<rparr>)
      \<lparr>shared_manager := Some (ds_manager (shared (handlers F))), client := (client p)\<lparr>room := k\<rparr>\<rparr>"
    by (simp add: hub_in_def)
  then show ?thesis by (simp only: common_plugged common_router)
qed

lemma take_event_ok: "fleet_ok p F \<Longrightarrow> fleet_ok p (take_event F)"
  by (simp add: fleet_keeps_def take_event_def Let_def common_room)

lemma drop_receiver_ok: "fleet_ok p F \<Longrightarrow> fleet_ok p (drop_receiver F)"
  by (simp add: fleet_keeps_def drop_receiver_def Let_def common_closed)

lemma whole_okI: "fleet_ok p F \<Longrightarrow> running_hub t = Some p \<Longrightarrow> whole_ok \<lparr>site = F, thread_at = t\<rparr>"
  by (auto simp: whole_keeps_def)

lemma whole_step_ok:
  assumes W: "whole_ok W" and d: "whole_step E ws cfg d W = Some W'"
  shows "whole_ok W'"
proof -
  obtain p where p: "fleet_ok p (site W)" "\<And>q. running_hub (thread_at W) = Some q \<Longrightarrow> q = p"
    using W by (auto simp: whole_keeps_def)
  let ?m = "ds_manager (shared (handlers (site W)))" and ?ch = "ds_mqtt_tx (shared (handlers (site W)))"
  have c: "common ?m ?ch p" using p(1) by (simp add: fleet_keeps_def)
  have plugged: "\<exists>c q. hub_in (site W) k p = q\<lparr>shared_manager := Some ?m, client := c\<rparr> \<and> common ?m ?ch q" for k
    by (rule exI[of _ "(client p)\<lparr>room := k\<rparr>"],
        rule exI[of _ "p\<lparr>pub_router := map_option (\<lambda>_. router_view (site W)) (pub_router p)\<rparr>"])
       (simp add: hub_in_def common_router c)
  show ?thesis
  proof (cases d)
    case (Outside e)
    then obtain F where "happen E ws cfg e (site W) = Some F" "\<not> by_publisher e" "W' = W\<lparr>site := F\<rparr>"
      using d by (auto split: if_splits)
    then show ?thesis using happen_ok[OF p(1)] p(2) by (auto simp: whole_keeps_def)
  next
    case (Begin_connect now)
    then obtain k p' where p': "p' = set_state now Connecting (hub_in (site W) k p)" "W' = \<lparr>site = hub_out p' (site W), thread_at = Thread_connecting p'\<rparr>"
      using d p(2) by (auto simp: Let_def split: thread.splits)
    obtain x q where q: "hub_in (site W) k p = q\<lparr>shared_manager := Some ?m, client := x\<rparr>" "common ?m ?ch q" using plugged by blast
    have "shared_manager p' = Some (transition now Mqtt Connecting ?m)" by (simp add: p'(1) q(1) set_state_def)
    then have "fleet_ok p' (hub_out p' (site W))"
      using hub_out_ok[OF p(1), of p'] begin_keeps[OF q(2), of now x] p'(1) q(1) by simp
    then show ?thesis unfolding p'(2) by (rule whole_okI) simp
  next
    case (Attempt now k remaining out)
    then obtain r where r: "connect_attempts E channel_api now [(remaining, out)] (hub_in (site W) k p) = Some r" "W' = after_attempt r (site W)"
      using d p(2) by (auto split: thread.splits)
    obtain x q where q: "hub_in (site W) k p = q\<lparr>shared_manager := Some ?m, client := x\<rparr>" "common ?m ?ch q" using plugged by blast
    have "fleet_ok (attempted r) (hub_out (attempted r) (site W))"
      by (rule hub_out_ok[OF p(1) attempt_keeps[OF q(2) r(1)[unfolded q(1)]]])
    then show ?thesis unfolding r(2) by (cases r) (simp_all add: after_attempt_def whole_okI)
  next
    case (Poll_broker now k out)
    then obtain p' where p': "run_step E channel_api now (Poll out) (hub_in (site W) k p) = Some (Some p')"
        "W' = \<lparr>site = hub_out p' (site W), thread_at = Thread_looping p'\<rparr>"
      using d p(2) by (auto split: thread.splits option.splits)
    let ?q = "p\<lparr>pub_router := map_option (\<lambda>_. router_view (site W)) (pub_router p)\<rparr>"
    have "hub_in (site W) k p = ?q\<lparr>shared_manager := Some ?m, client := (client ?q)\<lparr>room := k\<rparr>\<rparr>" by (simp add: hub_in_def)
    then have "common (case shared_manager p' of None \<Rightarrow> ?m | Some m' \<Rightarrow> m') ?ch p'"
      using poll_keeps[of ?m ?ch ?q] p'(1) c by (simp add: common_router)
    then show ?thesis unfolding p'(2) by (intro whole_okI[of p'] hub_out_ok[OF p(1)]) simp_all
  next
    case (Take_event now)
    let ?F = "site W"
    obtain p' where p': "consumed ?F < length (passed ?ch)" "p' = handle_event E channel_api now (passed ?ch ! consumed ?F) (hub_in ?F (room (client p)) p)"
        "W' = \<lparr>site = hub_out p' (take_event ?F), thread_at = Thread_looping p'\<rparr>"
      using d p(2) Take_event by (auto simp: Let_def split: thread.splits if_splits)
    have "common ?m ?ch (hub_in ?F (room (client p)) p)" using c by (simp only: hub_common)
    then have "common ?m ?ch p'" unfolding p'(2) by (rule event_keeps) (use p'(1) in simp)
    moreover have "shared_manager p' = Some ?m"
      using conn_view_event[of E channel_api now _ "hub_in ?F (room (client p)) p"] unfolding p'(2) by (simp add: conn_view_def hub_in_def)
    ultimately have "fleet_ok p' (hub_out p' (take_event ?F))"
      by (intro hub_out_ok[OF take_event_ok[OF p(1)]]) (simp add: take_event_def Let_def common_room)
    then show ?thesis unfolding p'(3) by (rule whole_okI) simp
  next
    case (Quit now)
    obtain q where "common (transition now Mqtt Disconnected ?m) ?ch q" using quit_keeps[OF c] by blast
    then have "fleet_ok q (store_manager (Some (transition now Mqtt Disconnected ?m)) (site W))"
      using p(1) by (simp add: fleet_keeps_def store_manager_def)
    from drop_receiver_ok[OF this] show ?thesis
      using d Quit drop_receiver_ok[OF p(1)] by (auto simp: whole_keeps_def Let_def split: if_splits thread.splits)
  qed
qed

lemma whole_run_ok: "whole_run E ws cfg W0 W \<Longrightarrow> whole_ok W0 \<Longrightarrow> whole_ok W"
  by (induction rule: whole_run.induct) (auto intro: whole_step_ok simp del: whole_step.simps)

lemma whole_start_ok:
  assumes "\<And>p. px_publisher px = Inr p \<Longrightarrow> common (ds_manager (px_downstream px)) (channel_new 1000) p"
    and "common (ds_manager (px_downstream px)) (channel_new 1000) q"
  shows "whole_ok (whole_start px)"
proof -
  have "fleet_ok r (fleet_new m)" if "common m (channel_new 1000) r" for r m
    using that by (simp add: fleet_keeps_def fleet_new_def)
  then show ?thesis
    using assms drop_receiver_ok by (cases "px_publisher px") (fastforce simp: whole_start_def Let_def whole_keeps_def)+
qed

end

end
