(* ===== verification/Whole_Example.thy ===== *)
theory Whole_Example
  imports Whole
begin

text \<open>
  A proxy as \<open>main\<close> starts it, with commands enabled: a charger connects twice, the publisher's start-up connect succeeds
  and a command arrives from the broker. The examples of the properties start here.
\<close>

definition demo_commands_config :: proxy_config where
  "demo_commands_config = demo_proxy_config\<lparr>charging := charging_config_default\<lparr>enabled := True\<rparr>\<rparr>"

abbreviation demo_main :: "ext \<Rightarrow> start_failure + (mqtt_request channel, command_request channel) proxy" where
  "demo_main E \<equiv> main_start E (\<lambda>_. Inl ''no file'') (\<lambda>_ n. channel_new n) demo_platform \<lparr>files = Map.empty, faults = []\<rparr>
     (Inr demo_commands_config)"

definition demo_px :: "ext \<Rightarrow> (mqtt_request channel, command_request channel) proxy" where
  "demo_px E = projr (demo_main E)"

definition demo_hub :: "ext \<Rightarrow> hub" where
  "demo_hub E = projr (px_publisher (demo_px E))"

lemma demo_px_started: "demo_main E = Inr (demo_px E)"
proof -
  have "\<exists>px. demo_main E = Inr px"
    by (simp add: main_start_iff demo_platform_def demo_commands_config_def demo_proxy_config_def)
  then show ?thesis by (auto simp: demo_px_def)
qed

lemma demo_px_parts:
  "ds_manager (px_downstream (demo_px E)) = set_listener_bound True manager_new" "px_config (demo_px E) = demo_commands_config"
  "px_session (demo_px E) = session_config_of demo_commands_config ''ws://cs''"
  "px_publisher (demo_px E) = Inr (demo_hub E)"
proof -
  obtain url where px: "px_publisher (demo_px E) = build_publisher E (\<lambda>_. Inl ''no file'') (\<lambda>_ n. channel_new n) (px_config (demo_px E))
        \<lparr>files = Map.empty, faults = []\<rparr> manager_new Map.empty"
      "Inr demo_commands_config = (Inr (px_config (demo_px E)) :: proxy_error + proxy_config)"
      "ds_manager (px_downstream (demo_px E)) = set_listener_bound True manager_new"
    using started[OF demo_px_started] by metis
  have c: "px_config (demo_px E) = demo_commands_config" using px(2) by simp
  have "\<exists>p. px_publisher (demo_px E) = Inr p"
    by (auto simp: px(1) c build_publisher_def publisher_new_def connect_options_def build_tls_config_def
        demo_commands_config_def demo_proxy_config_def Let_def)
  then show "px_publisher (demo_px E) = Inr (demo_hub E)" by (auto simp: demo_hub_def)
  show "px_config (demo_px E) = demo_commands_config" "ds_manager (px_downstream (demo_px E)) = set_listener_bound True manager_new"
    using px by simp_all
  show "px_session (demo_px E) = session_config_of demo_commands_config ''ws://cs''"
    by (auto simp: demo_px_def main_start_def startup_checks_def bind_ports_def demo_platform_def demo_commands_config_def
        demo_proxy_config_def Let_def)
qed

lemma demo_hub_built: "build_publisher E (\<lambda>_. Inl ''no file'') (\<lambda>_ n. channel_new n) demo_commands_config \<lparr>files = Map.empty, faults = []\<rparr>
    manager_new Map.empty = Inr (demo_hub E)"
  using started[OF demo_px_started] demo_px_parts(2,4) by metis

lemma demo_hub_parts:
  "pub_router (demo_hub E) = Some Map.empty" "snapshots (demo_hub E) = []"
  "pub_backoff (demo_hub E) = with_defaults (from_secs 1) (from_secs 30)"
proof -
  have "trim [] = []" by code_simp
  then have c: "snapshot_store_of demo_commands_config = \<lparr>store_path = None\<rparr>" "enabled (charging demo_commands_config)"
    by (simp_all add: snapshot_store_of_def demo_commands_config_def demo_proxy_config_def)
  then show "pub_router (demo_hub E) = Some Map.empty" "snapshots (demo_hub E) = []"
      "pub_backoff (demo_hub E) = with_defaults (from_secs 1) (from_secs 30)"
    using built_publisher[OF demo_hub_built] by (simp_all add: store_load_def)
qed

text \<open>A run outside the publisher is a run of the whole.\<close>

lemma outside_run:
  assumes "happens E ws cfg es F = Some F'" "\<forall>e \<in> set es. \<not> by_publisher e" "whole_run E ws cfg W0 \<lparr>site = F, thread_at = t\<rparr>"
  shows "whole_run E ws cfg W0 \<lparr>site = F', thread_at = t\<rparr>"
  using assms
proof (induction es arbitrary: F)
  case (Cons e es)
  obtain G where G: "happen E ws cfg e F = Some G" "happens E ws cfg es G = Some F'"
    using Cons.prems(1) by (auto split: option.splits)
  have "whole_step E ws cfg (Outside e) \<lparr>site = F, thread_at = t\<rparr> = Some \<lparr>site = G, thread_at = t\<rparr>"
    using G(1) Cons.prems(2) by simp
  from whole_run.did[OF Cons.prems(3) this] show ?case using Cons.IH[OF G(2)] Cons.prems(2) by simp
qed simp

definition demo_site :: "ext \<Rightarrow> session_config \<Rightarrow> unit fleet" where
  "demo_site E cfg = demo_overlap E cfg (set_listener_bound True manager_new)"

lemma demo_site_run: "whole_run E demo_ws cfg (whole_start (demo_px E)) \<lparr>site = demo_site E cfg, thread_at = Thread_built (demo_hub E)\<rparr>"
proof -
  have "whole_start (demo_px E) = \<lparr>site = fleet_new (set_listener_bound True manager_new), thread_at = Thread_built (demo_hub E)\<rparr>"
    by (simp add: whole_start_def Let_def demo_px_parts)
  moreover have "\<forall>e \<in> set (demo_arrival 0 @ demo_arrival 1). \<not> by_publisher e" by (simp add: demo_arrival_def)
  ultimately show ?thesis unfolding demo_site_def using outside_run[OF demo_overlap_facts(1)] whole_run.idle by metis
qed

lemma demo_view: "router_view (demo_site E cfg) = [''CP1'' \<mapsto> \<lparr>generation = 2, tx = channel_new COMMAND_CHANNEL_CAPACITY\<rparr>]"
  by (auto simp: router_view_def demo_site_def demo_overlap_facts(7) demo_overlap_nth[unfolded One_nat_def])

text \<open>The start-up connect succeeds.\<close>

lemma demo_looping:
  obtains p m where "whole_run E demo_ws cfg (whole_start (demo_px E)) \<lparr>site = store_manager (Some m) (demo_site E cfg), thread_at = Thread_looping p\<rparr>"
    "pub_state p = Connected" "pub_router p = Some (router_view (demo_site E cfg))" "snapshots p = []"
proof -
  let ?F = "demo_site E cfg" and ?p = "demo_hub E"
  define p1 where "p1 = set_state 2 Connecting (hub_in ?F (room (client ?p)) ?p)"
  have r1: "pub_router p1 = Some (router_view ?F)" "shared_manager p1 = Some (transition 2 Mqtt Connecting (ds_manager (shared (handlers ?F))))"
      "snapshots p1 = []"
    using demo_hub_parts[of E] by (simp_all add: p1_def set_state_def hub_in_def)
  define F1 where "F1 = hub_out p1 ?F"
  have F1: "F1 = store_manager (shared_manager p1) ?F" by (simp add: F1_def hub_out_def r1(1) store_channels_same)
  have s1: "whole_step E demo_ws cfg (Begin_connect 2) \<lparr>site = ?F, thread_at = Thread_built ?p\<rparr> = Some \<lparr>site = F1, thread_at = Thread_connecting p1\<rparr>"
    by (simp add: p1_def F1_def Let_def)
  have same: "router_view F1 = router_view ?F" "store_channels (router_view ?F) F1 = F1" if "F1 = F1"
    using store_channels_same[of F1] by (auto simp: F1 r1(2) store_manager_def router_view_def)
  define p2 where "p2 = on_connack E channel_api 3 (hub_in F1 10 p1)"
  have c2: "conn_view p2 = (Connected, reset (pub_backoff p1), map_option (transition 3 Mqtt Connected) (Some (ds_manager (shared (handlers F1)))))"
    using conn_view_connack[of E channel_api 3 "hub_in F1 10 p1"] by (simp add: p2_def hub_in_def)
  have r2: "pub_router p2 = Some (router_view ?F)" "pub_state p2 = Connected" "snapshots p2 = []"
      "shared_manager p2 = Some (transition 3 Mqtt Connected (ds_manager (shared (handlers F1))))"
    using c2 same(1) r1(1,3) by (simp_all add: p2_def hub_in_def conn_view_def)
  have out: "hub_out p2 F1 = store_manager (shared_manager p2) ?F"
    using same(2) by (simp add: hub_out_def r2(1,4)) (simp add: F1 r1(2) store_manager_def)
  have s2: "whole_step E demo_ws cfg (Attempt 3 10 1 (Some PollConnAck)) \<lparr>site = F1, thread_at = Thread_connecting p1\<rparr>
      = Some \<lparr>site = store_manager (shared_manager p2) ?F, thread_at = Thread_looping p2\<rparr>"
    using out by (simp add: p2_def after_attempt_def)
  show ?thesis
    using that[of "transition 3 Mqtt Connected (ds_manager (shared (handlers F1)))" p2] r2
      whole_run.did[OF whole_run.did[OF demo_site_run s1] s2] by simp
qed

end
