(* ===== verification/Whole_State.thy ===== *)
theory Whole_State
  imports Whole_Invariant Whole_Example Session_Properties
begin

text \<open>
  What stays well-formed in the running proxy: the queues and buffers of every session, the shared
  connection states with their history, and the backoffs; so no step of a session or of the publisher panics,
  and the health endpoint sees the publisher's real state.
\<close>

section \<open>What a session leaves alone\<close>

definition steady_view where
  "steady_view s = (sess_backoff s, mqtt_state (manager s))"

lemma steady_quiet: "quiet_view s' = quiet_view s \<Longrightarrow> steady_view s' = steady_view s"
  by (simp add: quiet_view_def steady_view_def)

lemma mqtt_counters [simp]: "mqtt_state (record_forwarded d m) = mqtt_state m" "mqtt_state (record_dropped d n m) = mqtt_state m"
  by (cases d; simp)+

lemma mqtt_replayed [simp]: "mqtt_state ((record_forwarded d ^^ n) m) = mqtt_state m"
  by (induction n) simp_all

lemma steady_fields [simp]:
  "steady_view (s\<lparr>local := q\<rparr>) = steady_view s" "steady_view (s\<lparr>charger_tx := t\<rparr>) = steady_view s"
  "steady_view (s\<lparr>forwarder := fw\<rparr>) = steady_view s" "steady_view (s\<lparr>commands_open := b\<rparr>) = steady_view s"
  "steady_view (s\<lparr>manager := record_forwarded d (manager s)\<rparr>) = steady_view s"
  "steady_view (emit_command_result r s) = steady_view s" "steady_view (publish_status up down s) = steady_view s"
  "steady_view (send_event ev s) = steady_view s"
  "steady_view (snd (send_local_calls E c now inst s)) = steady_view s"
  using steady_quiet[OF send_local_calls_quiet[of E c now inst s]]
  by (simp_all add: steady_view_def emit_command_result_def publish_status_def send_event_def del: record_forwarded.simps)

lemma steady_emit_all [simp]: "steady_view (fold (\<lambda>x. emit_command_result (f x)) xs s) = steady_view s"
  by (induction xs arbitrary: s) simp_all

lemma steady_upstream [simp]: "steady_view (set_upstream_state now st s) = steady_view s"
  by (simp add: set_upstream_state_def Let_def) (simp add: steady_view_def)

lemma steady_complete [simp]: "steady_view (complete_local_call E now fl f s) = steady_view s"
  by (simp add: complete_local_call_def Let_def split: prod.splits)

lemma steady_forward_charger_frame [simp]:
  "steady_view (snd (snd (forward_charger_frame E ws cfg now inst text f u s))) = steady_view s"
proof -
  have "steady_view (s\<lparr>forwarder := fw, manager := record_forwarded d (manager s)\<rparr>) = steady_view s" for fw d
    by (simp add: steady_view_def del: record_forwarded.simps)
  then show ?thesis by (simp add: forward_charger_frame_def Let_def del: record_forwarded.simps split: sum.splits prod.splits)
qed

lemma steady_charger_text [simp]: "steady_view (snd (snd (charger_text E ws cfg now inst text u s))) = steady_view s"
  by (auto simp: charger_text_def split: sum.splits prod.splits option.splits if_splits)

lemma steady_central_text [simp]: "steady_view (snd (central_text E now text s)) = steady_view s"
  by (auto simp: central_text_def steady_view_def split: sum.splits prod.splits)

lemma steady_commands [simp]:
  "steady_view (snd (command_received E cfg now inst req s)) = steady_view s"
  "steady_view (snd (command_tick E cfg now inst s)) = steady_view s"
  by (simp_all add: command_received_def command_tick_def Let_def split: prod.splits option.splits)

lemma steady_loop_step [simp]: "steady_view (snd (snd (loop_step E ws cfg now inst ev u s))) = steady_view s"
proof (cases ev)
  case (FromCharger inp)
  then show ?thesis by (cases inp) (simp_all add: loop_step_def from_charger_def)
next
  case (FromCentral inp)
  then show ?thesis
    by (cases inp) (simp_all add: loop_step_def from_central_def Let_def case_prod_unfold split: sum.splits)
qed (auto simp: loop_step_def housekeeping_def split: option.splits)

section \<open>Backoffs\<close>

text \<open>A backoff of whole seconds below \<open>2\<^sup>5\<^sup>2\<close>, and the configurations that give one.\<close>

definition steady_backoff :: "backoff \<Rightarrow> bool" where
  "steady_backoff b \<longleftrightarrow> (\<exists>i m c. i < 2 ^ 52 \<and> m < 2 ^ 52 \<and> c < 2 ^ 52
     \<and> b = \<lparr>initial = from_secs i, max_delay = from_secs m, current = from_secs c, multiplier = Fin 2\<rparr>)"

definition steady_config :: "session_config \<Rightarrow> bool" where
  "steady_config cfg \<longleftrightarrow> (\<exists>i m. i < 2 ^ 52 \<and> m < 2 ^ 52 \<and> sc_initial_backoff cfg = from_secs i \<and> sc_max_backoff cfg = from_secs m)"

lemma steady_backoff_next: "steady_backoff b \<Longrightarrow> \<exists>d b'. next_delay b = Some (d, b') \<and> steady_backoff b'"
proof -
  assume "steady_backoff b"
  then obtain i m c where b: "i < 2 ^ 52" "m < 2 ^ 52" "c < 2 ^ 52"
      "b = \<lparr>initial = from_secs i, max_delay = from_secs m, current = from_secs c, multiplier = Fin 2\<rparr>"
    by (auto simp: steady_backoff_def)
  have "min (2 * c) m < 2 ^ 52" using b(2) by simp
  then show ?thesis using b next_delay_secs[OF b(3,2), of "from_secs i"] by (auto simp: steady_backoff_def)
qed

lemma steady_backoff_reset [simp]: "steady_backoff b \<Longrightarrow> steady_backoff (reset b)"
  unfolding steady_backoff_def reset_def by fastforce

lemma steady_backoff_new: "steady_config cfg \<Longrightarrow> steady_backoff (with_defaults (sc_initial_backoff cfg) (sc_max_backoff cfg))"
  by (auto simp: steady_config_def steady_backoff_def with_defaults_def backoff_new_def)

section \<open>The invariant\<close>

text \<open>A session's own part and what all share.\<close>

definition sound_part :: "session_config \<Rightarrow> session \<Rightarrow> bool" where
  "sound_part cfg s \<longleftrightarrow> queue_ok (local s) \<and> forwarder_ok (forwarder s) \<and> (steady_config cfg \<longrightarrow> steady_backoff (sess_backoff s))"

definition sound_shared :: "state_manager \<Rightarrow> mqtt_event channel \<Rightarrow> hub \<Rightarrow> bool" where
  "sound_shared m ch p \<longleftrightarrow> history_ok m \<and> mqtt_state m = pub_state p \<and> backoff_ok (pub_backoff p)"

definition steady_in :: "session_config \<Rightarrow> hub \<Rightarrow> session \<Rightarrow> bool" where
  "steady_in cfg p s \<longleftrightarrow> (steady_config cfg \<longrightarrow> steady_backoff (sess_backoff s)) \<and> mqtt_state (manager s) = pub_state p \<and> backoff_ok (pub_backoff p)"

lemma keeps_sound: "keeps (sound_part cfg) sound_shared p s \<longleftrightarrow> session_ok s \<and> steady_in cfg p s"
  by (auto simp: keeps_def sound_part_def sound_shared_def session_ok_def steady_in_def)

lemma steady_in_cong: "steady_view s' = steady_view s \<Longrightarrow> steady_in cfg p s' = steady_in cfg p s"
  by (simp add: steady_in_def steady_view_def)

lemma steady_in_fields [simp]:
  "steady_in cfg p (s\<lparr>reconnecting_since := x\<rparr>) = steady_in cfg p s" "steady_in cfg p (s\<lparr>last_delay := d\<rparr>) = steady_in cfg p s"
  "steady_in cfg p (s\<lparr>close_code := n\<rparr>) = steady_in cfg p s" "steady_in cfg p (s\<lparr>forwarder := fw\<rparr>) = steady_in cfg p s"
  "steady_in cfg p (set_upstream_state now st s) = steady_in cfg p s"
  using steady_in_cong[OF steady_upstream[of now st s]] by (simp_all add: steady_in_def)

lemma steady_in_backoff:
  "steady_in cfg p s \<Longrightarrow> (steady_config cfg \<Longrightarrow> steady_backoff b) \<Longrightarrow> steady_in cfg p (s\<lparr>sess_backoff := b\<rparr>)"
  by (simp add: steady_in_def)

lemma steady_next: "steady_in cfg p s \<Longrightarrow> next_delay (sess_backoff s) = Some (d, b) \<Longrightarrow> steady_config cfg \<Longrightarrow> steady_backoff b"
  using steady_backoff_next[of "sess_backoff s"] by (auto simp: steady_in_def)

lemma steady_in_after_lost: "steady_in cfg p s \<Longrightarrow> after_lost now inst w s = Some r \<Longrightarrow> steady_in cfg p (result_state r)"
  by (auto simp: after_lost_def Let_def intro!: steady_in_backoff intro: steady_next split: option.splits if_splits)

lemma dial_failed_sound:
  assumes "session_ok s" "steady_in cfg p s" "dial_failed cfg' now inst s = Some r"
  shows "session_ok (result_state r)" "steady_in cfg p (result_state r)"
proof -
  have "session_ok (s\<lparr>reconnecting_since := x\<rparr>)" "steady_in cfg p (s\<lparr>reconnecting_since := x\<rparr>)" for x
    using assms(1,2) by (simp_all add: session_ok_def)
  then have "session_ok (set_upstream_state now Reconnecting (s\<lparr>reconnecting_since := x\<rparr>))"
      "steady_in cfg p (set_upstream_state now Reconnecting (s\<lparr>reconnecting_since := x\<rparr>))" for x
    by (simp_all add: session_ok_set_upstream_state)
  then show "session_ok (result_state r)" "steady_in cfg p (result_state r)"
    using assms by (auto simp: dial_failed_def Let_def session_ok_def intro!: steady_in_backoff intro: steady_next
        split: option.splits if_splits)
qed

lemma dial_done_sound:
  assumes "session_ok s" "steady_in cfg p s"
  shows "session_ok (snd (snd (dial_done ws now u s)))" "steady_in cfg p (snd (snd (dial_done ws now u s)))"
proof -
  define s2 where "s2 = set_upstream_state now Connected (s\<lparr>sess_backoff := reset (sess_backoff s), reconnecting_since := None\<rparr>)"
  have s2: "session_ok s2" "steady_in cfg p s2"
  proof -
    have "session_ok (s\<lparr>sess_backoff := reset (sess_backoff s), reconnecting_since := None\<rparr>)" using assms(1) by (simp add: session_ok_def)
    then show "session_ok s2" unfolding s2_def by (rule session_ok_set_upstream_state)
    have "steady_config cfg \<Longrightarrow> steady_backoff (reset (sess_backoff s))" using assms(2) by (simp add: steady_in_def)
    then show "steady_in cfg p s2" unfolding s2_def using assms(2) by (simp add: steady_in_backoff)
  qed
  obtain fr u' fw where f: "flush_upstream (upstream_sink_send ws) u (forwarder s2) = (fr, u', fw)" by (metis prod_cases3)
  then have "forwarder_ok fw" using forwarder_ok_flush(1)[of "forwarder s2" "upstream_sink_send ws" u] s2(1) by (simp add: session_ok_def)
  then have fw: "session_ok (s2\<lparr>forwarder := fw\<rparr>)" "steady_in cfg p (s2\<lparr>forwarder := fw\<rparr>)"
    using s2 by (simp_all add: session_ok_forwarder)
  then show "session_ok (snd (snd (dial_done ws now u s)))" "steady_in cfg p (snd (snd (dial_done ws now u s)))"
    by (auto simp: dial_done_def Let_def s2_def[symmetric] f record_replayed_def session_ok_def history_ok_replayed steady_in_def
        simp del: set_upstream_state_frame split: sum.split)
qed

lemma session_ok_emit [simp]: "session_ok s \<Longrightarrow> session_ok (emit_command_result r s)"
  by (simp add: session_ok_def emit_command_result_def send_event_def forwarder_ok_def)

lemma session_ok_emit_all [simp]: "session_ok s \<Longrightarrow> session_ok (fold (\<lambda>x. emit_command_result (f x)) xs s)"
  by (induction xs arbitrary: s) simp_all

lemma wind_down_sound:
  assumes "session_ok s" "steady_in cfg p s"
  shows "session_ok (wind_down E now waiting s) \<and> steady_in cfg p (wind_down E now waiting s)"
proof -
  define s1 where "s1 = count_dropped s"
  define s2 where "s2 = fold (\<lambda>r. emit_command_result (ended_result E now r)) (queued (local s1)) (s1\<lparr>local := snd (drain (local s1))\<rparr>)"
  define s3 where "s3 = (case in_flight (local s1) of None \<Rightarrow> s2 | Some x \<Rightarrow> emit_command_result (ended_in_flight E now x) s2)"
  define s4 where "s4 = fold (\<lambda>r. emit_command_result (ended_result E now r)) waiting s3"
  have s1: "session_ok s1" "steady_view s1 = steady_view s"
    using assms(1) by (simp_all add: s1_def count_dropped_def Let_def session_ok_def history_ok_counters steady_view_def
        del: record_dropped.simps)
  then have "queue_ok (snd (drain (local s1)))" by (simp add: drain_def session_ok_def queue_ok_def limit_requests_def)
  then have "session_ok (s1\<lparr>local := snd (drain (local s1))\<rparr>)" using s1(1) by (simp add: session_ok_def)
  then have "session_ok s4" "steady_view s4 = steady_view s" using s1(2) by (simp_all add: s4_def s3_def s2_def split: option.split)
  moreover have "wind_down E now waiting s
      = s4\<lparr>charger_tx := snd (channel_send (charger_tx s4) (AClose (Some (close_code s4, ''Proxy session ending''))))\<rparr>"
    by (simp add: wind_down_def Let_def drain_def s4_def s3_def s2_def s1_def cong: option.case_cong)
  ultimately show ?thesis
    using assms(2) steady_in_cong[of "s4\<lparr>charger_tx := snd (channel_send (charger_tx s4) (AClose (Some (close_code s4, ''Proxy session ending''))))\<rparr>" s]
    by (simp add: session_ok_def)
qed

lemma mirrored_shared: "sound_shared m ch p \<Longrightarrow> mirrored (p\<lparr>shared_manager := Some m, client := c\<rparr>)"
  by (simp add: sound_shared_def mirrored_def)

text \<open>The publisher's steps: the connection states are the only thing it changes of what is shared.\<close>

lemma poll_history:
  assumes "run_step E A now (Poll out) p = Some (Some p')" "shared_manager p = Some m" "history_ok m"
  shows "\<exists>m'. shared_manager p' = Some m' \<and> history_ok m'"
proof -
  have "shared_manager p' = Some m \<or> (\<exists>st. shared_manager p' = Some (transition now Mqtt st m))"
  proof (cases out)
    case PollConnAck
    then have "conn_view p' = (Connected, reset (pub_backoff p), map_option (transition now Mqtt Connected) (shared_manager p))"
      using assms(1) conn_view_connack[of E A now p] by (auto simp: run_step_def)
    then show ?thesis using assms(2) by (auto simp: conn_view_def)
  next
    case PollError
    then show ?thesis using assms(1,2) by (auto simp: run_step_def Let_def set_state_def split: if_splits option.splits)
  next
    case (PollPublish t bytes)
    then have "conn_view p' = conn_view p" using assms(1) by (auto simp: run_step_def Let_def split: if_splits)
    then show ?thesis using assms(2) by (simp add: conn_view_def)
  next
    case PollOther
    then have "conn_view p' = conn_view p" using assms(1) by (auto simp: run_step_def Let_def split: if_splits)
    then show ?thesis using assms(2) by (simp add: conn_view_def)
  qed
  then show ?thesis using assms(3) history_ok_transition by blast
qed

text \<open>One attempt of the start-up connect leaves the publisher in step with the shared state.\<close>

lemma attempt_cases:
  assumes "connect_attempts E A now [(remaining, out)] p = Some r"
  obtains "conn_view (attempted r) = conn_view (set_state now Reconnecting p)"
    | "attempted r = on_connack E A now p"
    | d b where "next_delay (pub_backoff p) = Some (d, b)" "attempted r = p\<lparr>pub_backoff := b\<rparr>"
    | "attempted r = p"
  using assms by (auto split: if_splits option.splits poll.splits)

lemma attempt_mirrored:
  assumes "connect_attempts E A now [(remaining, out)] p = Some r" "mirrored p"
  shows "mirrored (attempted r)"
  using assms(1)
proof (cases rule: attempt_cases)
  case 1
  then show ?thesis using mirrored_cong mirrored_set_state[OF assms(2)] by blast
next
  case (3 d b)
  then show ?thesis using assms(2) backoff_ok_next[of "pub_backoff p"] by (auto simp: mirrored_def)
qed (use assms(2) mirrored_connack in auto)

lemma attempt_history:
  assumes "connect_attempts E channel_api now [(remaining, out)] p = Some r" "shared_manager p = Some m" "history_ok m"
  shows "\<exists>m'. shared_manager (attempted r) = Some m' \<and> history_ok m'"
  using attempt_once[OF assms(1)] assms(2,3) history_ok_transition by (auto simp: one_state_def)

interpretation sound: whole_law E ws cfg "sound_part cfg" sound_shared for E ws cfg
proof unfold_locales
  show "sound_part cfg (s\<lparr>manager := m, forwarder := (forwarder s)\<lparr>mqtt_tx := ch\<rparr>\<rparr>) = sound_part cfg s" for s m ch
    by (simp add: sound_part_def forwarder_ok_def)
  show "sound_shared m ch p \<Longrightarrow> sound_part cfg (session_new cfg cp ch m)" for m ch p cp
    using session_ok_new[of m cfg cp ch] by (simp add: sound_part_def session_ok_def sound_shared_def) (simp add: session_new_def steady_backoff_new)
  show "keeps (sound_part cfg) sound_shared p s \<Longrightarrow> keeps (sound_part cfg) sound_shared p (snd (snd (loop_step E ws cfg now inst ev u s)))"
    for p s now inst ev u
    by (simp add: keeps_sound session_ok_loop_step steady_in_cong[OF steady_loop_step])
  show "keeps (sound_part cfg) sound_shared p s \<Longrightarrow> after_lost now inst w s = Some r \<Longrightarrow> keeps (sound_part cfg) sound_shared p (result_state r)"
    for p s now inst w r
    by (auto simp: keeps_sound intro: session_ok_after_lost steady_in_after_lost)
  show "keeps (sound_part cfg) sound_shared p s \<Longrightarrow> keeps (sound_part cfg) sound_shared p (set_upstream_state now st s)" for p s now st
    by (simp add: keeps_sound session_ok_set_upstream_state)
  show "keeps (sound_part cfg) sound_shared p s \<Longrightarrow> dial_failed cfg now inst s = Some r
      \<Longrightarrow> keeps (sound_part cfg) sound_shared p (result_state r)" for p s now inst r
    using dial_failed_sound[of s cfg p cfg now inst r] by (simp add: keeps_sound)
  show "keeps (sound_part cfg) sound_shared p s \<Longrightarrow> keeps (sound_part cfg) sound_shared p (snd (snd (dial_done ws now u s)))" for p s now u
    using dial_done_sound[of s cfg p ws now u] by (simp add: keeps_sound)
  show "keeps (sound_part cfg) sound_shared p s \<Longrightarrow> keeps (sound_part cfg) sound_shared p (wind_down E now waiting s)" for p s now waiting
    using wind_down_sound[of s cfg p E now waiting] by (simp add: keeps_sound)
  show "keeps (sound_part cfg) sound_shared p s \<Longrightarrow> m = transition now Downstream st (manager s)
      \<Longrightarrow> keeps (sound_part cfg) sound_shared p (publish_status (upstream_state m) (downstream_state m) (s\<lparr>manager := m\<rparr>))" for p s m now st
    by (auto simp: keeps_sound session_ok_def steady_in_def publish_status_def send_event_def history_ok_transition forwarder_ok_def)
  show "sound_shared m ch p \<Longrightarrow> said \<in> set (passed ch) \<Longrightarrow> sound_shared m ch (handle_event E channel_api now said p)" for m ch p said now
    using conn_view_event[of E channel_api now said p] by (simp add: sound_shared_def conn_view_def)
  show "sound_shared m ch p
      \<Longrightarrow> run_step E channel_api now (Poll out) (p\<lparr>shared_manager := Some m, client := (client p)\<lparr>room := k\<rparr>\<rparr>) = Some (Some p')
      \<Longrightarrow> sound_shared (case shared_manager p' of None \<Rightarrow> m | Some m' \<Rightarrow> m') ch p'" for m ch p now out k p'
    using poll_history[of E channel_api now out "p\<lparr>shared_manager := Some m, client := (client p)\<lparr>room := k\<rparr>\<rparr>" p' m]
      run_step_mirrored[OF mirrored_shared[of m ch p "(client p)\<lparr>room := k\<rparr>"], of E channel_api now "Poll out"]
    by (auto simp: sound_shared_def mirrored_def)
  show "sound_shared m ch (p\<lparr>shared_manager := x, client := c\<rparr>) = sound_shared m ch p" for m ch p x c
    by (simp add: sound_shared_def)
  show "sound_shared m (ch\<lparr>closed := b\<rparr>) p = sound_shared m ch p" for m ch b p by (simp add: sound_shared_def)
  show "sound_shared m ch p \<Longrightarrow> sound_shared (transition now Downstream st m) ch p" for m ch p now st
    by (simp add: sound_shared_def history_ok_transition)
  show "sound_shared m ch p
      \<Longrightarrow> sound_shared (transition now Mqtt Connecting m) ch (set_state now Connecting (p\<lparr>shared_manager := Some m, client := c\<rparr>))" for m ch p now c
    by (simp add: sound_shared_def history_ok_transition set_state_def)
  show "sound_shared m ch p
      \<Longrightarrow> connect_attempts E channel_api now [(remaining, out)] (p\<lparr>shared_manager := Some m, client := c\<rparr>) = Some tried
      \<Longrightarrow> sound_shared (case shared_manager (attempted tried) of None \<Rightarrow> m | Some m' \<Rightarrow> m') ch (attempted tried)"
    for m ch p now remaining out c tried
    using attempt_history[of E now remaining out "p\<lparr>shared_manager := Some m, client := c\<rparr>" tried m]
      attempt_mirrored[of E channel_api now remaining out _ tried, OF _ mirrored_shared[of m ch p c]]
    by (auto simp: sound_shared_def mirrored_def)
  show "sound_shared m ch p \<Longrightarrow> \<exists>q. sound_shared (transition now Mqtt Disconnected m) ch q" for m ch p now
    by (rule exI[of _ "p\<lparr>pub_state := Disconnected\<rparr>"]) (simp add: sound_shared_def history_ok_transition)
qed (simp_all add: sound_shared_def)

section \<open>Nothing is stuck\<close>

lemma steady_never_stuck:
  assumes "steady_in cfg p s" "steady_config cfg"
  shows "after_lost now inst w s \<noteq> None" "dial_failed cfg' now inst s \<noteq> None"
proof -
  have "steady_backoff (sess_backoff s)" using assms by (simp add: steady_in_def)
  then obtain d b where "next_delay (sess_backoff s) = Some (d, b)" using steady_backoff_next by blast
  then show "after_lost now inst w s \<noteq> None" "dial_failed cfg' now inst s \<noteq> None"
    by (simp_all add: after_lost_def dial_failed_def Let_def)
qed

lemma loop_turn_total:
  assumes "steady_in cfg p (snd (snd v))" "steady_config cfg"
  shows "loop_turn E now inst rest n v \<noteq> None"
proof -
  obtain oc u s where v: "v = (oc, u, s)" by (metis prod_cases3)
  then show ?thesis
    using assms steady_never_stuck(1)[of cfg p s now inst SleepDone]
    by (auto simp: loop_turn_def break_off_def split: option.split loop_outcome.split)
qed

lemma turn_total:
  assumes "steady_in cfg p s" "steady_config cfg"
  shows "l = Dialling \<Longrightarrow> session_turn E ws cfg' dropped rest l u s (FailDial now inst) \<noteq> None"
    and "l = In_loop \<Longrightarrow> \<forall>r. ev \<noteq> CommandRecv r \<Longrightarrow> session_turn E ws cfg' dropped rest l u s (HandleLoop now inst ev) \<noteq> None"
    and "l = In_loop \<Longrightarrow> commands_open s \<Longrightarrow> rest \<noteq> [] \<Longrightarrow> session_turn E ws cfg' dropped rest l u s (Receive now inst) \<noteq> None"
proof -
  show "l = Dialling \<Longrightarrow> session_turn E ws cfg' dropped rest l u s (FailDial now inst) \<noteq> None"
    using steady_never_stuck(2)[OF assms, of cfg' now inst] by (auto simp: break_off_def split: step_result.split)
  have step: "loop_turn E now inst rest n (loop_step E ws cfg' now inst e u s) \<noteq> None" for n e
    using assms by (intro loop_turn_total[of cfg p]) (simp_all add: steady_in_cong[OF steady_loop_step])
  then show "l = In_loop \<Longrightarrow> \<forall>r. ev \<noteq> CommandRecv r \<Longrightarrow> session_turn E ws cfg' dropped rest l u s (HandleLoop now inst ev) \<noteq> None"
    by (auto split: loop_event.split)
  show "l = In_loop \<Longrightarrow> commands_open s \<Longrightarrow> rest \<noteq> [] \<Longrightarrow> session_turn E ws cfg' dropped rest l u s (Receive now inst) \<noteq> None"
    using step by (auto split: list.split)
qed

lemma attempt_total:
  assumes "mirrored p"
  shows "connect_attempts E A now [(remaining, got)] p \<noteq> None"
proof -
  obtain d b where "next_delay (pub_backoff p) = Some (d, b)" using assms backoff_ok_next[of "pub_backoff p"] by (auto simp: mirrored_def)
  then show ?thesis by (simp split: option.split poll.split)
qed

lemma poll_total:
  assumes "mirrored p"
  obtains p' where "run_step E A now (Poll out) p = Some (Some p')"
proof -
  have "run_step E A now (Poll out) p \<noteq> Some None" by (cases out) (auto simp: run_step_def Let_def split: option.splits)
  then show ?thesis using run_step_mirrored[OF assms, of E A now "Poll out"] that by auto
qed

section \<open>Properties\<close>

lemma history_ok_listener: "history_ok m \<Longrightarrow> history_ok (set_listener_bound b m)"
proof -
  have "state_of c (set_listener_bound b m) = state_of c m" for c by (cases c) (simp_all add: set_listener_bound_def)
  then show "history_ok m \<Longrightarrow> history_ok (set_listener_bound b m)" by (simp add: history_ok_def set_listener_bound_def)
qed

lemma started_sound:
  assumes "main_start E read mk P d loaded = Inr px" "whole_run E ws cfg (whole_start px) W"
  shows "whole_keeps (sound_part cfg) sound_shared W"
proof -
  note [simp] = built_publisher(1,2)
  have m: "history_ok (set_listener_bound True manager_new)" "mqtt_state (set_listener_bound True manager_new) = Disconnected"
    using history_ok_listener[OF history_ok_new] by (simp_all add: set_listener_bound_def manager_new_def)
  have b: "backoff_ok (with_defaults (from_secs 1) (from_secs 30))"
    unfolding backoff_ok_def by (rule exI[of _ 1]) (simp add: with_defaults_def backoff_new_def)
  obtain q :: hub where q: "pub_state q = Disconnected" "pub_backoff q = with_defaults (from_secs 1) (from_secs 30)"
    using that[of "undefined\<lparr>pub_state := Disconnected, pub_backoff := with_defaults (from_secs 1) (from_secs 30)\<rparr>"] by simp
  obtain url where px: "px_publisher px = build_publisher E read mk (px_config px) d manager_new Map.empty"
      "ds_manager (px_downstream px) = set_listener_bound True manager_new"
    using started[OF assms(1)] by metis
  have "whole_keeps (sound_part cfg) sound_shared (whole_start px)"
    by (rule sound.whole_start_ok[where q = q]) (use px m b q built_publisher in \<open>auto simp: sound_shared_def\<close>)
  then show ?thesis by (rule sound.whole_run_ok[OF assms(2)])
qed

text \<open>
  C6: The invariant of the running proxy. From whatever configuration \<open>main\<close> started it and however connections and the
  publisher's thread interleave, every session's queue is within its capacity with at most one limit
  command and its buffers within their bounds, the shared connection states are the last entries of a gap-free history, and
  while the publisher's thread lives the MQTT state the health endpoint reports is the publisher's own.
\<close>

theorem proxy_invariant:
  assumes "main_start E read mk P d loaded = Inr px" "whole_run E ws cfg (whole_start px) W"
  shows "(\<forall>b \<in> set (bodies (site W)). queue_ok (local (bd_sess b)) \<and> forwarder_ok (forwarder (bd_sess b)))
    \<and> history_ok (ds_manager (shared (handlers (site W))))
    \<and> (\<forall>p. running_hub (thread_at W) = Some p \<longrightarrow> mqtt_state (ds_manager (shared (handlers (site W)))) = pub_state p)"
  using started_sound[OF assms] by (auto simp: whole_keeps_def fleet_keeps_def sound_part_def sound_shared_def)

theorem proxy_invariant_witness:
  "history_ok (ds_manager (shared (handlers (demo_site demo_ext demo_settings))))
   \<and> mqtt_state (ds_manager (shared (handlers (demo_site demo_ext demo_settings)))) = pub_state (demo_hub demo_ext)
   \<and> length (bodies (demo_site demo_ext demo_settings)) = 2
   \<and> queue_ok (local (bd_sess (bodies (demo_site demo_ext demo_settings) ! 1)))"
proof -
  have "length (bodies (demo_site demo_ext demo_settings)) = 2" by (simp add: demo_site_def demo_overlap_lengths)
  moreover from this have "bodies (demo_site demo_ext demo_settings) ! 1 \<in> set (bodies (demo_site demo_ext demo_settings))" by simp
  ultimately show ?thesis using proxy_invariant[OF demo_px_started demo_site_run[of demo_ext demo_settings]] by simp
qed

lemma running_steady:
  assumes "whole_keeps (sound_part cfg) sound_shared W" "i < length (bodies (site W))"
  obtains p where "steady_in cfg p (attach i (site W))"
proof -
  obtain p where "fleet_keeps (sound_part cfg) sound_shared p (site W)" using assms(1) by (auto simp: whole_keeps_def)
  from sound.attach_kept[OF this assms(2)] have "steady_in cfg p (attach i (site W))" unfolding keeps_sound by blast
  then show ?thesis by (rule that)
qed

lemma running_mirrored:
  assumes "whole_keeps (sound_part cfg) sound_shared W" "running_hub (thread_at W) = Some p"
  shows "mirrored (hub_in (site W) k p)"
  using assms by (auto simp: whole_keeps_def fleet_keeps_def sound_shared_def mirrored_def hub_in_def)

lemma outside_turn:
  assumes "i < length (bodies (site W))" "is_running (phase_of (handlers (site W)) i)" "observes_token t \<longrightarrow> token_set i (site W)"
    and "session_turn E ws cfg (sender_dropped i (site W)) (unread (bodies (site W) ! i)) (bd_leg (bodies (site W) ! i))
      (bd_uplink (bodies (site W) ! i)) (attach i (site W)) t \<noteq> None"
  shows "whole_step E ws cfg (Outside (Turn i t)) W \<noteq> None"
  using assms by (simp del: session_turn.simps)

lemma started_steady:
  assumes "main_start E read mk P d loaded = Inr px" "max_backoff_seconds (buffers (px_config px)) < 2 ^ 52"
  shows "steady_config (px_session px)"
proof -
  obtain url where "px_session px = session_config_of (px_config px) url" using started[OF assms(1)] by metis
  then show ?thesis
    using assms(2) unfolding steady_config_def
    by (intro exI[of _ 2] exI[of _ "max_backoff_seconds (buffers (px_config px))"]) (simp add: session_config_of_def UPSTREAM_INITIAL_BACKOFF_def)
qed

text \<open>
  C23: Nothing panics. If the configured largest backoff is below \<open>2\<^sup>5\<^sup>2\<close> seconds, then in every state the proxy can reach
  the publisher's thread handles every outcome of its start-up connect and of polling the MQTT client, and a session every
  failed connection attempt and every input, tick or command, also while connections of one charger overlap.
\<close>

theorem proxy_never_panics:
  assumes "main_start E read mk P d loaded = Inr px" "max_backoff_seconds (buffers (px_config px)) < 2 ^ 52"
    and "whole_run E ws (px_session px) (whole_start px) W"
  shows "(\<forall>p. thread_at W = Thread_connecting p \<longrightarrow> whole_step E ws (px_session px) (Attempt now k remaining got) W \<noteq> None)
    \<and> (\<forall>p. thread_at W = Thread_looping p \<longrightarrow> whole_step E ws (px_session px) (Poll_broker now k out) W \<noteq> None)
    \<and> (\<forall>i < length (bodies (site W)). is_running (phase_of (handlers (site W)) i) \<longrightarrow>
        (bd_leg (bodies (site W) ! i) = Dialling \<longrightarrow>
           whole_step E ws (px_session px) (Outside (Turn i (FailDial now inst))) W \<noteq> None)
      \<and> (bd_leg (bodies (site W) ! i) = In_loop \<longrightarrow> (\<forall>r. ev \<noteq> CommandRecv r) \<longrightarrow> (ev = Cancelled \<longrightarrow> token_set i (site W)) \<longrightarrow>
           whole_step E ws (px_session px) (Outside (Turn i (HandleLoop now inst ev))) W \<noteq> None)
      \<and> (bd_leg (bodies (site W) ! i) = In_loop \<longrightarrow> commands_open (bd_sess (bodies (site W) ! i)) \<longrightarrow> unread (bodies (site W) ! i) \<noteq> [] \<longrightarrow>
           whole_step E ws (px_session px) (Outside (Turn i (Receive now inst))) W \<noteq> None))"
proof -
  have ok: "whole_keeps (sound_part (px_session px)) sound_shared W" using started_sound[OF assms(1,3)] .
  have steady: "steady_config (px_session px)" by (rule started_steady[OF assms(1,2)])
  have "whole_step E ws (px_session px) (Attempt now k remaining got) W \<noteq> None" if t: "thread_at W = Thread_connecting p" for p
    using attempt_total[OF running_mirrored[OF ok]] t by (simp del: connect_attempts.simps)
  moreover have "whole_step E ws (px_session px) (Poll_broker now k out) W \<noteq> None" if t: "thread_at W = Thread_looping p" for p
  proof -
    have "mirrored (hub_in (site W) k p)" by (rule running_mirrored[OF ok]) (simp add: t)
    then obtain p' where "run_step E channel_api now (Poll out) (hub_in (site W) k p) = Some (Some p')" by (rule poll_total)
    then show ?thesis by (simp add: t)
  qed
  moreover have "(bd_leg (bodies (site W) ! i) = Dialling \<longrightarrow> whole_step E ws (px_session px) (Outside (Turn i (FailDial now inst))) W \<noteq> None)
      \<and> (bd_leg (bodies (site W) ! i) = In_loop \<longrightarrow> (\<forall>r. ev \<noteq> CommandRecv r) \<longrightarrow> (ev = Cancelled \<longrightarrow> token_set i (site W)) \<longrightarrow>
           whole_step E ws (px_session px) (Outside (Turn i (HandleLoop now inst ev))) W \<noteq> None)
      \<and> (bd_leg (bodies (site W) ! i) = In_loop \<longrightarrow> commands_open (bd_sess (bodies (site W) ! i)) \<longrightarrow> unread (bodies (site W) ! i) \<noteq> [] \<longrightarrow>
           whole_step E ws (px_session px) (Outside (Turn i (Receive now inst))) W \<noteq> None)"
    if i: "i < length (bodies (site W))" "is_running (phase_of (handlers (site W)) i)" for i
  proof -
    obtain p where p: "steady_in (px_session px) p (attach i (site W))" using running_steady[OF ok i(1)] .
    have o: "commands_open (attach i (site W)) = commands_open (bd_sess (bodies (site W) ! i))" by (simp add: attach_def Let_def)
    have "observes_token (HandleLoop now inst ev) = (ev = Cancelled)" by (cases ev) auto
    note step = outside_turn[OF i] and total = turn_total[OF p steady]
    show ?thesis
    proof (intro conjI impI)
      show "bd_leg (bodies (site W) ! i) = Dialling \<Longrightarrow> whole_step E ws (px_session px) (Outside (Turn i (FailDial now inst))) W \<noteq> None"
        by (rule step[OF _ total(1)]) simp_all
      show "\<forall>r. ev \<noteq> CommandRecv r \<Longrightarrow> bd_leg (bodies (site W) ! i) = In_loop \<Longrightarrow> ev = Cancelled \<longrightarrow> token_set i (site W)
          \<Longrightarrow> whole_step E ws (px_session px) (Outside (Turn i (HandleLoop now inst ev))) W \<noteq> None"
        by (rule step[OF _ total(2)]) (use \<open>observes_token (HandleLoop now inst ev) = (ev = Cancelled)\<close> in blast)+
      show "bd_leg (bodies (site W) ! i) = In_loop \<Longrightarrow> commands_open (bd_sess (bodies (site W) ! i)) \<Longrightarrow> unread (bodies (site W) ! i) \<noteq> []
          \<Longrightarrow> whole_step E ws (px_session px) (Outside (Turn i (Receive now inst))) W \<noteq> None"
        by (rule step[OF _ total(3)]) (simp_all add: o)
    qed
  qed
  ultimately show ?thesis by blast
qed

theorem proxy_never_panics_witness:
  "\<exists>W. whole_run demo_ext demo_ws (px_session (demo_px demo_ext)) (whole_start (demo_px demo_ext)) W
     \<and> whole_step demo_ext demo_ws (px_session (demo_px demo_ext)) (Poll_broker 5 10 PollError) W \<noteq> None
     \<and> whole_step demo_ext demo_ws (px_session (demo_px demo_ext)) (Outside (Turn 1 (HandleLoop 5 0 CommandTick))) W \<noteq> None"
proof -
  let ?cfg = "px_session (demo_px demo_ext)"
  obtain p m where W: "whole_run demo_ext demo_ws ?cfg (whole_start (demo_px demo_ext))
      \<lparr>site = store_manager (Some m) (demo_site demo_ext ?cfg), thread_at = Thread_looping p\<rparr>" (is "whole_run _ _ _ _ ?W")
    using demo_looping .
  have "max_backoff_seconds (buffers (px_config (demo_px demo_ext))) < 2 ^ 52"
    by (simp add: demo_px_parts demo_commands_config_def demo_proxy_config_def buffer_config_default_def default_max_backoff_def)
  note safe = proxy_never_panics[OF demo_px_started this W, where now = 5 and k = 10 and out = PollError and inst = 0 and ev = CommandTick]
  have "whole_step demo_ext demo_ws ?cfg (Outside (Turn 1 (HandleLoop 5 0 CommandTick))) ?W \<noteq> None"
    using safe[THEN conjunct2, THEN conjunct2, rule_format, of 1]
    by (simp add: store_manager_def demo_site_def demo_overlap_lengths demo_overlap_nth[unfolded One_nat_def] del: whole_step.simps)
  moreover have "whole_step demo_ext demo_ws ?cfg (Poll_broker 5 10 PollError) ?W \<noteq> None"
    using safe[THEN conjunct2, THEN conjunct1] by simp
  ultimately show ?thesis using W by blast
qed

end
