(* ===== verification/Whole_Limits.thy ===== *)
theory Whole_Limits
  imports Whole_Invariant Command_Facts
begin

text \<open>
  The limits that circulate in the whole proxy: from the policy that resolves a request, through the
  Call in flight and the result event, into the snapshot of the charge point, to the disk and
  back as a standing limit. A law that every resolved limit obeys holds of every limit in the
  system; it is used for the types of the snapshots and for the configured range.
\<close>

section \<open>Limits at rest\<close>

definition limit_fits :: "(f64 \<Rightarrow> bool) \<Rightarrow> f64 option \<Rightarrow> bool" where
  "limit_fits P x \<longleftrightarrow> (case x of None \<Rightarrow> True | Some a \<Rightarrow> P a)"

lemma limit_fits_simps [simp]: "limit_fits P None" "limit_fits P (Some a) = P a"
  by (simp_all add: limit_fits_def)

definition flight_fits :: "(f64 \<Rightarrow> bool) \<Rightarrow> in_flight_call option \<Rightarrow> bool" where
  "flight_fits P x \<longleftrightarrow> (case x of None \<Rightarrow> True | Some fl \<Rightarrow> limit_fits P (prep_applied_limit_a (fl_prepared fl)))"

fun event_fits :: "(f64 \<Rightarrow> bool) \<Rightarrow> mqtt_event \<Rightarrow> bool" where
  "event_fits P (CommandResultEvent cp r) = limit_fits P (applied_limit_a r)"
| "event_fits P (MessageForwarded cp f d a) = True"
| "event_fits P (StateChanged cp up down) = True"

definition session_fits :: "(f64 \<Rightarrow> bool) \<Rightarrow> session \<Rightarrow> bool" where
  "session_fits P s \<longleftrightarrow> flight_fits P (in_flight (local s)) \<and> list_all (event_fits P) (passed (mqtt_tx (forwarder s)))"

lemma flight_fits_simps [simp]:
  "flight_fits P None" "flight_fits P (Some fl) = limit_fits P (prep_applied_limit_a (fl_prepared fl))"
  by (simp_all add: flight_fits_def)

lemma session_fits_fields [simp]:
  "session_fits P (s\<lparr>charger_tx := t\<rparr>) = session_fits P s" "session_fits P (s\<lparr>manager := m\<rparr>) = session_fits P s"
  "session_fits P (s\<lparr>commands_open := b\<rparr>) = session_fits P s" "session_fits P (s\<lparr>sess_backoff := bo\<rparr>) = session_fits P s"
  "session_fits P (s\<lparr>reconnecting_since := x\<rparr>) = session_fits P s" "session_fits P (s\<lparr>close_code := n\<rparr>) = session_fits P s"
  "session_fits P (s\<lparr>last_delay := d\<rparr>) = session_fits P s"
  by (simp_all add: session_fits_def)

lemma session_fits_local:
  "session_fits P s \<Longrightarrow> flight_fits P (in_flight q) \<Longrightarrow> session_fits P (s\<lparr>local := q\<rparr>)"
  by (simp add: session_fits_def)

lemma session_fits_quiet:
  "mqtt_tx fw = mqtt_tx (forwarder s) \<Longrightarrow> session_fits P (s\<lparr>forwarder := fw\<rparr>) = session_fits P s"
  by (simp add: session_fits_def)

lemma session_fits_event: "session_fits P s \<Longrightarrow> event_fits P ev \<Longrightarrow> session_fits P (send_event ev s)"
  using try_channel.taken_put[of "mqtt_tx (forwarder s)" ev] by (auto simp: session_fits_def send_event_def)

lemma session_fits_status [simp]: "session_fits P s \<Longrightarrow> session_fits P (publish_status up down s)"
  by (simp add: publish_status_def session_fits_event)

lemma session_fits_upstream [simp]: "session_fits P s \<Longrightarrow> session_fits P (set_upstream_state now st s)"
  by (simp add: set_upstream_state_def Let_def)

lemma session_fits_emit:
  "session_fits P s \<Longrightarrow> limit_fits P (applied_limit_a r) \<Longrightarrow> session_fits P (emit_command_result r s)"
  by (simp add: emit_command_result_def session_fits_event)

text \<open>A request that is not sent applies no limit; a Call reports the one it was prepared with.\<close>

lemma results_fit [simp]:
  "limit_fits P (applied_limit_a (result_for_request E now req st d))"
  "limit_fits P (applied_limit_a (result_for_in_flight E now fl st resp d)) = limit_fits P (prep_applied_limit_a (fl_prepared fl))"
  "limit_fits P (applied_limit_a (displaced_result E now req))" "limit_fits P (applied_limit_a (unsent_result E cfg now req))"
  "limit_fits P (applied_limit_a (ended_result E now req))"
  by (simp_all add: result_for_request_def result_for_in_flight_def displaced_result_def unsent_result_def ended_result_def)

lemma session_fits_emit_all:
  "session_fits P s \<Longrightarrow> \<forall>x. limit_fits P (applied_limit_a (f x)) \<Longrightarrow> session_fits P (fold (\<lambda>x. emit_command_result (f x)) xs s)"
  by (induction xs arbitrary: s) (simp_all add: session_fits_emit)

lemma session_fits_complete:
  "session_fits P s \<Longrightarrow> limit_fits P (prep_applied_limit_a (fl_prepared fl)) \<Longrightarrow> session_fits P (complete_local_call E now fl f s)"
  by (simp add: complete_local_call_def Let_def session_fits_emit split: prod.splits)

lemma session_fits_forward:
  "session_fits P s \<Longrightarrow> session_fits P (s\<lparr>forwarder := snd (snd (forward_message send now d f sink (forwarder s)))\<rparr>)"
  using try_channel.taken_put[of "mqtt_tx (forwarder s)"]
  by (cases "fst (send sink (raw f))") (auto simp: session_fits_def forward_message_cases)

lemma session_fits_discard: "session_fits P s \<Longrightarrow> session_fits P (s\<lparr>forwarder := discard_downstream_buffer (forwarder s)\<rparr>)"
  by (simp add: session_fits_def)

lemma session_fits_after_lost: "session_fits P s \<Longrightarrow> after_lost now inst w s = Some r \<Longrightarrow> session_fits P (result_state r)"
  using session_fits_upstream[OF session_fits_discard, of P s now Reconnecting]
  by (auto simp: after_lost_def Let_def split: option.splits if_splits)

lemma session_fits_dial_failed: "session_fits P s \<Longrightarrow> dial_failed cfg now inst s = Some r \<Longrightarrow> session_fits P (result_state r)"
  by (auto simp: dial_failed_def Let_def split: option.splits if_splits)

lemma session_fits_dial_done: "session_fits P s \<Longrightarrow> session_fits P (snd (snd (dial_done ws now u s)))"
  by (auto simp: dial_done_def Let_def record_replayed_def session_fits_quiet split: prod.splits sum.splits
      dest!: arg_cong[of "flush_upstream _ _ _" _ "\<lambda>x. mqtt_tx (snd (snd x))"])

lemma session_fits_wind_down: "session_fits P s \<Longrightarrow> session_fits P (wind_down E now waiting s)"
proof -
  assume s: "session_fits P s"
  define s1 where "s1 = count_dropped s"
  define s2 where "s2 = fold (\<lambda>r. emit_command_result (ended_result E now r)) (queued (local s1)) (s1\<lparr>local := snd (drain (local s1))\<rparr>)"
  define s3 where "s3 = (case in_flight (local s1) of None \<Rightarrow> s2 | Some x \<Rightarrow> emit_command_result (ended_in_flight E now x) s2)"
  have s1: "session_fits P s1" using s by (simp add: s1_def count_dropped_def Let_def)
  then have "session_fits P s2" by (simp add: s2_def drain_def session_fits_local session_fits_emit_all)
  with s1 have "session_fits P s3"
    by (auto simp: s3_def session_fits_def[of _ s1] ended_in_flight_def intro: session_fits_emit split: option.split)
  then have "session_fits P (fold (\<lambda>r. emit_command_result (ended_result E now r)) waiting s3)" by (simp add: session_fits_emit_all)
  then show ?thesis
    by (simp add: wind_down_def Let_def drain_def s3_def[unfolded s2_def s1_def] cong: option.case_cong)
qed

section \<open>A law of resolved limits\<close>

text \<open>What the policy promises of each limit it resolves; the session's handlers keep it.\<close>

locale limit_law =
  fixes E :: ext and cfg :: session_config and P :: "f64 \<Rightarrow> bool"
  assumes resolved: "resolve_limit E (sc_charging cfg) a = Inr r \<Longrightarrow> P (applied_a r)"
begin

lemma payload_fits: "command_payload E (sc_charging cfg) now cmd = Inr (j, x, d) \<Longrightarrow> limit_fits P x"
  using resolved by (cases cmd) (auto split: sum.splits if_splits)

lemma prepared_fits: "prepare_call E (sc_charging cfg) req uid now = Inr prep \<Longrightarrow> limit_fits P (prep_applied_limit_a prep)"
  using payload_fits[of now "command req"] by (auto simp: prepare_call_def Let_def split: sum.splits)

lemma send_queued_fits: "session_fits P s \<longrightarrow> session_fits P (snd (send_queued E (sc_charging cfg) now inst s))"
proof (rule send_queued_rule[where R = "\<lambda>s s'. session_fits P s \<longrightarrow> session_fits P s'"])
  fix s s' :: session and req q uid q' reason
  assume q: "pop_next (local s) = (Some req, q)" "next_unique_id now q = (uid, q')"
    and "session_fits P (emit_command_result (result_for_request E now req Invalid (Some reason)) (s\<lparr>local := q'\<rparr>)) \<longrightarrow> session_fits P s'"
  then show "session_fits P s \<longrightarrow> session_fits P s'"
    using pop_next_SomeD[OF q(1)] next_unique_id_frame[OF q(2)] by (simp add: session_fits_emit session_fits_local)
next
  fix s :: session and req q uid q' and prep :: prepared_call and e t d
  assume q: "pop_next (local s) = (Some req, q)" "next_unique_id now q = (uid, q')"
  show "session_fits P s \<longrightarrow> session_fits P (emit_command_result (result_for_request E now req NotConnected d) (s\<lparr>local := q', charger_tx := t\<rparr>))"
    using pop_next_SomeD[OF q(1)] next_unique_id_frame[OF q(2)] by (simp add: session_fits_emit session_fits_local)
next
  fix s :: session and req q uid q' prep t
  assume "prepare_call E (sc_charging cfg) req uid now = Inr prep"
  then show "session_fits P s \<longrightarrow> session_fits P (s\<lparr>local := set_in_flight inst req prep q', charger_tx := t\<rparr>)"
    using prepared_fits by (auto simp: set_in_flight_def intro: session_fits_local)
qed simp

lemma send_local_calls_fits: "session_fits P s \<Longrightarrow> session_fits P (snd (send_local_calls E (sc_charging cfg) now inst s))"
  using send_queued_fits by (simp add: send_local_calls_def)

lemma forward_charger_frame_fits:
  assumes "session_fits P s"
  shows "session_fits P (snd (snd (forward_charger_frame E ws cfg now inst text f u s)))"
proof -
  let ?r = "forward_upstream (upstream_sink_send ws) now f u (forwarder s)"
  have fw: "session_fits P (s\<lparr>forwarder := snd (snd ?r)\<rparr>)" using session_fits_forward[OF assms] by (simp add: forward_upstream_def)
  show ?thesis
  proof (cases "isl (fst ?r)")
    case True
    have "session_fits P (s\<lparr>forwarder := buffer_upstream f' (snd (snd ?r))\<rparr>)" for f'
      using fw by (simp add: session_fits_def)
    with fw show ?thesis unfolding forward_charger_frame_parts(1)[OF refl True] by (simp split: sum.split)
  next
    case False
    with fw show ?thesis
      unfolding forward_charger_frame_parts(2)[OF refl False] by (simp add: Let_def send_local_calls_fits)
  qed
qed

lemma charger_text_fits:
  assumes "session_fits P s"
  shows "session_fits P (snd (snd (charger_text E ws cfg now inst text u s)))"
proof -
  have "session_fits P (complete_local_call E now fl f (s\<lparr>local := q\<rparr>))"
    if "take_response (unique_id f) (local s) = (Some fl, q)" for fl f q
    using assms that by (intro session_fits_complete session_fits_local)
      (auto simp: take_response_def session_fits_def split: if_splits)
  then show ?thesis
    using assms by (auto simp: charger_text_def forward_charger_frame_fits send_local_calls_fits
        split: sum.splits prod.splits option.splits if_splits)
qed

lemma command_received_fits:
  assumes "session_fits P s"
  shows "session_fits P (snd (command_received E cfg now inst req s))"
proof -
  obtain ds q where d: "push req (local s) = (ds, q)" by fastforce
  then have "in_flight q = in_flight (local s)" by (auto simp: push_def Let_def split: prod.splits if_splits)
  then have "session_fits P (s\<lparr>local := q\<rparr>)" using assms by (simp add: session_fits_def)
  with d show ?thesis by (simp add: command_received_def send_local_calls_fits session_fits_emit_all)
qed

lemma command_tick_fits:
  assumes "session_fits P s"
  shows "session_fits P (snd (command_tick E cfg now inst s))"
proof -
  obtain xs fl q where e: "expire now inst (local s) = ((xs, fl), q)" by (metis surj_pair)
  then have "flight_fits P (in_flight q)" "flight_fits P fl" using assms by (auto simp: expire_def Let_def session_fits_def split: if_splits)
  then show ?thesis
    using e assms by (auto simp: command_tick_def Let_def unanswered_result_def session_fits_local session_fits_emit_all
        intro!: send_local_calls_fits session_fits_emit split: option.split)
qed

lemma loop_step_fits:
  assumes "session_fits P s"
  shows "session_fits P (snd (snd (loop_step E ws cfg now inst ev u s)))"
proof (cases ev)
  case (FromCharger inp)
  then show ?thesis using assms by (cases inp) (simp_all add: loop_step_def from_charger_def charger_text_fits)
next
  case (FromCentral inp)
  have "session_fits P (snd (central_text E now msg s))" for msg
  proof -
    have "session_fits P (s\<lparr>charger_tx := t, forwarder := fw\<rparr>)"
      if "forward_downstream charger_sink_send now f (charger_tx s) (forwarder s) = (r, t, fw)" for f r t fw
      using session_fits_forward[OF assms, of charger_sink_send now CentralToCharger f "charger_tx s"] that
      by (simp add: forward_downstream_def session_fits_def)
    then show ?thesis using assms by (auto simp: central_text_def split: sum.splits prod.splits)
  qed
  then show ?thesis
    using assms FromCentral by (cases inp) (simp_all add: loop_step_def from_central_def Let_def case_prod_unfold split: sum.splits)
next
  case HousekeepingTick
  then show ?thesis using assms by (simp add: loop_step_def housekeeping_def session_fits_quiet)
qed (use assms in \<open>auto simp: loop_step_def command_received_fits command_tick_fits split: option.splits\<close>)

end

section \<open>Snapshots\<close>

definition snapshots_fit :: "(f64 \<Rightarrow> bool) \<Rightarrow> snapshot_map \<Rightarrow> bool" where
  "snapshots_fit P m \<longleftrightarrow> (\<forall>(k, s) \<in> set m. state_fits P s)"

lemma snapshots_fit_update: "snapshots_fit P m \<Longrightarrow> state_fits P s \<Longrightarrow> snapshots_fit P (AList.update cp s m)"
  by (induction m) (auto simp: snapshots_fit_def)

lemma entry_fits: "snapshots_fit P m \<Longrightarrow> state_fits P (entry_or_default cp m)"
  by (auto simp: entry_or_default_def snapshots_fit_def state_fits_default dest: map_of_SomeD split: option.split)

lemma update_snapshot_fits:
  assumes "snapshots_fit P (snapshots p)" "\<And>s. state_fits P s \<Longrightarrow> state_fits P (snd (f s))"
  shows "snapshots_fit P (snapshots (update_snapshot E A cp f p))"
  using assms(2)[OF entry_fits[OF assms(1), of cp]] assms(1)
  by (auto simp: update_snapshot_def Let_def snapshots_fit_update split: prod.splits)

lemma result_snapshot_fits:
  assumes "snapshots_fit P (snapshots p)" "limit_fits P (applied_limit_a r)"
  shows "snapshots_fit P (snapshots (publish_command_result E A now cp r p))"
  using assms unfolding publish_command_result_def Let_def
  by (intro update_snapshot_fits state_fits_apply_result) (auto simp: enqueue_frame split: sum.split)

lemma dispatch_command_fits:
  "snapshots_fit P (snapshots p) \<Longrightarrow> snapshots_fit P (snapshots (dispatch_command E A now cp req p))"
  by (auto simp: dispatch_command_def Let_def intro!: result_snapshot_fits
      split: option.splits prod.splits sum.splits dispatch_error.splits)

lemma handle_event_fits:
  assumes "snapshots_fit P (snapshots p)" "event_fits P ev"
  shows "snapshots_fit P (snapshots (handle_event E A now ev p))"
proof (cases ev)
  case (MessageForwarded cp f d act)
  then show ?thesis using assms by (auto simp: handle_event_def enqueue_frame intro!: update_snapshot_fits state_fits_apply split: sum.split)
next
  case (StateChanged cp up down)
  then show ?thesis
    using assms(1) by (auto simp: handle_event_def Let_def enqueue_frame maybe_reapply_limit_def
        intro!: dispatch_command_fits split: sum.split option.split)
next
  case (CommandResultEvent cp r)
  then show ?thesis using assms by (simp add: handle_event_def result_snapshot_fits)
qed

lemma incoming_fits:
  "snapshots_fit P (snapshots p) \<Longrightarrow> snapshots_fit P (snapshots (handle_incoming_publish E A now t bytes p))"
  by (auto simp: handle_incoming_publish_def invalid_payload_def intro!: dispatch_command_fits result_snapshot_fits
      split: option.split sum.split)

lemma poll_fits:
  "snapshots_fit P (snapshots p) \<Longrightarrow> run_step E A now (Poll out) p = Some (Some p') \<Longrightarrow> snapshots_fit P (snapshots p')"
  by (cases out) (auto simp: run_step_def Let_def drain_fields set_state_def incoming_fits split: if_splits option.splits)

section \<open>The whole proxy\<close>

abbreviation flight_part :: "(f64 \<Rightarrow> bool) \<Rightarrow> session \<Rightarrow> bool" where
  "flight_part P s \<equiv> flight_fits P (in_flight (local s))"

definition shared_part :: "(f64 \<Rightarrow> bool) \<Rightarrow> state_manager \<Rightarrow> mqtt_event channel \<Rightarrow> hub \<Rightarrow> bool" where
  "shared_part P m ch p \<longleftrightarrow> list_all (event_fits P) (passed ch) \<and> snapshots_fit P (snapshots p)"

lemma keeps_fits: "keeps (flight_part P) (shared_part P) p s \<longleftrightarrow> session_fits P s \<and> snapshots_fit P (snapshots p)"
  by (auto simp: keeps_def shared_part_def session_fits_def)

lemma session_fits_downstream:
  "session_fits P s \<Longrightarrow> session_fits P (publish_status up down (s\<lparr>manager := m\<rparr>))"
  by simp

text \<open>The promise of resolved limits is an invariant of the whole proxy.\<close>

lemma attempt_snapshots:
  "connect_attempts E channel_api now [(remaining, got)] p = Some r \<Longrightarrow> snapshots (attempted r) = snapshots p"
  by (auto simp: set_state_def split: if_splits option.splits poll.splits)

sublocale limit_law \<subseteq> everywhere: whole_law E ws cfg "flight_part P" "shared_part P" for ws
proof unfold_locales
  show "flight_part P (s\<lparr>manager := m, forwarder := (forwarder s)\<lparr>mqtt_tx := ch\<rparr>\<rparr>) = flight_part P s" for s m ch by simp
  show "shared_part P m (ch\<lparr>room := n\<rparr>) p = shared_part P m ch p" for m ch n p by (simp add: shared_part_def)
  show "shared_part P m ch (p\<lparr>pub_router := r\<rparr>) = shared_part P m ch p" for m ch p r by (simp add: shared_part_def)
  show "shared_part P m ch p \<Longrightarrow> flight_part P (session_new cfg cp ch m)" for m ch p cp by (simp add: session_new_def queue_new_def)
  show "shared_part P m ch p \<Longrightarrow> said \<in> set (passed ch) \<Longrightarrow> shared_part P m ch (handle_event E channel_api now said p)" for m ch p said now
    by (auto simp: shared_part_def list_all_iff intro!: handle_event_fits)
  show "shared_part P m ch p
      \<Longrightarrow> run_step E channel_api now (Poll out) (p\<lparr>shared_manager := Some m, client := (client p)\<lparr>room := k\<rparr>\<rparr>) = Some (Some p')
      \<Longrightarrow> shared_part P (case shared_manager p' of None \<Rightarrow> m | Some m' \<Rightarrow> m') ch p'" for m ch p now out k p'
    by (auto simp: shared_part_def dest!: poll_fits[of P, rotated])
qed (auto simp: keeps_fits shared_part_def set_state_def attempt_snapshots loop_step_fits session_fits_wind_down session_fits_dial_done
    intro: session_fits_after_lost session_fits_dial_failed session_fits_downstream)

context limit_law
begin

lemma limits_stay:
  assumes "whole_run E ws cfg (whole_start px) W" "\<And>p. px_publisher px = Inr p \<Longrightarrow> snapshots_fit P (snapshots p)"
    and "running_hub (thread_at W) = Some p"
  shows "snapshots_fit P (snapshots p)"
proof -
  have "\<And>q m. snapshots_fit P (snapshots q) \<Longrightarrow> shared_part P m (channel_new 1000) q" by (simp add: shared_part_def channel_new_def)
  then have "whole_keeps (flight_part P) (shared_part P) (whole_start px)"
    using assms(2) by (intro everywhere.whole_start_ok[where q = "undefined\<lparr>snapshots := []\<rparr>"]) (auto simp: snapshots_fit_def)
  from everywhere.whole_run_ok[OF assms(1) this] show ?thesis
    using assms(3) by (auto simp: whole_keeps_def fleet_keeps_def shared_part_def)
qed

end

section \<open>The policy as a law\<close>

text \<open>The range the configuration allows, and plain finiteness.\<close>

definition within_policy :: "charging_config \<Rightarrow> f64 \<Rightarrow> bool" where
  "within_policy c a \<longleftrightarrow>
     (a = Fin 0 \<or> round_tenth (min_limit_a c) \<le> a \<and> a \<le> round_tenth (max_limit_a c))
     \<and> (\<exists>q. a = Fin q \<and> 0 \<le> q \<and> q \<le> 80)"

lemma round_tenth_ends: "round_tenth (Fin 0) = Fin 0" "round_tenth (Fin 80) = Fin 80"
proof -
  have "\<lfloor>1 / 2 :: rat\<rfloor> = 0" "\<lfloor>1601 / 2 :: rat\<rfloor> = 800" by (simp_all add: floor_eq_iff)
  then show "round_tenth (Fin 0) = Fin 0" "round_tenth (Fin 80) = Fin 80"
    using rnd_of_int[of 0] rnd_of_int[of 800] rnd_of_int[of 80] by (simp_all add: round_tenth_Fin round_away_def)
qed

text \<open>A resolved limit lies between 0 and 80 A, whatever the configuration.\<close>

lemma resolved_bounded:
  assumes "charging_ok c" "resolve_limit E c a = Inr r"
  shows "\<exists>q. applied_a r = Fin q \<and> 0 \<le> q \<and> q \<le> 80"
proof -
  obtain mx mn where m: "max_limit_a c = Fin mx" "min_limit_a c = Fin mn" "0 \<le> mn" "mx \<le> 80"
    using assms(1) by (auto simp: charging_ok_def)
  have "applied_a r = Fin 0 \<or> Fin 0 \<le> round_tenth (Fin mn) \<and> round_tenth (Fin mn) \<le> applied_a r
      \<and> applied_a r \<le> round_tenth (Fin mx) \<and> round_tenth (Fin mx) \<le> Fin 80"
    using resolve_limit_bounds[OF assms] m round_tenth_mono[of 0 mn] round_tenth_mono[of mx 80]
    by (simp add: round_tenth_ends)
  then show ?thesis
    by (cases "applied_a r"; cases "round_tenth (Fin mn)"; cases "round_tenth (Fin mx)") auto
qed

lemma rounded_finite: "charging_ok c \<Longrightarrow> resolve_limit E c a = Inr r \<Longrightarrow> is_finite (applied_a r)"
  using resolved_bounded by (fastforce simp: is_finite_def)

interpretation finite_limits: limit_law E cfg "\<lambda>a. charging_ok (sc_charging cfg) \<longrightarrow> is_finite a" for E cfg
  by unfold_locales (auto intro: rounded_finite)

interpretation policy_limits: limit_law E cfg "\<lambda>a. charging_ok (sc_charging cfg) \<longrightarrow> within_policy (sc_charging cfg) a" for E cfg
  by unfold_locales (auto simp: within_policy_def dest: resolve_limit_bounds resolved_bounded)

text \<open>A proxy that has started from a loaded configuration.\<close>

lemma started_charging_ok:
  assumes "main_start E read mk P d (load_settings E fp de_raw de_config settings) = Inr px"
  shows "charging_ok (sc_charging (px_session px))" "sc_charging (px_session px) = charging (px_config px)"
    "px_publisher px = Inr p \<Longrightarrow> snapshots p = store_load E (snapshot_store_of (px_config px)) d"
proof -
  obtain url where px: "load_settings E fp de_raw de_config settings = Inr (px_config px)" "px_session px = session_config_of (px_config px) url"
      "px_publisher px = build_publisher E read mk (px_config px) d manager_new Map.empty"
    using started[OF assms] by metis
  then show "charging_ok (sc_charging (px_session px))" "sc_charging (px_session px) = charging (px_config px)"
    by (auto simp: load_settings_Inr validate_Nil session_config_of_def)
  show "px_publisher px = Inr p \<Longrightarrow> snapshots p = store_load E (snapshot_store_of (px_config px)) d"
    using built_publisher(3) px(3) by metis
qed

end
