(* ===== verification/Whole_Journey.thy ===== *)
theory Whole_Journey
  imports Whole_Limits Whole_Example
begin

text \<open>
  One command through the running proxy: from the broker through the router to the session of the connection that
  leads, as a Call to the charger, and its answer through the event channel into the published result, the snapshot
  and the store.
\<close>

section \<open>The steps of the journey\<close>

text \<open>
  The proxy can take a command for \<open>cp\<close> at once: the router leads to connection \<open>i\<close>, whose session relays and has nothing
  queued, in flight or unread, no Call of the Central System is pending, the publisher has caught up with the
  events, and no channel is full or closed. Other connections of the charger may still be there.
\<close>

definition ready :: "string \<Rightarrow> nat \<Rightarrow> utc \<Rightarrow> 'u whole \<Rightarrow> bool" where
  "ready cp i now W \<longleftrightarrow>
     (let F = site W; b = bodies F ! i; s = bd_sess b; ch = ds_mqtt_tx (shared (handlers F))
      in (\<exists>p. thread_at W = Thread_looping p \<and> pub_router p \<noteq> None)
         \<and> i < length (bodies F) \<and> is_running (phase_of (handlers F) i) \<and> bd_leg b = In_loop \<and> unread b = []
         \<and> (\<exists>g. ds_router (shared (handlers F)) cp = Some \<lparr>generation = g, tx = i\<rparr>)
         \<and> \<not> closed (bd_chan b) \<and> 0 < room (bd_chan b) \<and> bd_taken b = length (passed (bd_chan b))
         \<and> commands_open s \<and> queue_is_empty (local s) \<and> 1 \<le> q_capacity (local s) \<and> \<not> closed (charger_tx s)
         \<and> charge_point_id (forwarder s) = cp
         \<and> \<not> has_recent_pending_call now CentralToCharger CENTRAL_CALL_GRACE (forwarder s)
         \<and> consumed F = length (passed ch) \<and> \<not> closed ch \<and> 0 < room ch)"

text \<open>An idle session on a clear line sends a Call at once.\<close>

lemma idle_session_sends:
  assumes s: "queue_is_empty (local s)" "1 \<le> q_capacity (local s)" "\<not> closed (charger_tx s)"
      "\<not> has_recent_pending_call now CentralToCharger CENTRAL_CALL_GRACE (forwarder s)"
    and u: "next_unique_id now (local s) = (uid, q)" "prepare_call E (sc_charging cfg) req uid now = Inr prep"
  shows "command_received E cfg now inst req s =
    (Inr (), s\<lparr>local := set_in_flight inst req prep q, charger_tx := snd (channel_send (charger_tx s) (AText (prep_raw prep)))\<rparr>)"
proof -
  have e: "queued (local s) = []" "in_flight (local s) = None" using s(1) by (simp_all add: queue_is_empty_def)
  have p: "push req (local s) = ([], (local s)\<lparr>queued := [req]\<rparr>)" using e s(2) by (simp add: push_def Let_def)
  have n: "next_unique_id now ((local s)\<lparr>queued := []\<rparr>) = (uid, q)"
    using u(1) e by (cases "local s") (auto simp: next_unique_id_def Let_def)
  have "send_queued E (sc_charging cfg) now inst (s\<lparr>local := (local s)\<lparr>queued := [req]\<rparr>\<rparr>) =
      (Inr (), s\<lparr>local := set_in_flight inst req prep q, charger_tx := snd (channel_send (charger_tx s) (AText (prep_raw prep)))\<rparr>)"
    using e s(3) n u(2)
    by (subst send_queued.simps) (simp add: pop_next_def charger_sink_send_def channel_send_def Let_def)
  then show ?thesis
    using e p s(4) by (simp add: command_received_def send_local_calls_def has_in_flight_def queue_is_empty_def)
qed

lemma answer_completes:
  assumes l: "in_flight (local s) = Some fl" "queued (local s) = []" "prep_unique_id (fl_prepared fl) = unique_id f"
    and p: "parse E now text = Inr f" "\<not> is_call f"
    and i: "interpret_response E (prep_action (fl_prepared fl)) f = (st, resp, det)"
  shows "loop_step E ws cfg now inst (FromCharger (CText text)) u s =
    (None, u, emit_command_result (result_for_in_flight E now fl st resp det) (s\<lparr>local := (local s)\<lparr>in_flight := None\<rparr>\<rparr>))"
  using l p i by (simp add: loop_step_def from_charger_def charger_text_def take_response_def is_ours_def
      complete_local_call_def send_local_calls_def emit_command_result_def send_event_def queue_is_empty_def
      has_in_flight_def or_charger_gone_def)

lemma attach_session [simp]:
  "bd_sess (bodies F ! i) = s \<Longrightarrow> commands_open (attach i F) = commands_open s"
  "bd_sess (bodies F ! i) = s \<Longrightarrow> charger_tx (attach i F) = charger_tx s"
  "has_recent_pending_call now d g (forwarder (attach i F)) = has_recent_pending_call now d g (forwarder (bd_sess (bodies F ! i)))"
  by (simp_all add: attach_def Let_def has_recent_pending_call_def)

text \<open>The session's two turns, the Call and its answer; \<open>F1\<close> is what the delivery left.\<close>

lemma take_sends:
  assumes i: "i < length (bodies F1)" "is_running (phase_of (handlers F1) i)" and b: "bodies F1 ! i = b" "bd_leg b = In_loop" "unread b = [req]"
    and s: "s = bd_sess b" "commands_open s" "queue_is_empty (local s)" "1 \<le> q_capacity (local s)" "\<not> closed (charger_tx s)"
      "\<not> has_recent_pending_call now CentralToCharger CENTRAL_CALL_GRACE (forwarder s)"
    and u: "next_unique_id now (local s) = (uid, q)" "prepare_call E (sc_charging cfg) req uid now = Inr prep"
    and s': "s' = (attach i F1)\<lparr>local := set_in_flight inst req prep q, charger_tx := snd (channel_send (charger_tx s) (AText (prep_raw prep)))\<rparr>"
  shows "happen E ws cfg (Turn i (Receive now inst)) F1 = Some (detach i (In_loop, 1, bd_uplink b, s') F1)"
proof -
  let ?s = "attach i F1"
  have p: "local ?s = local s" "charger_tx ?s = charger_tx s" "commands_open ?s"
      "\<not> has_recent_pending_call now CentralToCharger CENTRAL_CALL_GRACE (forwarder ?s)"
    using b(1) s by (simp_all add: attach_def Let_def has_recent_pending_call_def)
  have "loop_step E ws cfg now inst (CommandRecv (Some req)) (bd_uplink b) ?s = (None, bd_uplink b, s')"
    using idle_session_sends[where s = ?s, unfolded p(1,2), OF s(3-5) p(4) u] p(3)
    by (simp add: loop_step_def or_charger_gone_def s' p(1,2))
  then show ?thesis using i b p(3) by (simp add: loop_turn_def)
qed

lemma answer_returns:
  assumes i: "i < length (bodies F2)" "is_running (phase_of (handlers F2) i)" and b: "bodies F2 ! i = b" "bd_leg b = In_loop"
    and l: "in_flight (local (bd_sess b)) = Some fl" "queued (local (bd_sess b)) = []" "prep_unique_id (fl_prepared fl) = unique_id f"
    and f: "parse E now ans = Inr f" "\<not> is_call f" "interpret_response E (prep_action (fl_prepared fl)) f = (st, resp, det)"
    and s': "s' = emit_command_result (result_for_in_flight E now fl st resp det) ((attach i F2)\<lparr>local := (local (bd_sess b))\<lparr>in_flight := None\<rparr>\<rparr>)"
  shows "happen E ws cfg (Turn i (HandleLoop now inst (FromCharger (CText ans)))) F2 = Some (detach i (In_loop, 0, bd_uplink b, s') F2)"
proof -
  have "local (attach i F2) = local (bd_sess b)" using b(1) by simp
  then have "loop_step E ws cfg now inst (FromCharger (CText ans)) (bd_uplink b) (attach i F2) = (None, bd_uplink b, s')"
    using answer_completes[of "attach i F2" fl f E now ans st resp det ws cfg inst "bd_uplink b"] l f s' by simp
  then show ?thesis using i b by (simp add: loop_turn_def)
qed

lemma store_channels_session [simp]:
  "length (bodies (store_channels router F)) = length (bodies F)"
  "i < length (bodies F) \<Longrightarrow> bd_sess (bodies (store_channels router F) ! i) = bd_sess (bodies F ! i)"
  by (simp_all add: store_channels_def)

lemma hub_out_session [simp]:
  "i < length (bodies F) \<Longrightarrow> bd_sess (bodies (hub_out p F) ! i) = bd_sess (bodies F ! i)"
  "ds_mqtt_tx (shared (handlers (hub_out p F))) = ds_mqtt_tx (shared (handlers F))"
  by (auto simp: hub_out_def store_manager_def store_channels_def split: option.split)

lemma journey_run:
  assumes W: "ready cp i t2 W" "agreed (site W)" "thread_at W = Thread_looping p"
    and c: "parse_command_topic tp = Some (cp, kind)" "parse_command_payload E t1 kind bytes = Inr req"
    and u: "next_unique_id t2 (local (bd_sess (bodies (site W) ! i))) = (uid, q)" "prepare_call E (sc_charging cfg) req uid t2 = Inr prep"
    and f: "parse E t3 ans = Inr f" "unique_id f = uid" "\<not> is_call f" "interpret_response E (prep_action prep) f = (st, resp, det)"
    and r: "r = result_for_in_flight E t3 \<lparr>fl_request = req, fl_prepared = prep, sent_at = i2\<rparr> st resp det"
  shows "\<exists>W1 W2 W3 W4 p4.
      whole_step E ws cfg (Poll_broker t1 k (PollPublish tp bytes)) W = Some W1
    \<and> whole_step E ws cfg (Outside (Turn i (Receive t2 i2))) W1 = Some W2
    \<and> whole_step E ws cfg (Outside (Turn i (HandleLoop t3 i3 (FromCharger (CText ans))))) W2 = Some W3
    \<and> whole_step E ws cfg (Take_event t4) W3 = Some W4 \<and> thread_at W4 = Thread_looping p4
    \<and> passed (charger_tx (bd_sess (bodies (site W4) ! i)))
        = passed (charger_tx (bd_sess (bodies (site W) ! i))) @ [AText (prep_raw prep)]
    \<and> passed (ds_mqtt_tx (shared (handlers (site W4)))) = passed (ds_mqtt_tx (shared (handlers (site W)))) @ [CommandResultEvent cp r]
    \<and> map_of (snapshots p4) cp = Some (snd (apply_command_result E t4 r (entry_or_default cp (snapshots p))))"
proof -
  let ?F = "site W" and ?b = "bodies (site W) ! i" and ?s = "bd_sess (bodies (site W) ! i)"
  define F1 where "F1 = snd (deliver cp req ?F)"
  obtain g where g: "ds_router (shared (handlers ?F)) cp = Some \<lparr>generation = g, tx = i\<rparr>" "\<not> closed (bd_chan ?b)" "0 < room (bd_chan ?b)"
      "pub_router p \<noteq> None"
    using W(1,3) by (auto simp: ready_def Let_def)
  obtain p1 where s1: "whole_step E ws cfg (Poll_broker t1 k (PollPublish tp bytes)) W = Some \<lparr>site = F1, thread_at = Thread_looping p1\<rparr>"
      "snapshots p1 = snapshots p"
    using poll_delivers[OF W(2,3) g c] F1_def by metis
  define b1 where "b1 = ?b\<lparr>bd_chan := snd (try_send (bd_chan ?b) req)\<rparr>"
  have w: "i < length (bodies ?F)" "is_running (phase_of (handlers ?F) i)" "bd_leg ?b = In_loop" "unread ?b = []" "\<not> closed (bd_chan ?b)"
      "0 < room (bd_chan ?b)" "bd_taken ?b = length (passed (bd_chan ?b))" "commands_open ?s" "queue_is_empty (local ?s)" "1 \<le> q_capacity (local ?s)"
      "\<not> closed (charger_tx ?s)" "charge_point_id (forwarder ?s) = cp" "\<not> has_recent_pending_call t2 CentralToCharger CENTRAL_CALL_GRACE (forwarder ?s)"
      "consumed ?F = length (passed (ds_mqtt_tx (shared (handlers ?F))))" "\<not> closed (ds_mqtt_tx (shared (handlers ?F)))"
      "0 < room (ds_mqtt_tx (shared (handlers ?F)))"
    using W(1) by (simp_all add: ready_def Let_def)
  have F1: "F1 = ?F\<lparr>bodies := (bodies ?F)[i := b1]\<rparr>"
    unfolding F1_def by (rule deliver_cases[of ?F cp req]) (use g in \<open>simp_all add: b1_def\<close>)
  have b1: "bodies F1 ! i = b1" "bd_leg b1 = In_loop" "unread b1 = [req]" "bd_sess b1 = ?s" "bd_uplink b1 = bd_uplink ?b"
      "i < length (bodies F1)" "is_running (phase_of (handlers F1) i)"
    using w by (simp_all add: F1) (simp_all add: b1_def unread_def try_send_def Let_def)
  define x where "x = (attach i F1)\<lparr>local := set_in_flight i2 req prep q, charger_tx := snd (channel_send (charger_tx ?s) (AText (prep_raw prep)))\<rparr>"
  define F2 where "F2 = detach i (In_loop, 1, bd_uplink ?b, x) F1"
  have s2: "whole_step E ws cfg (Outside (Turn i (Receive t2 i2))) \<lparr>site = F1, thread_at = Thread_looping p1\<rparr>
      = Some \<lparr>site = F2, thread_at = Thread_looping p1\<rparr>"
    using take_sends[OF b1(6,7,1-3) b1(4)[symmetric] w(8-11,13) u, of x i2 ws] by (simp add: x_def F2_def b1(5) del: happen.simps)
  have b2: "bd_sess (bodies F2 ! i) = x" "bd_leg (bodies F2 ! i) = In_loop" "i < length (bodies F2)" "is_running (phase_of (handlers F2) i)"
      "bd_uplink (bodies F2 ! i) = bd_uplink ?b" "ds_mqtt_tx (shared (handlers F2)) = ds_mqtt_tx (shared (handlers ?F))" "consumed F2 = consumed ?F"
    using b1(6,7) by (simp_all add: F2_def detach_def Let_def F1 x_def)
  have prep: "prep_unique_id prep = uid" "prep_action prep = action_of (command req)" using prepare_call_Inr[OF u(2)] by auto
  have "queued q = []" using w(9) next_unique_id_frame[OF u(1)] by (simp add: queue_is_empty_def)
  then have l: "in_flight (local x) = Some \<lparr>fl_request = req, fl_prepared = prep, sent_at = i2\<rparr>" "queued (local x) = []"
    by (simp_all add: x_def set_in_flight_def)
  define y where "y = emit_command_result r ((attach i F2)\<lparr>local := (local x)\<lparr>in_flight := None\<rparr>\<rparr>)"
  define F3 where "F3 = detach i (In_loop, 0, bd_uplink ?b, y) F2"
  have s3: "whole_step E ws cfg (Outside (Turn i (HandleLoop t3 i3 (FromCharger (CText ans))))) \<lparr>site = F2, thread_at = Thread_looping p1\<rparr>
      = Some \<lparr>site = F3, thread_at = Thread_looping p1\<rparr>"
    using answer_returns[OF b2(3,4) refl b2(2), of "\<lparr>fl_request = req, fl_prepared = prep, sent_at = i2\<rparr>" f E t3 ans st resp det y ws cfg i3]
      l f prep by (simp add: b2(1,5) F3_def y_def r del: happen.simps)
  have y: "charger_tx y = charger_tx x" "mqtt_tx (forwarder y) = snd (try_send (ds_mqtt_tx (shared (handlers ?F))) (CommandResultEvent cp r))"
    using b2(1,6) w(12) b1(4) by (simp_all add: y_def emit_command_result_def send_event_def) (simp add: x_def b1(1))
  have F3: "passed (ds_mqtt_tx (shared (handlers F3))) = passed (ds_mqtt_tx (shared (handlers ?F))) @ [CommandResultEvent cp r]"
      "consumed F3 = length (passed (ds_mqtt_tx (shared (handlers ?F))))" "bd_sess (bodies F3 ! i) = y" "i < length (bodies F3)"
    using y(2) w(14-16) b2(3,7) by (simp_all add: F3_def detach_def Let_def try_send_def)
  define p4 where "p4 = publish_command_result E channel_api t4 cp r (hub_in F3 (room (client p1)) p1)"
  have s4: "whole_step E ws cfg (Take_event t4) \<lparr>site = F3, thread_at = Thread_looping p1\<rparr>
      = Some \<lparr>site = hub_out p4 (take_event F3), thread_at = Thread_looping p4\<rparr>"
    using F3(1,2) by (simp add: Let_def handle_event_def p4_def)
  have "snapshots (hub_in F3 (room (client p1)) p1) = snapshots p" using s1(2) by (simp add: hub_in_def)
  then have "map_of (snapshots p4) cp = Some (snd (apply_command_result E t4 r (entry_or_default cp (snapshots p))))"
    by (simp add: p4_def publish_command_result_def update_snapshot_def Let_def update_conv' split: sum.split prod.split)
  moreover have "passed (charger_tx (bd_sess (bodies (hub_out p4 (take_event F3)) ! i))) = passed (charger_tx ?s) @ [AText (prep_raw prep)]"
    using F3(3,4) y(1) w(11) by (simp add: take_event_def Let_def x_def channel_send_def)
  moreover have "passed (ds_mqtt_tx (shared (handlers (hub_out p4 (take_event F3))))) = passed (ds_mqtt_tx (shared (handlers ?F))) @ [CommandResultEvent cp r]"
    using F3(1) by (simp add: take_event_def Let_def)
  ultimately show ?thesis using s1(1) s2 s3 s4 by (intro exI conjI) (assumption | rule refl | simp)+
qed

section \<open>A journey\<close>

text \<open>The codec prints Calls only, so the publisher passes over the status events of the connections.\<close>

definition journey_queue :: local_call_queue where
  "journey_queue = queue_new (command_timeout (charging demo_commands_config)) COMMAND_CHANNEL_CAPACITY"

definition journey_uid :: string where
  "journey_uid = fst (next_unique_id 5 journey_queue)"

definition journey_ext :: ext where
  "journey_ext = (table_ext [(''ok'', Arr [Num (PosInt 3), Str journey_uid, Obj [(''status'', Str ''Accepted'')]])])
     \<lparr>to_str := (\<lambda>v. case v of Arr _ \<Rightarrow> Inr ''call'' | _ \<Rightarrow> Inl ''too long'')\<rparr>"

abbreviation journey_settings :: session_config where
  "journey_settings \<equiv> px_session (demo_px journey_ext)"

abbreviation journey_run_to :: "unit whole \<Rightarrow> bool" where
  "journey_run_to \<equiv> whole_run journey_ext demo_ws journey_settings (whole_start (demo_px journey_ext))"

lemma journey_passes_over: "is_status ev \<Longrightarrow> handle_event journey_ext A now ev p = p"
  by (cases ev) (simp_all add: handle_event_def journey_ext_def status_payload_json_def)

lemma take_events:
  "bodies ((take_event ^^ n) F) = bodies F" "tasks (handlers ((take_event ^^ n) F)) = tasks (handlers F)"
  "ds_router (shared (handlers ((take_event ^^ n) F))) = ds_router (shared (handlers F))"
  "passed (ds_mqtt_tx (shared (handlers ((take_event ^^ n) F)))) = passed (ds_mqtt_tx (shared (handlers F)))"
  "closed (ds_mqtt_tx (shared (handlers ((take_event ^^ n) F)))) = closed (ds_mqtt_tx (shared (handlers F)))"
  "room (ds_mqtt_tx (shared (handlers ((take_event ^^ n) F)))) = room (ds_mqtt_tx (shared (handlers F))) + n"
  "consumed ((take_event ^^ n) F) = consumed F + n"
  by (induction n) (simp_all add: take_event_def Let_def)

lemma router_view_taken: "router_view ((take_event ^^ n) F) = router_view F"
  by (simp add: router_view_def take_events)

lemma hub_out_in [simp]:
  assumes "pub_router p \<noteq> None" "router_view G = router_view F" "ds_manager (shared (handlers G)) = ds_manager (shared (handlers F))"
  shows "hub_out (hub_in F k p) G = G"
proof -
  have "store_channels (router_view F) G = G" using store_channels_same[of G] assms(2) by simp
  then show ?thesis using assms(1,3) by (auto simp: hub_out_def hub_in_def store_manager_def)
qed

lemma take_event_same: "router_view (take_event F) = router_view F" "ds_manager (shared (handlers (take_event F))) = ds_manager (shared (handlers F))"
  by (simp_all add: router_view_def take_event_def Let_def)

lemma catches_up:
  assumes "journey_run_to \<lparr>site = F, thread_at = Thread_looping p\<rparr>" "list_all is_status (passed (ds_mqtt_tx (shared (handlers F))))"
    and "pub_router p \<noteq> None" "snapshots p = []" "consumed F + n \<le> length (passed (ds_mqtt_tx (shared (handlers F))))"
  shows "\<exists>q. journey_run_to \<lparr>site = (take_event ^^ n) F, thread_at = Thread_looping q\<rparr> \<and> pub_router q \<noteq> None \<and> snapshots q = []"
  using assms(5)
proof (induction n)
  case (Suc n)
  then obtain q where q: "journey_run_to \<lparr>site = (take_event ^^ n) F, thread_at = Thread_looping q\<rparr>" "pub_router q \<noteq> None" "snapshots q = []"
    by auto
  let ?G = "(take_event ^^ n) F"
  have ev: "is_status (passed (ds_mqtt_tx (shared (handlers ?G))) ! consumed ?G)" "consumed ?G < length (passed (ds_mqtt_tx (shared (handlers ?G))))"
    using Suc.prems assms(2) by (simp_all add: take_events list_all_length)
  have "whole_step journey_ext demo_ws journey_settings (Take_event 4) \<lparr>site = ?G, thread_at = Thread_looping q\<rparr>
      = Some \<lparr>site = take_event ?G, thread_at = Thread_looping (hub_in ?G (room (client q)) q)\<rparr>"
    using ev by (simp add: Let_def journey_passes_over q(2) take_event_same)
  from whole_run.did[OF q(1) this] show ?case
    using q(2,3) by (intro exI[of _ "hub_in ?G (room (client q)) q"]) (simp add: hub_in_def)
qed (use assms(1,3,4) in auto)

lemma journey_start:
  obtains W p where "journey_run_to W" "thread_at W = Thread_looping p" "snapshots p = []" "ready ''CP1'' 1 5 W"
    "local (bd_sess (bodies (site W) ! 1)) = journey_queue" "passed (charger_tx (bd_sess (bodies (site W) ! 1))) = []"
proof -
  let ?D = "demo_site journey_ext journey_settings"
  obtain p m where p: "journey_run_to \<lparr>site = store_manager (Some m) ?D, thread_at = Thread_looping p\<rparr>"
      "pub_router p = Some (router_view ?D)" "snapshots p = []"
    using demo_looping .
  define F where "F = store_manager (Some m) ?D"
  have F: "bodies F = bodies ?D" "tasks (handlers F) = tasks (handlers ?D)" "ds_router (shared (handlers F)) = ds_router (shared (handlers ?D))"
      "ds_mqtt_tx (shared (handlers F)) = ds_mqtt_tx (shared (handlers ?D))" "consumed F = consumed ?D"
    by (simp_all add: F_def store_manager_def)
  have ev: "list_all is_status (passed (ds_mqtt_tx (shared (handlers F))))" "consumed F + 6 \<le> length (passed (ds_mqtt_tx (shared (handlers F))))"
    by (simp_all add: F demo_site_def demo_overlap_events)
  obtain q where q: "journey_run_to \<lparr>site = (take_event ^^ 6) F, thread_at = Thread_looping q\<rparr>" "pub_router q \<noteq> None" "snapshots q = []"
    using catches_up[of F p 6] p ev F_def by auto
  let ?W = "\<lparr>site = (take_event ^^ 6) F, thread_at = Thread_looping q\<rparr>"
  have c: "sc_charging journey_settings = charging demo_commands_config" by (simp add: demo_px_parts session_config_of_def)
  note at = demo_overlap_nth[unfolded One_nat_def] demo_overlap_session[unfolded One_nat_def]
  have b: "bodies (site ?W) = bodies ?D" by (simp add: take_events F)
  have "local (bd_sess (bodies ?D ! 1)) = journey_queue" "charger_tx (bd_sess (bodies ?D ! 1)) = channel_new 256"
    by (simp_all add: demo_site_def at c journey_queue_def)
  moreover have "ready ''CP1'' 1 5 ?W"
    using q(2) calculation
    by (simp add: ready_def take_events F demo_site_def at demo_overlap_lengths demo_overlap_facts(7) demo_overlap_events unread_def
        channel_new_def COMMAND_CHANNEL_CAPACITY_def journey_queue_def queue_new_def queue_is_empty_def)
  ultimately show ?thesis using that[of ?W q] q b by (simp add: channel_new_def)
qed

lemma journey_charging: "sc_charging journey_settings = charging_config_default\<lparr>enabled := True\<rparr>"
  by (simp add: demo_px_parts session_config_of_def demo_commands_config_def)

definition journey_request :: command_request where
  "journey_request = request_new 4 (generated_id 4 ''limit'') (SetCurrentLimit (Fin 10)) SourceMqtt"

definition journey_call :: prepared_call where
  "journey_call = \<lparr>prep_unique_id = journey_uid, prep_action = ''SetChargingProfile'', prep_raw = ''call'',
     prep_applied_limit_a = Some (Fin 10), prep_detail = None\<rparr>"

lemma round_tenth_ten: "round_tenth (Fin 10) = Fin 10"
proof -
  have "\<lfloor>201 / 2 :: rat\<rfloor> = 100" by (simp add: floor_eq_iff)
  then show ?thesis using rnd_of_int[of 100] rnd_of_int[of 10] by (simp add: round_tenth_Fin round_away_def)
qed

lemma journey_facts:
  "parse_command_topic ''ocpp/CP1/command/current_limit'' = Some (''CP1'', TopicCurrentLimit)"
  "parse_command_payload journey_ext 4 TopicCurrentLimit ''10'' = Inr journey_request"
  "prepare_call journey_ext (sc_charging journey_settings) journey_request journey_uid 5 = Inr journey_call"
  "parse journey_ext 6 ''ok'' = Inr \<lparr>raw = ''ok'', message_type = CallResult, unique_id = journey_uid, received_at = 6\<rparr>"
  "interpret_response journey_ext ''SetChargingProfile'' \<lparr>raw = ''ok'', message_type = CallResult, unique_id = journey_uid, received_at = 6\<rparr>
     = (Accepted, Some (Obj [(''status'', Str ''Accepted'')]), None)"
proof -
  show "parse_command_topic ''ocpp/CP1/command/current_limit'' = Some (''CP1'', TopicCurrentLimit)"
    by (simp add: parse_command_topic_def)
  have low: "to_ascii_lowercase ''10'' = ''10''" by code_simp
  have num: "parse_f64 ''10'' = Some (Fin 10)" by code_simp
  show "parse_command_payload journey_ext 4 TopicCurrentLimit ''10'' = Inr journey_request"
    using low num by (simp add: parse_command_payload_def from_utf8_def trim_def trim_start.simps trim_end.simps
        ws_suffix_def starts_with_def Let_def journey_request_def)
  show "prepare_call journey_ext (sc_charging journey_settings) journey_request journey_uid 5 = Inr journey_call"
    unfolding journey_charging
    by (simp add: prepare_call_def journey_request_def request_new_def charging_config_default_def
        resolve_limit_def is_finite_def f64_eq_def round_tenth_ten journey_ext_def call_json_def journey_call_def Let_def)
  show "parse journey_ext 6 ''ok'' = Inr \<lparr>raw = ''ok'', message_type = CallResult, unique_id = journey_uid, received_at = 6\<rparr>"
    by (simp add: parse_def frame_message_type_def journey_ext_def table_ext_def)
  show "interpret_response journey_ext ''SetChargingProfile'' \<lparr>raw = ''ok'', message_type = CallResult, unique_id = journey_uid, received_at = 6\<rparr>
     = (Accepted, Some (Obj [(''status'', Str ''Accepted'')]), None)"
    by (simp add: interpret_response_def journey_ext_def table_ext_def call_result_status_def Let_def nth_opt_def)
qed

section \<open>Properties\<close>

lemma run_agreed: "whole_run E ws cfg (whole_start px) W \<Longrightarrow> agreed (site W)"
  using agreement.run_keeps[OF whole_implements_fleet fleet_new_ok(3)] .


text \<open>
  C5: A command reaches the charger and its outcome is on record. When the running proxy is ready, whatever other connections
  of the charger are still there, a valid command message from the broker, the next turn of the session that leads, the
  charger's answer and the publisher's next turn send the charger exactly one new frame, the Call prepared for the command,
  report exactly one event, the result with the charger's verdict, and fold it into the snapshot; an accepted limit is then
  the limit in force.
\<close>

theorem command_journey:
  assumes "whole_run E ws cfg (whole_start px) W" "ready cp i t2 W" "thread_at W = Thread_looping p"
    and "parse_command_topic tp = Some (cp, kind)" "parse_command_payload E t1 kind bytes = Inr req"
    and "next_unique_id t2 (local (bd_sess (bodies (site W) ! i))) = (uid, q)" "prepare_call E (sc_charging cfg) req uid t2 = Inr prep"
    and "parse E t3 ans = Inr f" "unique_id f = uid" "\<not> is_call f" "interpret_response E (prep_action prep) f = (st, resp, det)"
    and "r = result_for_in_flight E t3 \<lparr>fl_request = req, fl_prepared = prep, sent_at = i2\<rparr> st resp det"
  shows "\<exists>W1 W2 W3 W4 p4.
      whole_step E ws cfg (Poll_broker t1 k (PollPublish tp bytes)) W = Some W1
    \<and> whole_step E ws cfg (Outside (Turn i (Receive t2 i2))) W1 = Some W2
    \<and> whole_step E ws cfg (Outside (Turn i (HandleLoop t3 i3 (FromCharger (CText ans))))) W2 = Some W3
    \<and> whole_step E ws cfg (Take_event t4) W3 = Some W4 \<and> thread_at W4 = Thread_looping p4
    \<and> passed (charger_tx (bd_sess (bodies (site W4) ! i)))
        = passed (charger_tx (bd_sess (bodies (site W) ! i))) @ [AText (prep_raw prep)]
    \<and> passed (ds_mqtt_tx (shared (handlers (site W4)))) = passed (ds_mqtt_tx (shared (handlers (site W)))) @ [CommandResultEvent cp r]
    \<and> map_of (snapshots p4) cp = Some (snd (apply_command_result E t4 r (entry_or_default cp (snapshots p))))
    \<and> (st = Accepted \<longrightarrow> command req = SetCurrentLimit a \<longrightarrow> standing_limit cp (snapshots p4) = prep_applied_limit_a prep)"
proof -
  have "prep_action prep = action_of (command req)" using prepare_call_Inr[OF assms(7)] by auto
  then have limit: "standing_limit cp (snapshots p4) = prep_applied_limit_a prep"
    if "st = Accepted" "command req = SetCurrentLimit a"
      "map_of (snapshots p4) cp = Some (snd (apply_command_result E t4 r (entry_or_default cp (snapshots p))))" for p4 :: hub
    using that assms(12)
    by (simp add: standing_limit_def apply_command_result_def is_limit_result_def result_for_in_flight_def result_for_request_def Let_def)
  show ?thesis
    using journey_run[OF assms(2) run_agreed[OF assms(1)] assms(3-12), where k = k and ws = ws and ?i3.0 = i3 and ?t4.0 = t4] limit by blast
qed

text \<open>Two connections of the charger overlap; the second leads. A limit of 10 A arrives and is accepted.\<close>

lemma journey_ends:
  obtains W p where "journey_run_to W" "thread_at W = Thread_looping p" "map_of (snapshots p) ''CP1''
     = Some (snd (apply_command_result journey_ext 7 (result_for_in_flight journey_ext 6
         \<lparr>fl_request = journey_request, fl_prepared = journey_call, sent_at = 5\<rparr> Accepted (Some (Obj [(''status'', Str ''Accepted'')])) None)
         state_default))"
proof -
  let ?f = "\<lparr>raw = ''ok'', message_type = CallResult, unique_id = journey_uid, received_at = 6\<rparr>"
  have act: "prep_action journey_call = ''SetChargingProfile''" "unique_id ?f = journey_uid" "\<not> is_call ?f"
    by (simp_all add: journey_call_def is_call_def)
  obtain W p where W: "journey_run_to W" "thread_at W = Thread_looping p" "snapshots p = []" "ready ''CP1'' 1 5 W"
      "local (bd_sess (bodies (site W) ! 1)) = journey_queue"
    using journey_start by blast
  have uid: "next_unique_id 5 (local (bd_sess (bodies (site W) ! 1))) = (journey_uid, snd (next_unique_id 5 journey_queue))"
    unfolding W(5) journey_uid_def by simp
  obtain W1 W2 W3 W4 p4 where steps: "whole_step journey_ext demo_ws journey_settings (Poll_broker 4 10 (PollPublish ''ocpp/CP1/command/current_limit'' ''10'')) W = Some W1"
      "whole_step journey_ext demo_ws journey_settings (Outside (Turn 1 (Receive 5 5))) W1 = Some W2"
      "whole_step journey_ext demo_ws journey_settings (Outside (Turn 1 (HandleLoop 6 6 (FromCharger (CText ''ok''))))) W2 = Some W3"
      "whole_step journey_ext demo_ws journey_settings (Take_event 7) W3 = Some W4" "thread_at W4 = Thread_looping p4"
      "map_of (snapshots p4) ''CP1'' = Some (snd (apply_command_result journey_ext 7 (result_for_in_flight journey_ext 6
         \<lparr>fl_request = journey_request, fl_prepared = journey_call, sent_at = 5\<rparr> Accepted (Some (Obj [(''status'', Str ''Accepted'')])) None)
         (entry_or_default ''CP1'' (snapshots p))))"
    using journey_run[OF W(4) run_agreed[OF W(1)] W(2) journey_facts(1,2) uid journey_facts(3,4) act(2,3) journey_facts(5)[folded act(1)] refl,
        of demo_ws 10 5 6 7] by blast
  have "journey_run_to W4"
    by (rule whole_run.did[OF whole_run.did[OF whole_run.did[OF whole_run.did[OF W(1) steps(1)] steps(2)] steps(3)] steps(4)])
  then show ?thesis using that[of W4 p4] steps(5,6) W(3) by (simp add: entry_or_default_def)
qed

theorem command_journey_witness:
  "\<exists>(W :: unit whole) p. passed (charger_tx (bd_sess (bodies (site W) ! 1))) = [AText ''call'']
     \<and> thread_at W = Thread_looping p \<and> standing_limit ''CP1'' (snapshots p) = Some (Fin 10)"
proof -
  let ?f = "\<lparr>raw = ''ok'', message_type = CallResult, unique_id = journey_uid, received_at = 6\<rparr>"
  have c: "prep_applied_limit_a journey_call = Some (Fin 10)" "prep_raw journey_call = ''call''"
      "command journey_request = SetCurrentLimit (Fin 10)" "unique_id ?f = journey_uid" "\<not> is_call ?f"
      "interpret_response journey_ext (prep_action journey_call) ?f = (Accepted, Some (Obj [(''status'', Str ''Accepted'')]), None)"
    using journey_facts(5) by (simp_all add: journey_call_def journey_request_def request_new_def is_call_def)
  obtain W p where W: "journey_run_to W" "thread_at W = Thread_looping p" "ready ''CP1'' 1 5 W"
      "local (bd_sess (bodies (site W) ! 1)) = journey_queue" "passed (charger_tx (bd_sess (bodies (site W) ! 1))) = []"
    using journey_start by blast
  have uid: "next_unique_id 5 (local (bd_sess (bodies (site W) ! 1))) = (journey_uid, snd (next_unique_id 5 journey_queue))"
    unfolding W(4) journey_uid_def by simp
  obtain W4 :: "unit whole" and p4 where "thread_at W4 = Thread_looping p4"
      "passed (charger_tx (bd_sess (bodies (site W4) ! 1))) = passed (charger_tx (bd_sess (bodies (site W) ! 1))) @ [AText (prep_raw journey_call)]"
      "Accepted = Accepted \<longrightarrow> command journey_request = SetCurrentLimit (Fin 10)
        \<longrightarrow> standing_limit ''CP1'' (snapshots p4) = prep_applied_limit_a journey_call"
    using command_journey[OF W(1,3,2) journey_facts(1,2) uid journey_facts(3,4) c(4-6) refl, of 10 5 6 7 "Fin 10"] by blast
  then show ?thesis using c(1-3) W(5) by auto
qed

text \<open>
  C7: The snapshots keep their type. If those on disk have 64-bit integers and finite limits, then in every
  state the running proxy can reach from a loaded configuration, whatever chargers, Central System and broker send, every
  snapshot has such fields, and its JSON form, in which it is stored and published, decodes to the same snapshot.
\<close>

theorem snapshots_well_typed:
  assumes "main_start E read mk P d (load_settings E fp de_raw de_config settings) = Inr px"
    and "\<forall>(k, s) \<in> set (store_load E (snapshot_store_of (px_config px)) d). state_safe s"
    and "whole_run E ws (px_session px) (whole_start px) W" "running_hub (thread_at W) = Some p" "(cp, s) \<in> set (snapshots p)"
  shows "state_safe s \<and> state_of_json (state_json s) = Some s"
proof -
  let ?P = "\<lambda>a. charging_ok (sc_charging (px_session px)) \<longrightarrow> is_finite a"
  have "snapshots_fit ?P (snapshots p')" if "px_publisher px = Inr p'" for p'
    using assms(2) started_charging_ok(1)[OF assms(1)] unfolding started_charging_ok(3)[OF assms(1) that]
    by (simp add: snapshots_fit_def state_safe_def)
  then have "snapshots_fit ?P (snapshots p)" by (rule finite_limits.limits_stay[OF assms(3) _ assms(4)])
  then have "state_safe s" using assms(5) started_charging_ok(1)[OF assms(1)] by (auto simp: snapshots_fit_def state_safe_def)
  then show ?thesis by (simp add: state_round_trip)
qed

text \<open>The configuration of the example, as it is loaded.\<close>

lemma demo_loads:
  "load_settings E \<lparr>path_exists = (\<lambda>_. False), path_opens = (\<lambda>_. False)\<rparr> (\<lambda>_. None) (\<lambda>_. Inr demo_commands_config) (Inr ())
     = Inr demo_commands_config"
  by (simp add: load_settings_Inr validate_Nil demo_commands_config_def demo_proxy_config_def readable_if_given_def tls_coherent_def
      starts_with_def charging_ok_def charging_config_default_def)

lemma demo_main_loaded:
  "main_start E (\<lambda>_. Inl ''no file'') (\<lambda>_ n. channel_new n) demo_platform \<lparr>files = Map.empty, faults = []\<rparr>
     (load_settings E \<lparr>path_exists = (\<lambda>_. False), path_opens = (\<lambda>_. False)\<rparr> (\<lambda>_. None) (\<lambda>_. Inr demo_commands_config) (Inr ()))
   = Inr (demo_px E)"
  unfolding demo_loads by (rule demo_px_started)

lemma demo_nothing_stored: "store_load E (snapshot_store_of (px_config (demo_px E))) \<lparr>files = Map.empty, faults = []\<rparr> = []"
  using demo_hub_parts(2)[of E] built_publisher(3)[OF demo_hub_built[of E]] by (simp add: demo_px_parts)

theorem snapshots_well_typed_witness:
  "\<exists>W p s. journey_run_to W \<and> thread_at W = Thread_looping p \<and> map_of (snapshots p) ''CP1'' = Some s
     \<and> current_limit_a s = Some (Fin 10) \<and> state_of_json (state_json s) = Some s"
proof -
  obtain W p where W: "journey_run_to W" "thread_at W = Thread_looping p" "map_of (snapshots p) ''CP1''
     = Some (snd (apply_command_result journey_ext 7 (result_for_in_flight journey_ext 6
         \<lparr>fl_request = journey_request, fl_prepared = journey_call, sent_at = 5\<rparr> Accepted (Some (Obj [(''status'', Str ''Accepted'')])) None)
         state_default))" (is "_ = Some ?s")
    using journey_ends .
  have "current_limit_a ?s = Some (Fin 10)"
    by (simp add: apply_command_result_def is_limit_result_def result_for_in_flight_def result_for_request_def journey_call_def Let_def)
  moreover have "state_of_json (state_json ?s) = Some ?s"
    using snapshots_well_typed[OF demo_main_loaded _ W(1) _ map_of_SomeD[OF W(3)]] W(2) demo_nothing_stored by auto
  ultimately show ?thesis using W by blast
qed

text \<open>
  C9: No limit outside the policy is ever in force: starting from a loaded configuration without stored limits, every limit
  recorded in a snapshot, and so every limit published, stored or applied again after a reconnection,
  is zero or within the configured range rounded to a tenth, and lies between 0 and 80 A.
\<close>

theorem limits_within_policy:
  assumes "main_start E read mk P d (load_settings E fp de_raw de_config settings) = Inr px"
    and "store_load E (snapshot_store_of (px_config px)) d = []"
    and "whole_run E ws (px_session px) (whole_start px) W" "running_hub (thread_at W) = Some p"
    and "map_of (snapshots p) cp = Some s" "current_limit_a s = Some a"
  shows "within_policy (charging (px_config px)) a"
proof -
  let ?c = "sc_charging (px_session px)"
  have "snapshots_fit (\<lambda>a. charging_ok ?c \<longrightarrow> within_policy ?c a) (snapshots p')" if "px_publisher px = Inr p'" for p'
    using assms(2) unfolding started_charging_ok(3)[OF assms(1) that] by (simp add: snapshots_fit_def)
  then have "snapshots_fit (\<lambda>a. charging_ok ?c \<longrightarrow> within_policy ?c a) (snapshots p)"
    by (rule policy_limits.limits_stay[OF assms(3) _ assms(4)])
  then show ?thesis
    using started_charging_ok(1,2)[OF assms(1)] assms(6) map_of_SomeD[OF assms(5)] by (auto simp: snapshots_fit_def state_fits_def)
qed

theorem limits_within_policy_witness:
  "\<exists>W p s. journey_run_to W \<and> thread_at W = Thread_looping p \<and> map_of (snapshots p) ''CP1'' = Some s \<and> current_limit_a s = Some (Fin 10)
     \<and> within_policy (charging (px_config (demo_px journey_ext))) (Fin 10)"
proof -
  obtain W p where W: "journey_run_to W" "thread_at W = Thread_looping p" "map_of (snapshots p) ''CP1''
     = Some (snd (apply_command_result journey_ext 7 (result_for_in_flight journey_ext 6
         \<lparr>fl_request = journey_request, fl_prepared = journey_call, sent_at = 5\<rparr> Accepted (Some (Obj [(''status'', Str ''Accepted'')])) None)
         state_default))" (is "_ = Some ?s")
    using journey_ends .
  have l: "current_limit_a ?s = Some (Fin 10)"
    by (simp add: apply_command_result_def is_limit_result_def result_for_in_flight_def result_for_request_def journey_call_def Let_def)
  have "running_hub (thread_at W) = Some p" using W(2) by simp
  from limits_within_policy[OF demo_main_loaded demo_nothing_stored W(1) this W(3) l] show ?thesis using W l by blast
qed

end
