(* ===== verification/Fleet_End.thy ===== *)
theory Fleet_End
  imports Fleet_Facts
begin

text \<open>
  How a session and its handler end once the token is set: their steps in closed form, and the fact that a stopped proxy is
  never stuck, every handler having a next step of its own that brings it closer to its end.
\<close>

section \<open>The end of a session\<close>

lemma wind_down_close:
  "charger_tx (wind_down E now rest s) = snd (channel_send (charger_tx s) (AClose (Some (close_code s, ''Proxy session ending''))))"
proof -
  have f: "charger_tx (fold (\<lambda>r. emit_command_result (g r)) rs v) = charger_tx v"
      "close_code (fold (\<lambda>r. emit_command_result (g r)) rs v) = close_code v" for g rs and v :: session
    by (induction rs arbitrary: v) (simp_all add: emit_command_result_def)
  show ?thesis
    by (auto simp: wind_down_def Let_def count_dropped_def f emit_command_result_def drain_def split: option.split)
qed

text \<open>What a handler and its session do once the token is seen: the loop or the pause ends, the teardown, the way out.\<close>

definition sign_off :: "nat \<Rightarrow> utc \<Rightarrow> 'u event list" where
  "sign_off i now = [Turn i (SignOff now), Walk i now, Walk i now, Walk i now, Walk i now]"

definition way_out :: "nat \<Rightarrow> utc \<Rightarrow> leg \<Rightarrow> 'u event list" where
  "way_out i now l = Turn i (if l = In_loop then HandleLoop now 0 Cancelled else EndPause now WakeCancelled) # sign_off i now"

lemma session_turn_cancelled:
  assumes "l \<in> {In_loop, Retry_pause, Lost_pause}"
  shows "session_turn E ws cfg d rest l u s (if l = In_loop then HandleLoop now 0 Cancelled else EndPause now WakeCancelled)
    = Some (Closing, length rest, u, wind_down E now rest s)"
  using assms by (auto simp: loop_turn_def loop_step_def break_off_def wake_result_def)

lemma walk_out:
  assumes "i < length (tasks w)" "phase_of w i = Running g"
    and "w' = perform now (Advance i) (perform now (Advance i) (perform now (Advance i) (perform now (Advance i) w)))"
  shows "phase_of w' i = Closed_down" "table_entry (shared w') (task_cp (tasks w ! i)) \<noteq> Some g"
    and "ds_router (shared w') = snd (router_deregister (task_cp (tasks w ! i)) g (ds_router (shared w)))"
    and "answered cp (ds_mqtt_tx (shared w')) = answered cp (ds_mqtt_tx (shared w))"
    and "task_cp (tasks w' ! i) = task_cp (tasks w ! i)"
proof -
  show "answered cp (ds_mqtt_tx (shared w')) = answered cp (ds_mqtt_tx (shared w))"
    unfolding assms(3) walk_answers(1) ..
  have d: "deregister_connection cp' g' st = (fst (deregister_connection cp' g' st), snd (deregister_connection cp' g' st))" for cp' g' and st :: "'a downstream_state"
    by simp
  let ?st = "(shared w)\<lparr>ds_router := snd (router_deregister (task_cp (tasks w ! i)) g (ds_router (shared w)))\<rparr>"
  have t: "table_entry (snd (deregister_connection (task_cp (tasks w ! i)) g ?st)) (task_cp (tasks w ! i)) \<noteq> Some g"
    by (auto simp: deregister_connection_def table_entry_def split: option.splits)
  have r: "ds_router (snd (deregister_connection cp' g' st)) = ds_router st" for cp' g' and st :: "'a downstream_state"
    by (simp add: deregister_connection_def split: option.split)
  have a: "ds_router (announce now cp' s st) = ds_router st" for cp' s and st :: "'a downstream_state"
    by (simp add: announce_def ds_publish_status_def Let_def)
  have step: "w' = w\<lparr>shared := (if fst (deregister_connection (task_cp (tasks w ! i)) g ?st)
        then announce now (task_cp (tasks w ! i)) Disconnected (snd (deregister_connection (task_cp (tasks w ! i)) g ?st))
        else snd (deregister_connection (task_cp (tasks w ! i)) g ?st)),
      tasks := (tasks w)[i := (tasks w ! i)\<lparr>task_phase := Closed_down\<rparr>]\<rparr>"
    using assms by (simp add: perform_def advance_def Let_def case_prod_unfold)
  show "phase_of w' i = Closed_down" "table_entry (shared w') (task_cp (tasks w ! i)) \<noteq> Some g"
    "ds_router (shared w') = snd (router_deregister (task_cp (tasks w ! i)) g (ds_router (shared w)))"
    "task_cp (tasks w' ! i) = task_cp (tasks w ! i)"
    unfolding step using assms(1) t by (simp_all add: r a)
qed

lemma detach_same [simp]:
  "tasks (handlers (detach i r F)) = tasks (handlers F)" "length (bodies (detach i r F)) = length (bodies F)"
  "token_set i (detach j r F) = token_set i F"
  by (auto simp: detach_def token_set_def Let_def split: prod.splits)

lemma detach_nth:
  "i < length (bodies F) \<Longrightarrow> bd_leg (bodies (detach i (l, n, u, s) F) ! i) = l"
  "i < length (bodies F) \<Longrightarrow> bd_sess (bodies (detach i (l, n, u, s) F) ! i) = s"
  "i < length (bodies F) \<Longrightarrow> unread (bodies (detach i (l, n, u, s) F) ! i) = drop n (unread (bodies F ! i))"
  "ds_mqtt_tx (shared (handlers (detach i (l, n, u, s) F))) = mqtt_tx (forwarder s)"
  by (simp_all add: detach_def unread_def Let_def add.commute)

lemma sign_off_happens:
  assumes i: "i < length (bodies F)" "phase_of (handlers F) i = Running g" and l: "bd_leg (bodies F ! i) = Closing"
  obtains F' w where "F' = detach i (Returned_leg, 0, bd_uplink (bodies F ! i), set_upstream_state now Disconnected (attach i F)) F"
    and "w = perform now (Advance i) (perform now (Advance i) (perform now (Advance i) (perform now (Advance i) (handlers F'))))"
    and "happens E ws cfg (sign_off i now) F = Some (F'\<lparr>handlers := w\<rparr>)"
proof -
  define F' where "F' = detach i (Returned_leg, 0, bd_uplink (bodies F ! i), set_upstream_state now Disconnected (attach i F)) F"
  have 2: "happen E ws cfg (Turn i (SignOff now)) F = Some F'" using i l by (simp add: F'_def)
  have f: "bd_leg (bodies F' ! i) = Returned_leg" "i < length (bodies F')" using i by (simp_all add: F'_def detach_nth)
  define W where "W = (\<lambda>w :: nat world. perform now (Advance i) w)"
  have 3: "happen E ws cfg (Walk i now) (F'\<lparr>handlers := v\<rparr>) = Some (F'\<lparr>handlers := W v\<rparr>)" for v
    using f by (simp add: W_def)
  have 4: "F'\<lparr>handlers := handlers F'\<rparr> = F'" by simp
  have "happens E ws cfg (sign_off i now) F = Some (F'\<lparr>handlers := W (W (W (W (handlers F'))))\<rparr>)"
    unfolding sign_off_def happens.simps 2 option.case using 3[of "handlers F'"] 3 unfolding 4 by (simp del: happen.simps)
  then show ?thesis using that[OF F'_def] by (simp add: W_def)
qed

lemma way_out_happens:
  assumes i: "i < length (bodies F)" "length (bodies F) = length (tasks (handlers F))" "phase_of (handlers F) i = Running g"
    and tok: "token_set i F" "bd_leg (bodies F ! i) \<in> {In_loop, Retry_pause, Lost_pause}"
  obtains F1 F2 w where "F1 = detach i (Closing, length (unread (bodies F ! i)), bd_uplink (bodies F ! i),
        wind_down E now (unread (bodies F ! i)) (attach i F)) F"
    and "F2 = detach i (Returned_leg, 0, bd_uplink (bodies F1 ! i), set_upstream_state now Disconnected (attach i F1)) F1"
    and "w = perform now (Advance i) (perform now (Advance i) (perform now (Advance i) (perform now (Advance i) (handlers F2))))"
    and "happens E ws cfg (way_out i now (bd_leg (bodies F ! i))) F = Some (F2\<lparr>handlers := w\<rparr>)"
proof -
  define F1 where "F1 = detach i (Closing, length (unread (bodies F ! i)), bd_uplink (bodies F ! i),
        wind_down E now (unread (bodies F ! i)) (attach i F)) F"
  let ?t = "if bd_leg (bodies F ! i) = In_loop then HandleLoop now 0 Cancelled else EndPause now WakeCancelled"
  have 1: "happen E ws cfg (Turn i ?t) F = Some F1"
  proof -
    have "happen E ws cfg (Turn i t) F = map_option (\<lambda>r. detach i r F) (session_turn E ws cfg (sender_dropped i F)
       (unread (bodies F ! i)) (bd_leg (bodies F ! i)) (bd_uplink (bodies F ! i)) (attach i F) t)" for t
      using i tok(1) by simp
    then show ?thesis by (simp only: session_turn_cancelled[OF tok(2)] F1_def option.map)
  qed
  have "bd_leg (bodies F1 ! i) = Closing" "i < length (bodies F1)" "phase_of (handlers F1) i = Running g"
    using i by (simp_all add: F1_def detach_nth)
  then obtain F2 w where 2: "F2 = detach i (Returned_leg, 0, bd_uplink (bodies F1 ! i), set_upstream_state now Disconnected (attach i F1)) F1"
      "w = perform now (Advance i) (perform now (Advance i) (perform now (Advance i) (perform now (Advance i) (handlers F2))))"
      "happens E ws cfg (sign_off i now) F1 = Some (F2\<lparr>handlers := w\<rparr>)"
    using sign_off_happens by metis
  have "happens E ws cfg (way_out i now (bd_leg (bodies F ! i))) F = Some (F2\<lparr>handlers := w\<rparr>)"
    unfolding way_out_def happens.simps 1 option.case by (rule 2(3))
  then show ?thesis by (rule that[OF F1_def 2(1,2)])
qed

section \<open>A stopped proxy\<close>

text \<open>How many steps of its own a connection is from its end, once the token is set, and which comes next.\<close>

fun legs_ahead :: "leg \<Rightarrow> nat" where
  "legs_ahead Dial_next = 4"
| "legs_ahead Dialling = 3"
| "legs_ahead Closing = 1"
| "legs_ahead Returned_leg = 0"
| "legs_ahead _ = 2"

fun ahead :: "phase \<Rightarrow> leg \<Rightarrow> nat" where
  "ahead Accepted_socket l = 12"
| "ahead (Fetched g) l = 11"
| "ahead (Tabled g) l = 10"
| "ahead (Routed g) l = 9"
| "ahead (Running g) l = 4 + legs_ahead l"
| "ahead (Finished g) l = 3"
| "ahead (Unrouted g) l = 2"
| "ahead StillCurrent l = 1"
| "ahead Closed_down l = 0"

definition next_move :: "utc \<Rightarrow> nat \<Rightarrow> nat \<Rightarrow> phase \<Rightarrow> leg \<Rightarrow> 'u event" where
  "next_move now inst i ph l =
     (if \<not> is_running ph then Walk i now
      else case l of
          Dial_next \<Rightarrow> Turn i (StartDial now)
        | Dialling \<Rightarrow> Turn i (FailDial now inst)
        | In_loop \<Rightarrow> Turn i (HandleLoop now inst Cancelled)
        | Closing \<Rightarrow> Turn i (SignOff now)
        | Returned_leg \<Rightarrow> Walk i now
        | _ \<Rightarrow> Turn i (EndPause now WakeCancelled))"

definition far :: "'u fleet \<Rightarrow> nat \<Rightarrow> nat" where
  "far F i = ahead (phase_of (handlers F) i) (bd_leg (bodies F ! i))"

lemma far_le: "far F i \<le> 12"
proof -
  have "legs_ahead (bd_leg (bodies F ! i)) \<le> 8" by (cases "bd_leg (bodies F ! i)") simp_all
  then show ?thesis unfolding far_def by (cases "phase_of (handlers F) i") simp_all
qed

lemma advance_ahead:
  "\<not> is_running (task_phase t) \<Longrightarrow> task_phase t \<noteq> Closed_down \<Longrightarrow> not_started (task_phase t) \<longrightarrow> l = Dial_next
    \<Longrightarrow> ahead (task_phase (fst (advance now i t st))) l < ahead (task_phase t) l"
  "is_running (task_phase t) \<Longrightarrow> l = Returned_leg \<Longrightarrow> ahead (task_phase (fst (advance now i t st))) l < ahead (task_phase t) l"
  by (cases "task_phase t"; auto simp: advance_def Let_def split: prod.split)+

lemma next_move_brings_closer:
  assumes ag: "agreed F" and stop: "stopping F" and i: "i < length (bodies F)" "phase_of (handlers F) i \<noteq> Closed_down"
    and calm: "dial_failed cfg now inst (attach i F) \<noteq> None"
  obtains F' where "happen E ws cfg (next_move now inst i (phase_of (handlers F) i) (bd_leg (bodies F ! i))) F = Some F'"
    "far F' i < far F i" "\<And>j. j \<noteq> i \<Longrightarrow> far F' j = far F j" "stopping F'" "length (bodies F') = length (bodies F)"
proof -
  let ?ph = "phase_of (handlers F) i" and ?b = "bodies F ! i"
  have len: "i < length (tasks (handlers F))" using i(1) agreed_length[OF ag] by simp
  have fits: "not_started ?ph \<longrightarrow> bd_leg ?b = Dial_next" using agreed_fits[OF ag i(1)] by (simp add: in_step_def)
  show ?thesis
  proof (cases "is_running ?ph \<and> bd_leg ?b \<noteq> Returned_leg")
    case False
    let ?w = "perform now (Advance i) (handlers F)"
    obtain t' st' where a: "advance now i (tasks (handlers F) ! i) (shared (handlers F)) = (t', st')" by fastforce
    have "next_move now inst i ?ph (bd_leg ?b) = (Walk i now :: 'a event)" using False by (auto simp: next_move_def)
    then have h: "happen E ws cfg (next_move now inst i ?ph (bd_leg ?b)) F = Some (F\<lparr>handlers := ?w\<rparr>)" using False i(1) by auto
    have w: "tasks ?w = (tasks (handlers F))[i := t']" using a len by (simp add: perform_def)
    have "ahead (task_phase t') (bd_leg ?b) < ahead ?ph (bd_leg ?b)"
      using False i(2) fits advance_ahead[of "tasks (handlers F) ! i" "bd_leg ?b" now i "shared (handlers F)"] a by fastforce
    then have "far (F\<lparr>handlers := ?w\<rparr>) i < far F i" using w len by (simp add: far_def)
    moreover have "far (F\<lparr>handlers := ?w\<rparr>) j = far F j" if "j \<noteq> i" for j using that w by (simp add: far_def)
    ultimately show ?thesis using that[OF h] stop by simp
  next
    case True
    then obtain g where g: "?ph = Running g" by (cases ?ph) auto
    define t :: "'a turn" where "t = (case bd_leg ?b of Dial_next \<Rightarrow> StartDial now | Dialling \<Rightarrow> FailDial now inst
        | In_loop \<Rightarrow> HandleLoop now inst Cancelled | Closing \<Rightarrow> SignOff now | _ \<Rightarrow> EndPause now WakeCancelled)"
    have m: "next_move now inst i ?ph (bd_leg ?b) = Turn i t" using True by (cases "bd_leg ?b") (simp_all add: next_move_def t_def)
    have "\<exists>l n u s. session_turn E ws cfg (sender_dropped i F) (unread ?b) (bd_leg ?b) (bd_uplink ?b) (attach i F) t = Some (l, n, u, s)
        \<and> legs_ahead l < legs_ahead (bd_leg ?b)"
      using True calm
      by (cases "bd_leg ?b")
         (auto simp: t_def loop_turn_def loop_step_def break_off_def wake_result_def split: step_result.split)
    then obtain l n u s where r: "session_turn E ws cfg (sender_dropped i F) (unread ?b) (bd_leg ?b) (bd_uplink ?b) (attach i F) t = Some (l, n, u, s)"
        "legs_ahead l < legs_ahead (bd_leg ?b)" by blast
    let ?F = "detach i (l, n, u, s) F"
    have h: "happen E ws cfg (next_move now inst i ?ph (bd_leg ?b)) F = Some ?F" using m r(1) True i(1) stop by (simp add: token_set_def)
    have "far ?F i < far F i" using r(2) i(1) g by (simp add: far_def detach_nth)
    moreover have "far ?F j = far F j" if "j \<noteq> i" for j using that by (simp add: far_def detach_def Let_def)
    moreover have "stopping ?F" using stop by (simp add: detach_def Let_def)
    ultimately show ?thesis using that[OF h] by simp
  qed
qed

text \<open>When every handler has ended, nothing is left of their connections.\<close>

lemma all_ended:
  assumes F: "agreed F" "table_live (handlers F)" and e: "\<forall>i < length (bodies F). phase_of (handlers F) i = Closed_down"
  shows "connections (shared (handlers F)) = Map.empty" "ds_router (shared (handlers F)) = Map.empty"
    and "\<forall>b \<in> set (bodies F). bd_leg b = Returned_leg \<and> held_ids b = {#}"
proof -
  note len = agreed_length[OF F(1)]
  have "table_entry (shared (handlers F)) cp = None" for cp
    using F(2) e len by (cases "table_entry (shared (handlers F)) cp") (fastforce simp: table_live_def in_set_conv_nth)+
  then show "connections (shared (handlers F)) = Map.empty" by (auto simp: table_entry_def fun_eq_iff)
  have "ds_router (shared (handlers F)) cp = None" for cp
  proof (cases "ds_router (shared (handlers F)) cp")
    case (Some reg)
    then have "tx reg < length (bodies F)" "routed_as (phase_of (handlers F) (tx reg)) = Some (generation reg)"
      using F(1) len unfolding agreed_def router_ok_def by auto
    then show ?thesis using e by simp
  qed
  then show "ds_router (shared (handlers F)) = Map.empty" by (simp add: fun_eq_iff)
  show "\<forall>b \<in> set (bodies F). bd_leg b = Returned_leg \<and> held_ids b = {#}"
  proof
    fix b assume "b \<in> set (bodies F)"
    then obtain i where "i < length (bodies F)" "bodies F ! i = b" by (auto simp: in_set_conv_nth)
    then show "bd_leg b = Returned_leg \<and> held_ids b = {#}"
      using agreed_fits[OF F(1), of i] e by (simp add: in_step_def held_ids_def)
  qed
qed

end
