(* ===== verification/Whole_Properties.thy ===== *)
theory Whole_Properties
  imports Whole_State Fleet_End
begin

text \<open>
  The running proxy from end to end: from what \<open>main\<close> starts, with any number of overlapping connections, the
  publisher's start-up, its loop and its end, what an observer sees is a trace of the ledger; once stopped, the proxy can
  always come to rest; and one command can be missed.
\<close>

section \<open>Several deeds\<close>

fun whole_steps :: "ext \<Rightarrow> 'u ws_send \<Rightarrow> session_config \<Rightarrow> 'u deed list \<Rightarrow> 'u whole \<Rightarrow> 'u whole option" where
  "whole_steps E ws cfg [] W = Some W"
| "whole_steps E ws cfg (d # ds) W = (case whole_step E ws cfg d W of None \<Rightarrow> None | Some W' \<Rightarrow> whole_steps E ws cfg ds W')"

lemma whole_steps_run: "whole_steps E ws cfg ds W = Some W' \<Longrightarrow> whole_run E ws cfg W0 W \<Longrightarrow> whole_run E ws cfg W0 W'"
  by (induction ds arbitrary: W) (auto simp del: whole_step.simps split: option.splits intro: whole_run.did)

section \<open>The way to rest\<close>

definition to_go :: "'u fleet \<Rightarrow> nat" where
  "to_go F = (\<Sum>i < length (bodies F). far F i)"

lemma to_go_le: "to_go F \<le> 12 * length (bodies F)"
  using sum_bounded_above[of "{..<length (bodies F)}" "far F" 12] far_le[of F] by (simp add: to_go_def mult.commute)

lemma to_go_0: "to_go F = 0 \<Longrightarrow> i < length (bodies F) \<Longrightarrow> phase_of (handlers F) i = Closed_down"
proof -
  assume "to_go F = 0" "i < length (bodies F)"
  then have "ahead (phase_of (handlers F) i) (bd_leg (bodies F ! i)) = 0" by (simp add: to_go_def far_def)
  then show "phase_of (handlers F) i = Closed_down" by (cases "phase_of (handlers F) i") simp_all
qed

lemma to_go_less:
  assumes "i < length (bodies F)" "far F' i < far F i" "\<And>j. j \<noteq> i \<Longrightarrow> far F' j = far F j" "length (bodies F') = length (bodies F)"
  shows "to_go F' < to_go F"
proof -
  have "far F' j \<le> far F j" for j using assms(2,3) by (cases "j = i") simp_all
  then show ?thesis unfolding to_go_def assms(4) using assms(1,2) by (intro sum_strict_mono_ex1) auto
qed

lemma next_move_outside: "\<not> by_publisher (next_move now inst i ph l)"
  by (cases l) (simp_all add: next_move_def)

lemma run_keeps_sites:
  assumes "whole_run E ws cfg (whole_start px) W"
  shows "agreed (site W)" "table_live (handlers (site W))" "accounts_ok (site W)"
  using agreement.run_keeps[OF whole_implements_fleet[OF assms] fleet_new_ok(3)]
    table_entries.run_keeps[OF whole_implements_fleet[OF assms] fleet_new_ok(4)]
    account.run_keeps[OF whole_implements_fleet[OF assms] fleet_new_ok(2)] by simp_all

lemma handlers_rest:
  assumes px: "main_start E read mk P d loaded = Inr px" "max_backoff_seconds (buffers (px_config px)) < 2 ^ 52"
  shows "whole_run E ws (px_session px) (whole_start px) W \<Longrightarrow> stopping (site W)
    \<Longrightarrow> \<exists>ds W'. length ds \<le> to_go (site W) \<and> whole_steps E ws (px_session px) ds W = Some W' \<and> to_go (site W') = 0
        \<and> length (bodies (site W')) = length (bodies (site W)) \<and> thread_at W' = thread_at W"
proof (induction "to_go (site W)" arbitrary: W rule: less_induct)
  case less
  show ?case
  proof (cases "to_go (site W) = 0")
    case True
    then show ?thesis by (intro exI[of _ "[]"] exI[of _ W]) simp
  next
    case False
    let ?F = "site W" and ?cfg = "px_session px"
    from False obtain i where i: "i < length (bodies ?F)" "far ?F i \<noteq> 0" by (auto simp: to_go_def)
    then have ph: "phase_of (handlers ?F) i \<noteq> Closed_down" by (auto simp: far_def)
    obtain p where "steady_in ?cfg p (attach i ?F)" using running_steady[OF started_sound[OF px(1) less.prems(1)] i(1)] .
    then have "dial_failed ?cfg 0 0 (attach i ?F) \<noteq> None" by (rule steady_never_stuck(2)) (rule started_steady[OF px])
    then obtain F' where F': "happen E ws ?cfg (next_move 0 0 i (phase_of (handlers ?F) i) (bd_leg (bodies ?F ! i))) ?F = Some F'"
        "far F' i < far ?F i" "\<And>j. j \<noteq> i \<Longrightarrow> far F' j = far ?F j" "stopping F'" "length (bodies F') = length (bodies ?F)"
      using next_move_brings_closer[OF run_keeps_sites(1)[OF less.prems(1)] less.prems(2) i(1) ph] by metis
    define e :: "'a event" where "e = next_move 0 0 i (phase_of (handlers ?F) i) (bd_leg (bodies ?F ! i))"
    have s: "whole_step E ws ?cfg (Outside e) W = Some (W\<lparr>site := F'\<rparr>)"
      using F'(1) next_move_outside[of 0 0 i] by (simp add: e_def del: happen.simps)
    have less': "to_go F' < to_go ?F" using to_go_less[OF i(1) F'(2,3,5)] .
    then obtain ds W' where "length ds \<le> to_go F'" "whole_steps E ws ?cfg ds (W\<lparr>site := F'\<rparr>) = Some W'" "to_go (site W') = 0"
        "length (bodies (site W')) = length (bodies F')" "thread_at W' = thread_at W"
      using less.hyps[of "W\<lparr>site := F'\<rparr>"] whole_run.did[OF less.prems(1) s] F'(4) by auto
    then show ?thesis using s less' F'(5) by (intro exI[of _ "Outside e # ds"] exI[of _ W']) (simp del: whole_step.simps)
  qed
qed

lemma publisher_quits:
  assumes "stopping (site W)"
  obtains ds W' where "whole_steps E ws cfg ds W = Some W'" "length ds \<le> 1" "thread_at W' = Thread_ended" "stopping (site W')"
    "to_go (site W') = to_go (site W)" "length (bodies (site W')) = length (bodies (site W))"
proof (cases "thread_at W = Thread_ended")
  case True
  then show ?thesis using that[of "[]" W] assms by simp
next
  case False
  obtain F' where q: "whole_step E ws cfg (Quit 0) W = Some \<lparr>site = F', thread_at = Thread_ended\<rparr>"
      "F' = drop_receiver (site W) \<or> (\<exists>m. F' = drop_receiver (store_manager (Some m) (site W)))"
    using False assms by (cases "thread_at W") (auto simp: Let_def)
  have "stopping F' = stopping (site W)" "bodies F' = bodies (site W)" "tasks (handlers F') = tasks (handlers (site W))"
    using q(2) by (auto simp: drop_receiver_def store_manager_def Let_def)
  then show ?thesis using that[of "[Quit 0]" "\<lparr>site = F', thread_at = Thread_ended\<rparr>"] q(1) assms
    by (simp add: to_go_def far_def del: whole_step.simps)
qed

section \<open>What can be observed of the proxy\<close>

text \<open>A move of the proxy, labelled with what changed for an observer. Every run has such a trace.\<close>

definition whole_move :: "ext \<Rightarrow> 'u ws_send \<Rightarrow> session_config \<Rightarrow> 'u whole \<Rightarrow> entry list \<Rightarrow> 'u whole \<Rightarrow> bool" where
  "whole_move E ws cfg W es W' \<longleftrightarrow> (\<exists>d. whole_step E ws cfg d W = Some W') \<and> es = visible (site W) (site W')"

lemma whole_run_traces: "whole_run E ws cfg W0 W \<longleftrightarrow> (\<exists>es. traces (whole_move E ws cfg) W0 es W)"
proof
  show "whole_run E ws cfg W0 W \<Longrightarrow> \<exists>es. traces (whole_move E ws cfg) W0 es W"
  proof (induction rule: whole_run.induct)
    case (did W d W')
    then obtain es where "traces (whole_move E ws cfg) W0 es W" by blast
    moreover have "whole_move E ws cfg W (visible (site W) (site W')) W'" using did.hyps(2) unfolding whole_move_def by blast
    ultimately show ?case by (blast intro: traces.then_moves)
  qed (blast intro: traces.still)
  have "traces (whole_move E ws cfg) W0 es W \<Longrightarrow> whole_run E ws cfg W0 W" for es
  proof (induction rule: traces.induct)
    case (then_moves es W fs W')
    then show ?case using whole_run.did unfolding whole_move_def by blast
  qed (rule whole_run.idle)
  then show "\<exists>es. traces (whole_move E ws cfg) W0 es W \<Longrightarrow> whole_run E ws cfg W0 W" by blast
qed

lemma store_manager_looks: "looks_like (store_manager m F) F"
  by (simp add: looks_like_def store_manager_def split: option.split)

lemma hub_out_looks:
  assumes "agreed F" "one_command (hub_in F k p) p'"
  obtains "looks_like (hub_out p' F) F" | cp req where "looks_like (hub_out p' F) (snd (deliver cp req F))"
proof (cases "pub_router p")
  case None
  then have "hub_out p' F = store_manager (shared_manager p') F" using assms(2) by (auto simp: one_command_def hub_in_def hub_out_def)
  then show ?thesis using that(1) store_manager_looks by metis
next
  case (Some router)
  then consider "pub_router p' = Some (router_view F)"
    | cp req where "pub_router p' = Some (snd (dispatch try_send cp req (router_view F)))"
    using assms(2) by (auto simp: one_command_def hub_in_def)
  then show ?thesis
  proof cases
    case 1
    then have "hub_out p' F = store_manager (shared_manager p') F" by (simp add: hub_out_def store_channels_same)
    then show ?thesis using that(1) store_manager_looks by metis
  next
    case (2 cp req)
    then have "hub_out p' F = store_manager (shared_manager p') (snd (deliver cp req F))"
      by (simp add: hub_out_def store_channels_dispatch[OF assms(1)])
    then show ?thesis using that(2) store_manager_looks by metis
  qed
qed

lemma looks_like_trace:
  "looks_like F' F \<Longrightarrow> traces ledger_step (fleet_books F) (visible F F') (fleet_books F')"
  by (simp add: looks_like_same[of F' F] visible_self traces.still)

lemma hub_out_ledger:
  assumes "agreed F" "one_command (hub_in F k p) p'"
  shows "traces ledger_step (fleet_books F) (visible F (hub_out p' F)) (fleet_books (hub_out p' F))"
  using hub_out_looks[OF assms]
proof cases
  case (2 cp req)
  then show ?thesis using deliver_ledger[OF assms(1), of cp req] by (simp add: looks_like_same[OF 2])
qed (rule looks_like_trace)

lemma drop_receiver_looks: "looks_like (drop_receiver F) F" "looks_like (drop_receiver (store_manager m F)) F"
  by (simp_all add: looks_like_def drop_receiver_def store_manager_def Let_def split: option.split)

lemma take_event_looks: "looks_like (take_event F) F"
  by (simp add: looks_like_def take_event_def Let_def)

lemma whole_step_ledger:
  assumes ok: "agreed (site W)" and d: "whole_step E ws cfg d W = Some W'"
  shows "traces ledger_step (fleet_books (site W)) (visible (site W) (site W')) (fleet_books (site W'))"
proof (cases d)
  case (Outside e)
  then obtain F where "happen E ws cfg e (site W) = Some F" "W' = W\<lparr>site := F\<rparr>" using d by (auto split: if_splits)
  then show ?thesis using happen_ledger[OF ok] by simp
next
  case (Begin_connect now)
  then obtain p where p: "site W' = hub_out (set_state now Connecting (hub_in (site W) (room (client p)) p)) (site W)"
    using d by (auto simp: Let_def split: thread.splits)
  have "one_command q (set_state now Connecting q)" for q by (simp add: set_state_def)
  then show ?thesis unfolding p using hub_out_ledger[OF ok] by blast
next
  case (Attempt now k remaining out)
  then obtain p r where r: "connect_attempts E channel_api now [(remaining, out)] (hub_in (site W) k p) = Some r" "W' = after_attempt r (site W)"
    using d by (auto split: thread.splits)
  then have "site W' = hub_out (attempted r) (site W)" by (cases r) (simp_all add: after_attempt_def)
  then show ?thesis using hub_out_ledger[OF ok] attempt_once[OF r(1)] by metis
next
  case (Poll_broker now k out)
  then obtain p p' where p: "run_step E channel_api now (Poll out) (hub_in (site W) k p) = Some (Some p')" "site W' = hub_out p' (site W)"
    using d by (auto split: thread.splits option.splits)
  show ?thesis unfolding p(2) by (rule hub_out_ledger[OF ok one_command_poll[OF p(1)]])
next
  case (Take_event now)
  let ?F = "site W"
  obtain p p' where p: "consumed ?F < length (passed (ds_mqtt_tx (shared (handlers ?F))))"
      "p' = handle_event E channel_api now (passed (ds_mqtt_tx (shared (handlers ?F))) ! consumed ?F) (hub_in ?F (room (client p)) p)"
      "site W' = hub_out p' (take_event ?F)"
    using d Take_event by (auto simp: Let_def split: thread.splits if_splits)
  have "agreed (take_event ?F)" using happen_agreed[OF ok take_event_happens[OF p(1)]] .
  then show ?thesis
    using hub_out_ledger[of "take_event ?F" "room (client p)" p p'] one_command_event
    unfolding p(2,3) take_event_hub looks_like_same(1,3)[OF take_event_looks] by blast
next
  case (Quit now)
  then have "site W' = drop_receiver (site W) \<or> (\<exists>m. site W' = drop_receiver (store_manager m (site W)))"
    using d by (cases "thread_at W") (auto simp: Let_def split: if_splits)
  then show ?thesis using looks_like_trace drop_receiver_looks by metis
qed

lemma whole_step_agreed: "agreed (site W) \<Longrightarrow> whole_step E ws cfg d W = Some W' \<Longrightarrow> agreed (site W')"
  using whole_step_happens[of W E ws cfg d W'] happens_run[OF _ fleet_run.idle] agreement.run_keeps by metis

interpretation whole_ledger: simulation "\<lambda>W. agreed (site W)" "whole_move E ws cfg" ledger_step "\<lambda>W. fleet_books (site W)" for E ws cfg
  by unfold_locales (auto simp: whole_move_def simp del: whole_step.simps intro: whole_step_agreed whole_step_ledger)

lemma whole_start_books:
  fixes W :: "'u whole"
  assumes "W = whole_start px"
  shows "agreed (site W)" "fleet_books (site W) = unopened"
proof -
  have "bodies (site W) = []" "tasks (handlers (site W)) = []" "ds_router (shared (handlers (site W))) = Map.empty"
    by (simp_all add: assms whole_start_def fleet_new_def drop_receiver_def Let_def split: sum.split)
  then show "agreed (site W)" "fleet_books (site W) = unopened"
    by (simp_all add: agreed_def sessions_ok_def router_ok_def fleet_books_def)
qed

section \<open>Properties\<close>

text \<open>
  C1: The proxy implements the ledger of commands: what an observer sees of it is a trace of the specification. Whatever
  the sessions of any number of chargers do, with connections of one charger overlapping, displaced or shut down, and
  whatever the publisher's thread does from its start-up connect to its end, in any interleaving, the sequence of what can be
  observed (a connection opens, the router accepts a command for it, a command is answered to the event channel, a session goes
  into its teardown's wait, a session returns) is one the ledger can produce: commands are taken in the order they were accepted;
  only a command that was taken is answered, for its own charger and once; no session shuts before it has taken and answered
  all that the router had accepted for it; and what is accepted after that is never answered. An answer counts when it
  is handed to the event channel, which may refuse it when it is full.
\<close>

theorem proxy_implements_ledger:
  assumes "traces (whole_move E ws cfg) (whole_start px) es W"
  shows "traces ledger_step unopened es (fleet_books (site W))"
proof -
  have "agreed (site (whole_start px :: 'a whole))" "fleet_books (site (whole_start px :: 'a whole)) = unopened"
    using whole_start_books[OF refl] by blast+
  then show ?thesis using whole_ledger.trace_included[OF assms] by simp
qed

text \<open>
  C26: A stopped proxy, with a maximal backoff below \<open>2^52\<close> seconds, can always come to rest. From every state it can reach with its token set, the publisher's thread
  ends at once, and every handler, wherever it and its session stand, ends by at most twelve steps
  of its own, a pending connection attempt failing; then the table and the router are empty and no session holds a command.
\<close>

theorem stopped_proxy_can_rest:
  assumes "main_start E read mk P d loaded = Inr px" "max_backoff_seconds (buffers (px_config px)) < 2 ^ 52"
    and "whole_run E ws (px_session px) (whole_start px) W" "stopping (site W)"
  shows "\<exists>ds W'. whole_steps E ws (px_session px) ds W = Some W' \<and> length ds \<le> 12 * length (bodies (site W)) + 1
    \<and> thread_at W' = Thread_ended \<and> length (bodies (site W')) = length (bodies (site W))
    \<and> (\<forall>i < length (bodies (site W')). phase_of (handlers (site W')) i = Closed_down)
    \<and> connections (shared (handlers (site W'))) = Map.empty \<and> ds_router (shared (handlers (site W'))) = Map.empty
    \<and> (\<forall>b \<in> set (bodies (site W')). bd_leg b = Returned_leg \<and> held_ids b = {#})"
proof -
  obtain qs W1 where q: "whole_steps E ws (px_session px) qs W = Some W1" "length qs \<le> 1" "thread_at W1 = Thread_ended" "stopping (site W1)"
      "to_go (site W1) = to_go (site W)" "length (bodies (site W1)) = length (bodies (site W))"
    using publisher_quits[OF assms(4)] .
  note run1 = whole_steps_run[OF q(1) assms(3)]
  obtain ds W' where d: "length ds \<le> to_go (site W1)" "whole_steps E ws (px_session px) ds W1 = Some W'" "to_go (site W') = 0"
      "length (bodies (site W')) = length (bodies (site W1))" "thread_at W' = thread_at W1"
    using handlers_rest[OF assms(1,2) run1 q(4)] by blast
  note run' = whole_steps_run[OF d(2) run1]
  have "whole_steps E ws (px_session px) (qs @ ds) W = Some W'"
    using q(1) d(2) by (induction qs arbitrary: W) (auto simp del: whole_step.simps split: option.splits)
  moreover have "length (qs @ ds) \<le> 12 * length (bodies (site W)) + 1" using q(2,5) d(1) to_go_le[of "site W"] by simp
  moreover have e: "\<forall>i < length (bodies (site W')). phase_of (handlers (site W')) i = Closed_down" using to_go_0[OF d(3)] by blast
  ultimately show ?thesis using all_ended[OF run_keeps_sites(1,2)[OF run'] e] q(3,6) d(4,5) by metis
qed

section \<open>A command while two connections overlap\<close>

abbreviation demo_cfg :: session_config where
  "demo_cfg \<equiv> px_session (demo_px demo_ext)"

abbreviation demo_run :: "unit whole \<Rightarrow> bool" where
  "demo_run \<equiv> whole_run demo_ext demo_ws demo_cfg (whole_start (demo_px demo_ext))"

lemma demo_calm: "max_backoff_seconds (buffers (px_config (demo_px demo_ext))) < 2 ^ 52"
  by (simp add: demo_px_parts demo_commands_config_def demo_proxy_config_def buffer_config_default_def default_max_backoff_def)

lemma demo_command_arrives:
  assumes "demo_run \<lparr>site = F, thread_at = Thread_looping p\<rparr>" "pub_router p \<noteq> None"
    and "ds_router (shared (handlers F)) = [''CP1'' \<mapsto> \<lparr>generation = 2, tx = 1\<rparr>]"
    and "bd_chan (bodies F ! 1) = channel_new COMMAND_CHANNEL_CAPACITY"
  obtains p1 where "demo_run \<lparr>site = snd (deliver ''CP1'' demo_clear F), thread_at = Thread_looping p1\<rparr>"
    "whole_move demo_ext demo_ws demo_cfg \<lparr>site = F, thread_at = Thread_looping p\<rparr> (visible F (snd (deliver ''CP1'' demo_clear F)))
       \<lparr>site = snd (deliver ''CP1'' demo_clear F), thread_at = Thread_looping p1\<rparr>"
proof -
  let ?W = "\<lparr>site = F, thread_at = Thread_looping p\<rparr>"
  obtain p1 where "whole_step demo_ext demo_ws demo_cfg (Poll_broker 5 10 (PollPublish ''ocpp/CP1/command/current_limit'' ''off'')) ?W
      = Some \<lparr>site = snd (deliver ''CP1'' demo_clear F), thread_at = Thread_looping p1\<rparr>"
    using poll_delivers[of ?W p "''CP1''" 2 1 _ _ demo_ext 5 _ demo_clear demo_ws demo_cfg 10, OF _ _ _ _ _ _ demo_clear_parsed]
      run_keeps_sites(1)[OF assms(1)] assms(2-4) by (auto simp: channel_new_def COMMAND_CHANNEL_CAPACITY_def)
  note poll = this
  have "whole_move demo_ext demo_ws demo_cfg ?W (visible F (snd (deliver ''CP1'' demo_clear F)))
      \<lparr>site = snd (deliver ''CP1'' demo_clear F), thread_at = Thread_looping p1\<rparr>"
    unfolding whole_move_def using poll by (metis whole.select_convs(1))
  then show ?thesis using that whole_run.did[OF assms(1) poll] by blast
qed

lemma demo_delivered:
  assumes "ds_router (shared (handlers F)) = [''CP1'' \<mapsto> \<lparr>generation = 2, tx = 1\<rparr>]"
    and "bd_chan (bodies F ! 1) = channel_new COMMAND_CHANNEL_CAPACITY"
  shows "snd (deliver ''CP1'' demo_clear F)
    = F\<lparr>bodies := (bodies F)[1 := (bodies F ! 1)\<lparr>bd_chan := snd (try_send (channel_new COMMAND_CHANNEL_CAPACITY) demo_clear)\<rparr>]\<rparr>"
  by (rule deliver_cases[of F "''CP1''" demo_clear]) (use assms in simp_all)

theorem proxy_implements_ledger_witness:
  "\<exists>es W. traces (whole_move demo_ext demo_ws demo_cfg) (whole_start (demo_px demo_ext)) (es @ [Accepts 1 (req_id demo_clear)]) W
     \<and> traces ledger_step unopened (es @ [Accepts 1 (req_id demo_clear)]) (fleet_books (site W))
     \<and> awaiting (fleet_books (site W) 1) = [req_id demo_clear]"
proof -
  obtain p m where W: "demo_run \<lparr>site = store_manager (Some m) (demo_site demo_ext demo_cfg), thread_at = Thread_looping p\<rparr>"
      "pub_router p = Some (router_view (demo_site demo_ext demo_cfg))"
    using demo_looping .
  let ?F = "store_manager (Some m) (demo_site demo_ext demo_cfg)"
  have F: "ds_router (shared (handlers ?F)) = [''CP1'' \<mapsto> \<lparr>generation = 2, tx = 1\<rparr>]" "bodies ?F = bodies (demo_site demo_ext demo_cfg)"
    by (simp_all add: store_manager_def demo_site_def demo_overlap_facts(7))
  have b: "bd_chan (bodies ?F ! 1) = channel_new COMMAND_CHANNEL_CAPACITY" "length (bodies ?F) = 2" "bd_leg (bodies ?F ! 1) = In_loop"
      "bd_taken (bodies ?F ! 1) = 0"
    unfolding F(2) by (simp_all add: demo_site_def demo_overlap_lengths demo_overlap_nth[unfolded One_nat_def])
  let ?F1 = "snd (deliver ''CP1'' demo_clear ?F)"
  obtain p1 where move: "whole_move demo_ext demo_ws demo_cfg \<lparr>site = ?F, thread_at = Thread_looping p\<rparr> (visible ?F ?F1) \<lparr>site = ?F1, thread_at = Thread_looping p1\<rparr>"
    using demo_command_arrives[OF W(1) _ F(1) b(1)] W(2) by auto
  have F1: "bodies ?F1 = (bodies ?F)[1 := (bodies ?F ! 1)\<lparr>bd_chan := snd (try_send (channel_new COMMAND_CHANNEL_CAPACITY) demo_clear)\<rparr>]"
      "heard ?F1 = heard ?F @ []"
    unfolding demo_delivered[OF F(1) b(1)] by simp_all
  have "visible ?F ?F1 = [Accepts 1 (req_id demo_clear)]"
    using b by (subst visible_body[OF F1(1) _ F1(2)])
      (simp_all add: answers_in_def try_send_def channel_new_def newly_def COMMAND_CHANNEL_CAPACITY_def)
  moreover obtain es where "traces (whole_move demo_ext demo_ws demo_cfg) (whole_start (demo_px demo_ext)) es \<lparr>site = ?F, thread_at = Thread_looping p\<rparr>"
    using W(1) whole_run_traces by blast
  ultimately have t: "traces (whole_move demo_ext demo_ws demo_cfg) (whole_start (demo_px demo_ext)) (es @ [Accepts 1 (req_id demo_clear)])
      \<lparr>site = ?F1, thread_at = Thread_looping p1\<rparr>"
    using move traces.then_moves by metis
  have "awaiting (fleet_books ?F1 1) = [req_id demo_clear]"
    using b by (simp add: fleet_books_def body_account_def unread_def F1(1) try_send_def channel_new_def COMMAND_CHANNEL_CAPACITY_def)
  then show ?thesis using proxy_implements_ledger[OF t] t by (intro exI[of _ es] exI[of _ "\<lparr>site = ?F1, thread_at = Thread_looping p1\<rparr>"]) simp
qed

theorem stopped_proxy_can_rest_witness:
  "\<exists>W W' ds. demo_run W \<and> length (bodies (site W)) = 2 \<and> bd_leg (bodies (site W) ! 1) = In_loop
     \<and> whole_steps demo_ext demo_ws demo_cfg ds W = Some W' \<and> length ds \<le> 25
     \<and> connections (shared (handlers (site W'))) = Map.empty \<and> bd_leg (bodies (site W') ! 1) = Returned_leg"
proof -
  let ?F = "demo_site demo_ext demo_cfg"
  let ?W = "\<lparr>site = ?F\<lparr>stopping := True\<rparr>, thread_at = Thread_built (demo_hub demo_ext)\<rparr>"
  have "whole_step demo_ext demo_ws demo_cfg (Outside Stop) \<lparr>site = ?F, thread_at = Thread_built (demo_hub demo_ext)\<rparr> = Some ?W" by simp
  from whole_run.did[OF demo_site_run this] have run: "demo_run ?W" .
  have two: "length (bodies (site ?W)) = 2" "bd_leg (bodies (site ?W) ! 1) = In_loop"
    by (simp_all add: demo_site_def demo_overlap_lengths demo_overlap_nth[unfolded One_nat_def])
  obtain ds W' where "whole_steps demo_ext demo_ws demo_cfg ds ?W = Some W'" "length ds \<le> 12 * length (bodies (site ?W)) + 1"
      "length (bodies (site W')) = length (bodies (site ?W))" "connections (shared (handlers (site W'))) = Map.empty"
      "\<forall>b \<in> set (bodies (site W')). bd_leg b = Returned_leg \<and> held_ids b = {#}"
    using stopped_proxy_can_rest[OF demo_px_started demo_calm run] by auto
  moreover from this have "bodies (site W') ! 1 \<in> set (bodies (site W'))" using two(1) by simp
  ultimately show ?thesis using run two by (intro exI[of _ ?W] exI[of _ W'] exI[of _ ds]) (simp del: whole_steps.simps)
qed

text \<open>The charger of the connection that leads closes it; its session is in the wait of its teardown.\<close>

lemma demo_closing:
  assumes F: "F = store_manager (Some m) (demo_site demo_ext demo_cfg)"
  obtains F1 where "happens demo_ext demo_ws demo_cfg [Turn 1 (HandleLoop 4 0 (FromCharger CEnd))] F = Some F1"
    "ds_router (shared (handlers F1)) = [''CP1'' \<mapsto> \<lparr>generation = 2, tx = 1\<rparr>]" "bd_chan (bodies F1 ! 1) = channel_new COMMAND_CHANNEL_CAPACITY"
    "length (bodies F1) = 2" "phase_of (handlers F1) 1 = Running 2" "bd_leg (bodies F1 ! 1) = Closing" "bd_taken (bodies F1 ! 1) = 0"
    "map bd_taken (bodies F1) = [0, 0]"
proof -
  have f: "ds_router (shared (handlers F)) = [''CP1'' \<mapsto> \<lparr>generation = 2, tx = 1\<rparr>]" "length (bodies F) = 2"
      "phase_of (handlers F) 1 = Running 2" "bd_leg (bodies F ! 1) = In_loop" "bd_chan (bodies F ! 1) = channel_new COMMAND_CHANNEL_CAPACITY"
      "bd_taken (bodies F ! 1) = 0"
    unfolding F store_manager_def
    by (simp_all add: demo_site_def demo_overlap_facts(7) demo_overlap_lengths demo_overlap_nth[unfolded One_nat_def])
  let ?s = "wind_down demo_ext 4 (unread (bodies F ! 1)) (attach 1 F)"
  let ?F1 = "detach 1 (Closing, length (unread (bodies F ! 1)), bd_uplink (bodies F ! 1), ?s) F"
  have u: "unread (bodies F ! 1) = []" using f(5,6) by (simp add: unread_def channel_new_def)
  have "session_turn demo_ext demo_ws demo_cfg (sender_dropped 1 F) (unread (bodies F ! 1)) In_loop (bd_uplink (bodies F ! 1)) (attach 1 F)
      (HandleLoop 4 0 (FromCharger CEnd)) = Some (Closing, length (unread (bodies F ! 1)), bd_uplink (bodies F ! 1), ?s)"
    by (simp add: loop_turn_def loop_step_def from_charger_def break_off_def)
  then have h: "happens demo_ext demo_ws demo_cfg [Turn 1 (HandleLoop 4 0 (FromCharger CEnd))] F = Some ?F1"
    using f(2-4) by (simp del: session_turn.simps)
  have g: "bodies ?F1 ! 1 = \<lparr>bd_sess = ?s, bd_uplink = bd_uplink (bodies F ! 1), bd_leg = Closing, bd_taken = 0,
      bd_chan = channel_new COMMAND_CHANNEL_CAPACITY\<rparr>"
    using f(2,5,6) u by (simp add: detach_def Let_def channel_new_def)
  have "map bd_taken (bodies F) = [0, 0]" unfolding F store_manager_def by (simp add: demo_site_def demo_overlap_facts(9))
  then have "map bd_taken (bodies ?F1) = [0, 0]" using f(6) u by (simp add: detach_def Let_def map_update)
  then show ?thesis by (intro that[OF h]) (use f g in simp_all)
qed

lemma nothing_taken:
  assumes "accounts_ok F" "\<forall>b \<in> set (bodies F). taken_ids b = {#}"
  shows "answered cp (ds_mqtt_tx (shared (handlers F))) = {#}"
proof -
  have "map (\<lambda>(b, t). if task_cp t = cp then taken_ids b else {#}) (zip (bodies F) (tasks (handlers F)))
      = map (\<lambda>_. {#}) (zip (bodies F) (tasks (handlers F)))"
    using assms(2) by (auto dest: set_zip_leftD)
  then have "tally taken_ids cp F = {#}" unfolding tally_def by (simp only: sum_list_0)
  then show ?thesis using assms(1) by (auto simp: accounts_ok_def)
qed

text \<open>
  C38: A command that arrives between the end of a session's teardown and the removal of its registration is accepted by
  the router and never answered: there is a run of the proxy after which the handler has ended, its session has returned,
  the command is still in the channel nobody reads, and nothing was answered.
\<close>

theorem late_command_lost:
  "\<exists>W. demo_run W \<and> phase_of (handlers (site W)) 1 = Closed_down \<and> bd_leg (bodies (site W) ! 1) = Returned_leg
     \<and> unread (bodies (site W) ! 1) = [demo_clear] \<and> answered ''CP1'' (ds_mqtt_tx (shared (handlers (site W)))) = {#}"
proof -
  obtain p m where W: "demo_run \<lparr>site = store_manager (Some m) (demo_site demo_ext demo_cfg), thread_at = Thread_looping p\<rparr>"
      "pub_router p = Some (router_view (demo_site demo_ext demo_cfg))"
    using demo_looping .
  obtain F1 where F1: "happens demo_ext demo_ws demo_cfg [Turn 1 (HandleLoop 4 0 (FromCharger CEnd))] (store_manager (Some m) (demo_site demo_ext demo_cfg)) = Some F1"
    and r: "ds_router (shared (handlers F1)) = [''CP1'' \<mapsto> \<lparr>generation = 2, tx = 1\<rparr>]" "bd_chan (bodies F1 ! 1) = channel_new COMMAND_CHANNEL_CAPACITY"
    and b: "length (bodies F1) = 2" "phase_of (handlers F1) 1 = Running 2" "bd_leg (bodies F1 ! 1) = Closing" "bd_taken (bodies F1 ! 1) = 0"
      "map bd_taken (bodies F1) = [0, 0]"
    using demo_closing[OF refl] by metis
  have run1: "demo_run \<lparr>site = F1, thread_at = Thread_looping p\<rparr>" by (rule outside_run[OF F1 _ W(1)]) simp
  define F2 where "F2 = snd (deliver ''CP1'' demo_clear F1)"
  obtain p1 where run2: "demo_run \<lparr>site = F2, thread_at = Thread_looping p1\<rparr>"
    using demo_command_arrives[OF run1 _ r] W(2) unfolding F2_def by auto
  have len: "length (tasks (handlers F1)) = 2" using agreed_length run_keeps_sites(1)[OF run1] b(1) by fastforce
  have b2: "1 < length (bodies F2)" "phase_of (handlers F2) 1 = Running 2" "bd_leg (bodies F2 ! 1) = Closing" "unread (bodies F2 ! 1) = [demo_clear]"
      "1 < length (tasks (handlers F2))"
    using b len unfolding F2_def demo_delivered[OF r]
    by (simp_all add: unread_def try_send_def channel_new_def COMMAND_CHANNEL_CAPACITY_def)
  obtain F3 w where F3: "F3 = detach 1 (Returned_leg, 0, bd_uplink (bodies F2 ! 1), set_upstream_state 6 Disconnected (attach 1 F2)) F2"
      "w = perform 6 (Advance 1) (perform 6 (Advance 1) (perform 6 (Advance 1) (perform 6 (Advance 1) (handlers F3))))"
      "happens demo_ext demo_ws demo_cfg (sign_off 1 6) F2 = Some (F3\<lparr>handlers := w\<rparr>)"
    using sign_off_happens[OF b2(1-3)] by metis
  let ?W = "\<lparr>site = F3\<lparr>handlers := w\<rparr>, thread_at = Thread_looping p1\<rparr>"
  have run: "demo_run ?W" by (rule outside_run[OF F3(3) _ run2]) (simp add: sign_off_def)
  have f3: "bd_leg (bodies F3 ! 1) = Returned_leg" "unread (bodies F3 ! 1) = [demo_clear]" "1 < length (tasks (handlers F3))"
      "phase_of (handlers F3) 1 = Running 2"
    using b2 by (simp_all add: F3(1) detach_nth del: One_nat_def)
  have out: "phase_of w 1 = Closed_down" by (rule walk_out(1)[OF f3(3,4) F3(2)])
  have "map bd_taken (bodies F3) = [0, 0]"
    using b(1,4,5) unfolding F3(1) F2_def demo_delivered[OF r] by (simp add: detach_def Let_def map_update)
  then have "set (map bd_taken (bodies F3)) = {0}" by simp
  then have "\<forall>b \<in> set (bodies F3). bd_taken b = 0" by fastforce
  then have "\<forall>b \<in> set (bodies F3). taken_ids b = {#}" by (simp add: taken_ids_def)
  then have "answered ''CP1'' (ds_mqtt_tx (shared w)) = {#}"
    using nothing_taken[of "F3\<lparr>handlers := w\<rparr>" "''CP1''"] run_keeps_sites(3)[OF run] by simp
  then show ?thesis using run f3(1,2) out by (intro exI[of _ ?W]) simp
qed

end
