(* ===== verification/Fleet_Properties.thy ===== *)
theory Fleet_Properties
  imports Fleet_Example Fleet_End
begin

text \<open>
  The properties of overlapping connections: who leads, where commands go, how a session ends when its token is
  cancelled, and what a displaced session does to the shared state.
\<close>

section \<open>A charger that connects and takes over from itself\<close>

definition demo_manager :: state_manager where
  "demo_manager = transition 0 Mqtt Connected (set_listener_bound True manager_new)"

lemmas demo_run_simps = overlap_simps demo_manager_def transition_def manager_new_def set_listener_bound_def

abbreviation demo_twice :: "unit fleet" where
  "demo_twice \<equiv> demo_overlap demo_ext demo_settings demo_manager"

lemma demo_twice_run: "fleet_run demo_ext demo_ws demo_settings (fleet_new demo_manager) demo_twice"
  by (rule demo_overlap_run)

section \<open>Sums over connections\<close>

lemma tally_delivered:
  assumes "accounts_ok F"
  shows "tally delivered_ids cp F = answered cp (ds_mqtt_tx (shared (handlers F))) + tally held_ids cp F + tally unread_ids cp F"
proof -
  have "delivered_ids b = taken_ids b + unread_ids b" for b :: "'a body"
    unfolding delivered_ids_def taken_ids_def unread_ids_def unread_def by (metis append_take_drop_id ids_simps(2))
  then have "tally delivered_ids cp F = tally taken_ids cp F + tally unread_ids cp F"
    unfolding tally_def by (simp add: sum_list_addf[symmetric] case_prod_unfold if_distrib cong: if_cong)
  then show ?thesis using assms by (simp add: accounts_ok_def)
qed

lemma tally_empty:
  assumes "\<And>j. j < length (bodies F) \<Longrightarrow> j < length (tasks (handlers F)) \<Longrightarrow> task_cp (tasks (handlers F) ! j) = cp \<Longrightarrow> f (bodies F ! j) = {#}"
  shows "tally f cp F = {#}"
proof -
  have "sum_list xs = {#}" if "\<forall>x \<in> set xs. x = {#}" for xs :: "string multiset list" using that by (induction xs) simp_all
  moreover have "\<forall>x \<in> set (map (\<lambda>(b, t). if task_cp t = cp then f b else {#}) (zip (bodies F) (tasks (handlers F)))). x = {#}"
    using assms by (auto simp: set_zip)
  ultimately show ?thesis unfolding tally_def by blast
qed

lemma tally_member:
  assumes "i < length (bodies F)" "i < length (tasks (handlers F))" "task_cp (tasks (handlers F) ! i) = cp"
  shows "f (bodies F ! i) \<subseteq># tally f cp F"
proof -
  have "xs ! k \<subseteq># sum_list xs" if "k < length xs" for xs :: "string multiset list" and k
    using that by (induction xs arbitrary: k) (auto simp: nth_Cons split: nat.split intro: subset_mset.add_increasing)
  from this[of i "map (\<lambda>(b, t). if task_cp t = cp then f b else {#}) (zip (bodies F) (tasks (handlers F)))"]
  show ?thesis unfolding tally_def using assms by simp
qed

lemma ended_holds_nothing: "agreed F \<Longrightarrow> i < length (bodies F) \<Longrightarrow> ended (bd_leg (bodies F ! i)) \<Longrightarrow> held_ids (bodies F ! i) = {#}"
  using agreed_fits[of F i] by (auto simp: in_step_def ended_def held_ids_def)

section \<open>Properties\<close>

text \<open>
  C10: At most one connection of a charger leads. However many overlap and however their handlers and sessions
  interleave, a connection that has entered the table, has not left it and whose token is not set is the one the table
  holds, so that every other connection of that charger in the same part of its life has been told to stop.
\<close>

theorem one_connection_leads:
  assumes "fleet_run E ws cfg (fleet_new m) F" "length (tasks (handlers F)) < 2 ^ 64"
    and "i < length (tasks (handlers F))" "in_table (phase_of (handlers F) i) = Some g" "\<not> token_set i F"
  shows "connections (shared (handlers F)) (task_cp (tasks (handlers F) ! i)) = Some \<lparr>ac_generation = g, ac_cancel = i\<rparr>
    \<and> (\<forall>j < length (tasks (handlers F)). j \<noteq> i \<and> task_cp (tasks (handlers F) ! j) = task_cp (tasks (handlers F) ! i)
         \<and> in_table (phase_of (handlers F) j) \<noteq> None \<longrightarrow> token_set j F)"
proof -
  have ok: "takeover_ok (handlers F)" using table_law.run_keeps[OF assms(1) fleet_new_ok(1)] .
  note lead = takeover_leader[OF ok assms(2)]
  have i: "connections (shared (handlers F)) (task_cp (tasks (handlers F) ! i)) = Some \<lparr>ac_generation = g, ac_cancel = i\<rparr>"
    using lead[OF assms(3,4)] assms(5) by (simp add: token_set_def)
  then show ?thesis using lead by (fastforce simp: token_set_def)
qed

theorem one_connection_leads_witness:
  "connections (shared (handlers demo_twice)) ''CP1'' = Some \<lparr>ac_generation = 2, ac_cancel = 1\<rparr> \<and> token_set 0 demo_twice"
proof -
  have "\<not> token_set 1 demo_twice" using demo_overlap_facts(5) by (simp add: demo_overlap_def token_set_def demo_run_simps)
  then show ?thesis
    using one_connection_leads[OF demo_twice_run, of 1 2]
    by (auto simp: demo_overlap_nth[unfolded One_nat_def] demo_overlap_lengths dest: spec[of _ "0 :: nat"])
qed

text \<open>
  C11: A takeover loses no command that a session was handed while it served. Between any two points of a run, over all
  connections a charger ever had, overlapping or not: the ids the router put into their channels are those answered, those
  a session holds and those still unread; a session that served at the first point and has since come to its teardown's wait
  or returned has received every command the router had accepted for it, in order, and holds none; so once no session of
  the charger serves any more, every one of those commands is answered. Answered means handed to the event channel. A command accepted after
  that session's teardown has read its channel out is the subject of C38.
\<close>

theorem takeover_conserves_commands:
  assumes "fleet_run E ws cfg (fleet_new m) F" "fleet_run E ws cfg F F'"
  shows "tally delivered_ids cp F'
      = answered cp (ds_mqtt_tx (shared (handlers F'))) + tally held_ids cp F' + tally unread_ids cp F'
    \<and> (\<forall>i < length (bodies F). \<not> ended (bd_leg (bodies F ! i)) \<and> ended (bd_leg (bodies F' ! i)) \<longrightarrow>
         held_ids (bodies F' ! i) = {#}
         \<and> prefix (passed (bd_chan (bodies F ! i))) (take (bd_taken (bodies F' ! i)) (passed (bd_chan (bodies F' ! i))))
         \<and> ((\<forall>j < length (bodies F'). task_cp (tasks (handlers F') ! j) = task_cp (tasks (handlers F') ! i) \<longrightarrow> ended (bd_leg (bodies F' ! j)))
            \<longrightarrow> delivered_ids (bodies F ! i) \<subseteq># answered (task_cp (tasks (handlers F') ! i)) (ds_mqtt_tx (shared (handlers F')))))"
proof (intro conjI allI impI)
  have ag: "agreed F" using agreement.run_keeps[OF assms(1) fleet_new_ok(3)] .
  have ok: "accounts_ok F'" using account.run_keeps[OF assms(2) account.run_keeps[OF assms(1) fleet_new_ok(2)]] .
  then have ag': "agreed F'" by (simp add: accounts_ok_def)
  show "tally delivered_ids cp F' = answered cp (ds_mqtt_tx (shared (handlers F'))) + tally held_ids cp F' + tally unread_ids cp F'"
    by (rule tally_delivered[OF ok])
  fix i assume i: "i < length (bodies F)" and e: "\<not> ended (bd_leg (bodies F ! i)) \<and> ended (bd_leg (bodies F' ! i))"
  have m: "i < length (bodies F')" "moved_on (bodies F ! i) (bodies F' ! i)" using run_moves_on[OF ag assms(2)] i by blast+
  show "held_ids (bodies F' ! i) = {#}" using ended_holds_nothing[OF ag' m(1)] e by blast
  show p: "prefix (passed (bd_chan (bodies F ! i))) (take (bd_taken (bodies F' ! i)) (passed (bd_chan (bodies F' ! i))))"
    using m(2) e by (auto simp: moved_on_def prefix_def)
  let ?cp = "task_cp (tasks (handlers F') ! i)"
  assume all: "\<forall>j < length (bodies F'). task_cp (tasks (handlers F') ! j) = ?cp \<longrightarrow> ended (bd_leg (bodies F' ! j))"
  have "tally held_ids ?cp F' = {#}"
    using ended_holds_nothing[OF ag'] all agreed_length[OF ag'] by (intro tally_empty) auto
  then have "tally taken_ids ?cp F' = answered ?cp (ds_mqtt_tx (shared (handlers F')))" using ok by (simp add: accounts_ok_def)
  moreover have "taken_ids (bodies F' ! i) \<subseteq># tally taken_ids ?cp F'" using m(1) agreed_length[OF ag'] by (intro tally_member) auto
  moreover have "delivered_ids (bodies F ! i) \<subseteq># taken_ids (bodies F' ! i)"
    using p by (auto simp: prefix_def delivered_ids_def taken_ids_def)
  ultimately show "delivered_ids (bodies F ! i) \<subseteq># answered ?cp (ds_mqtt_tx (shared (handlers F')))"
    by (metis subset_mset.order_trans)
qed

text \<open>A command arrives while two connections of the charger overlap; then the charger closes the one that leads.\<close>

definition demo_command :: "unit fleet" where
  "demo_command = snd (deliver ''CP1'' demo_clear demo_twice)"

lemma demo_command_run: "fleet_run demo_ext demo_ws demo_settings (fleet_new demo_manager) demo_command"
  using fleet_run.moved[OF demo_twice_run, of "Deliver ''CP1'' demo_clear"] by (simp add: demo_command_def)

lemma demo_command_facts:
  "length (bodies demo_command) = 2" "phase_of (handlers demo_command) 1 = Running 2" "bd_leg (bodies demo_command ! 1) = In_loop"
  "unread (bodies demo_command ! 1) = [demo_clear]" "passed (bd_chan (bodies demo_command ! 1)) = [demo_clear]"
proof -
  have d: "demo_command = demo_twice\<lparr>bodies := (bodies demo_twice)[1 := (bodies demo_twice ! 1)\<lparr>bd_chan :=
      snd (try_send (channel_new COMMAND_CHANNEL_CAPACITY) demo_clear)\<rparr>]\<rparr>"
    unfolding demo_command_def
    by (rule deliver_cases[of demo_twice "''CP1''" demo_clear]) (simp_all add: demo_overlap_facts(7) demo_overlap_nth[unfolded One_nat_def])
  show "length (bodies demo_command) = 2" "phase_of (handlers demo_command) 1 = Running 2" "bd_leg (bodies demo_command ! 1) = In_loop"
    "unread (bodies demo_command ! 1) = [demo_clear]" "passed (bd_chan (bodies demo_command ! 1)) = [demo_clear]"
    unfolding d by (simp_all add: demo_overlap_lengths demo_overlap_nth[unfolded One_nat_def] unread_def try_send_def channel_new_def
        COMMAND_CHANNEL_CAPACITY_def)
qed

theorem takeover_conserves_commands_witness:
  "\<exists>F'. fleet_run demo_ext demo_ws demo_settings demo_command F'
     \<and> \<not> ended (bd_leg (bodies demo_command ! 1)) \<and> ended (bd_leg (bodies F' ! 1))
     \<and> prefix [demo_clear] (take (bd_taken (bodies F' ! 1)) (passed (bd_chan (bodies F' ! 1))))
     \<and> tally delivered_ids ''CP1'' F'
       = answered ''CP1'' (ds_mqtt_tx (shared (handlers F'))) + tally held_ids ''CP1'' F' + tally unread_ids ''CP1'' F'"
proof -
  note f = demo_command_facts
  let ?b = "bodies demo_command ! 1"
  let ?r = "(Closing, length (unread ?b), bd_uplink ?b, wind_down demo_ext 4 (unread ?b) (attach 1 demo_command))"
  have "session_turn demo_ext demo_ws demo_settings (sender_dropped 1 demo_command) (unread ?b) In_loop (bd_uplink ?b) (attach 1 demo_command)
      (HandleLoop 4 0 (FromCharger CEnd)) = Some ?r"
    by (simp add: loop_turn_def loop_step_def from_charger_def break_off_def)
  then have "happen demo_ext demo_ws demo_settings (Turn 1 (HandleLoop 4 0 (FromCharger CEnd))) demo_command = Some (detach 1 ?r demo_command)"
    using f(1-3) by (simp del: session_turn.simps)
  from fleet_run.moved[OF fleet_run.idle this]
  have run: "fleet_run demo_ext demo_ws demo_settings demo_command (detach 1 ?r demo_command)" .
  have e: "\<not> ended (bd_leg ?b)" "ended (bd_leg (bodies (detach 1 ?r demo_command) ! 1))"
    using f(1,3) by (simp_all add: ended_def detach_def Let_def)
  note t = takeover_conserves_commands[OF demo_command_run run, of "''CP1''"]
  have "prefix [demo_clear] (take (bd_taken (bodies (detach 1 ?r demo_command) ! 1)) (passed (bd_chan (bodies (detach 1 ?r demo_command) ! 1))))"
    using spec[OF conjunct2[OF t], of 1] e f(1,5) by simp
  then show ?thesis using run e conjunct1[OF t] by blast
qed

text \<open>
  A command is accepted only for a session that can still answer it or is just ending. When the router accepts a
  command, it is the last unread one of a connection of that very charger whose handler has not deregistered and whose
  session has not returned; nothing else changes.
\<close>

lemma accepted_command_reaches_session:
  assumes "fleet_run E ws cfg (fleet_new m) F" "deliver cp req F = (Inr (), F')"
  shows "\<exists>i < length (bodies F). task_cp (tasks (handlers F) ! i) = cp
    \<and> routed_as (phase_of (handlers F) i) \<noteq> None \<and> bd_leg (bodies F ! i) \<noteq> Returned_leg
    \<and> unread (bodies F' ! i) = unread (bodies F ! i) @ [req] \<and> bd_leg (bodies F' ! i) = bd_leg (bodies F ! i)
    \<and> handlers F' = handlers F \<and> (\<forall>j. j \<noteq> i \<longrightarrow> bodies F' ! j = bodies F ! j)"
proof (rule deliver_cases[of F cp req])
  fix reg :: "nat registration"
  let ?b = "bodies F ! tx reg"
  assume reg: "ds_router (shared (handlers F)) cp = Some reg"
    and d: "deliver cp req F = (case fst (try_send (bd_chan ?b) req) of
        Inr _ \<Rightarrow> Inr () | Inl Full \<Rightarrow> Inl QueueFull | Inl Closed \<Rightarrow> Inl DispatchNotConnected,
        F\<lparr>bodies := (bodies F)[tx reg := ?b\<lparr>bd_chan := snd (try_send (bd_chan ?b) req)\<rparr>]\<rparr>)"
  have ag: "agreed F" using agreement.run_keeps[OF assms(1) fleet_new_ok(3)] .
  have r: "tx reg < length (tasks (handlers F))" "task_cp (tasks (handlers F) ! tx reg) = cp"
      "routed_as (phase_of (handlers F) (tx reg)) = Some (generation reg)"
    using ag reg unfolding agreed_def router_ok_def by blast+
  then have i: "tx reg < length (bodies F)" using agreed_length[OF ag] by simp
  have sent: "\<not> closed (bd_chan ?b) \<and> passed (snd (try_send (bd_chan ?b) req)) = passed (bd_chan ?b) @ [req]"
    using assms(2) d by (auto simp: try_send_def Let_def split: if_splits)
  then have "unread (bodies F' ! tx reg) = unread ?b @ [req]" "bd_leg ?b \<noteq> Returned_leg"
    using agreed_fits[OF ag i] assms(2) d i by (auto simp: in_step_def unread_def)
  then show ?thesis using r i assms(2) d by (intro exI[of _ "tx reg"]) auto
qed (use assms(2) in simp)

text \<open>What ends a session answers all it held and had not read, and only its own registration stands under its channel.\<close>

lemma wind_down_answers:
  assumes "agreed F" "i < length (bodies F)" "cp = task_cp (tasks (handlers F) ! i)" "b = bodies F ! i"
  shows "answered cp (mqtt_tx (forwarder (wind_down E now (unread b) (attach i F))))
    = answered cp (ds_mqtt_tx (shared (handlers F))) + held_ids b + unread_ids b"
proof -
  have "charge_point_id (forwarder (attach i F)) = cp" using agreed_fits[OF assms(1,2)] assms(3) by (simp add: in_step_def)
  from emits_answers[OF wind_down_facts(1)[of "attach i F" E now "unread b"] this]
  obtain new where new: "reported (wind_down E now (unread b) (attach i F)) = reported (attach i F) + new"
      "answered cp (mqtt_tx (forwarder (wind_down E now (unread b) (attach i F)))) = answered cp (ds_mqtt_tx (shared (handlers F))) + new"
    by auto
  have "new = held_ids b + unread_ids b"
    using wind_down_facts(2,3)[of E now "unread b" "attach i F"] new(1)
    by (simp add: accounted_def held_ids_def unread_ids_def assms(4))
  with new(2) show ?thesis by (simp add: add_ac)
qed

lemma own_registration:
  assumes "agreed F" "phase_of (handlers F) i = Running g" "ds_router (shared (handlers F)) cp = Some reg" "tx reg = i"
  shows "generation reg = g"
proof -
  have "routed_as (phase_of (handlers F) (tx reg)) = Some (generation reg)"
    using assms(1,3) unfolding agreed_def router_ok_def by blast
  then show ?thesis using assms(2,4) by simp
qed

text \<open>
  C12: A cancelled session ends, however its connection was displaced or the proxy shut down. Once its token is set, and it
  is in the forwarding loop or in a pause, six steps of its own end it: every command it held or had not read
  yet is answered, the charger is sent a close frame, neither the router nor the table names it any more.
\<close>

theorem cancelled_session_ends:
  assumes run: "fleet_run E ws cfg (fleet_new m) F" and i: "i < length (bodies F)" "phase_of (handlers F) i = Running g"
    and tok: "token_set i F" "bd_leg (bodies F ! i) \<in> {In_loop, Retry_pause, Lost_pause}"
    and cp: "cp = task_cp (tasks (handlers F) ! i)" and b: "b = bodies F ! i"
    and op: "\<not> closed (charger_tx (bd_sess b))"
  shows "\<exists>F'. happens E ws cfg (way_out i now (bd_leg b)) F = Some F'
    \<and> phase_of (handlers F') i = Closed_down \<and> sender_dropped i F' \<and> table_entry (shared (handlers F')) cp \<noteq> Some g
    \<and> passed (charger_tx (bd_sess (bodies F' ! i)))
        = passed (charger_tx (bd_sess b)) @ [AClose (Some (close_code (bd_sess b), ''Proxy session ending''))]
    \<and> held_ids (bodies F' ! i) = {#} \<and> unread (bodies F' ! i) = []
    \<and> answered cp (ds_mqtt_tx (shared (handlers F')))
        = answered cp (ds_mqtt_tx (shared (handlers F))) + held_ids b + unread_ids b"
proof -
  have ag: "agreed F" using agreement.run_keeps[OF run fleet_new_ok(3)] .
  have len: "length (bodies F) = length (tasks (handlers F))" by (rule agreed_length[OF ag])
  obtain F1 F2 w where F1: "F1 = detach i (Closing, length (unread b), bd_uplink b, wind_down E now (unread b) (attach i F)) F"
    and F2: "F2 = detach i (Returned_leg, 0, bd_uplink (bodies F1 ! i), set_upstream_state now Disconnected (attach i F1)) F1"
    and w: "w = perform now (Advance i) (perform now (Advance i) (perform now (Advance i) (perform now (Advance i) (handlers F2))))"
    and h: "happens E ws cfg (way_out i now (bd_leg b)) F = Some (F2\<lparr>handlers := w\<rparr>)"
    using way_out_happens[OF i(1) len i(2) tok] unfolding b by blast
  have i12: "i < length (bodies F1)" "i < length (bodies F2)" using i(1) by (simp_all add: F1 F2)
  note out = walk_out[of i "handlers F2" g w, OF _ _ w]
  have f2: "phase_of (handlers F2) i = Running g" "i < length (tasks (handlers F2))" "task_cp (tasks (handlers F2) ! i) = cp"
    using i len cp by (simp_all add: F2 F1)
  let ?s1 = "wind_down E now (unread b) (attach i F)" and ?s2 = "set_upstream_state now Disconnected (attach i F1)"
  have s1: "bd_sess (bodies F1 ! i) = ?s1" "ds_mqtt_tx (shared (handlers F1)) = mqtt_tx (forwarder ?s1)"
    "unread (bodies F1 ! i) = []"
    using i(1) by (simp_all add: F1 detach_nth b)
  have s2: "bd_sess (bodies F2 ! i) = ?s2" "ds_mqtt_tx (shared (handlers F2)) = mqtt_tx (forwarder ?s2)"
    "unread (bodies F2 ! i) = []"
    using i12(1) s1 by (simp_all add: F2 detach_nth)
  have l: "local ?s2 = local ?s1" "charger_tx ?s2 = charger_tx ?s1"
    using s1(1) by (simp_all add: set_upstream_state_def publish_status_def send_event_def attach_def Let_def)
  have "answered cp (mqtt_tx (forwarder ?s2)) = answered cp (mqtt_tx (forwarder ?s1))"
    using s1(2) by (simp add: set_upstream_state_def publish_status_def Let_def answered_def answer_for_def result_id_def)
  then have ans: "answered cp (ds_mqtt_tx (shared w)) = answered cp (ds_mqtt_tx (shared (handlers F))) + held_ids b + unread_ids b"
    using out(4)[OF f2(2,1)] s2(2) wind_down_answers[OF ag i(1) cp b] by simp
  have "ds_router (shared (handlers F2)) = ds_router (shared (handlers F))" by (simp add: F2 F1)
  then have "sender_dropped i (F2\<lparr>handlers := w\<rparr>)"
    using out(3)[OF f2(2,1)] out(5)[OF f2(2,1)] f2(3) own_registration[OF ag i(2)]
    by (auto simp: sender_dropped_def router_deregister_def split: option.splits)
  moreover have "passed (charger_tx ?s2) = passed (charger_tx (bd_sess b)) @ [AClose (Some (close_code (bd_sess b), ''Proxy session ending''))]"
  proof -
    have "charger_tx (attach i F) = charger_tx (bd_sess b)" "close_code (attach i F) = close_code (bd_sess b)"
      by (simp_all add: attach_def Let_def b)
    with op show ?thesis by (simp add: l(2) wind_down_close channel_send_def Let_def)
  qed
  ultimately show ?thesis
    using h out(1,2)[OF f2(2,1)] f2(3) s2 l(1) wind_down_facts(3)[of E now "unread b" "attach i F"] ans
    by (intro exI[of _ "F2\<lparr>handlers := w\<rparr>"]) (simp add: held_ids_def)
qed

theorem cancelled_session_ends_witness:
  "\<exists>F'. happens demo_ext demo_ws demo_settings (way_out 0 2 In_loop) demo_twice = Some F'
     \<and> phase_of (handlers F') 0 = Closed_down \<and> held_ids (bodies F' ! 0) = {#}"
proof -
  have "token_set 0 demo_twice" using demo_overlap_facts(5) by (simp add: token_set_def)
  then show ?thesis
    using cancelled_session_ends[OF demo_twice_run, of 0 1 "''CP1''" "bodies demo_twice ! 0" 2] demo_overlap_facts(6)
    by (auto simp: demo_overlap_nth demo_overlap_lengths)
qed

text \<open>
  C36: The end of a displaced session spoils the shared state: there is a run after which the connection the table
  holds relays between charger and Central System, its token not set, while the upstream state is disconnected and the
  health endpoint answers 503, because the older session of the same charger set that state on its way out.
\<close>

theorem displaced_session_marks_upstream_down:
  "\<exists>F. fleet_run demo_ext demo_ws demo_settings (fleet_new demo_manager) F
     \<and> table_entry (shared (handlers F)) ''CP1'' = Some 2 \<and> bd_leg (bodies F ! 1) = In_loop \<and> \<not> token_set 1 F
     \<and> upstream_state (ds_manager (shared (handlers F))) = Disconnected
     \<and> fst (health_handler (ds_manager (shared (handlers F))) 0) = 503"
proof -
  let ?es = "demo_arrival 0 @ demo_arrival 1 @ [Turn 0 (HandleLoop 2 0 Cancelled), Turn 0 (SignOff 2)]"
  obtain F where F: "happens demo_ext demo_ws demo_settings ?es (fleet_new demo_manager) = Some F"
    "table_entry (shared (handlers F)) ''CP1'' = Some 2" "bd_leg (bodies F ! 1) = In_loop" "\<not> token_set 1 F"
    "upstream_state (ds_manager (shared (handlers F))) = Disconnected"
    "fst (health_handler (ds_manager (shared (handlers F))) 0) = 503"
    by (simp add: demo_run_simps table_entry_def health_handler_def health_status_of_def count_dropped_def drain_def
        channel_send_def demo_settings_def)
  then show ?thesis using happens_run[OF F(1) fleet_run.idle] by blast
qed

end
