(* ===== verification/Test_Base.thy ===== *)
theory Test_Base
  imports Prelude
begin

text \<open>
  What the unit tests of the crate use, in the theories \<open>Test_*\<close>: the outcome of a fallible call with the assertions made on
  it, and the search for a substring.
\<close>

text \<open>\<open>unwrap\<close> and \<open>unwrap_err\<close>, followed by assertions.\<close>

fun passes :: "'e + 'a \<Rightarrow> ('a \<Rightarrow> bool) \<Rightarrow> bool" where
  "passes (Inr x) P = P x"
| "passes (Inl e) P = False"

fun fails :: "'e + 'a \<Rightarrow> ('e \<Rightarrow> bool) \<Rightarrow> bool" where
  "fails (Inl e) P = P e"
| "fails (Inr x) P = False"

fun holds_of :: "'a option \<Rightarrow> ('a \<Rightarrow> bool) \<Rightarrow> bool" where
  "holds_of (Some x) P = P x"
| "holds_of None P = False"

fun contains :: "string \<Rightarrow> string \<Rightarrow> bool" where
  "contains [] t = (t = [])"
| "contains (c # s) t = (starts_with t (c # s) \<or> contains s t)"

lemma contains_right: "contains s t \<Longrightarrow> contains (u @ s) t"
  by (induction u) simp_all

end
