(* ===== verification/Test_Commands.thy ===== *)
theory Test_Commands
  imports Test_Base Command_Facts Local_Calls
begin

text \<open>
  The unit tests of \<open>src/command.rs\<close>, run on the model. A definition is one test, its inputs, its calls and its
  assertions; the lemma says that the model passes, whatever the clock reads. What serde_json makes of a JSON text, and how
  it prints a frame, are premises about \<open>E\<close>.
\<close>

section \<open>Set-up\<close>

definition tested_config :: charging_config where
  "tested_config = charging_config_default\<lparr>enabled := True\<rparr>"

definition tested_request :: "utc \<Rightarrow> proxy_command \<Rightarrow> command_request" where
  "tested_request now c = request_new now ''req-1'' c SourceMqtt"

section \<open>Topics\<close>

definition test_topics_round_trip_through_the_parser :: bool where
  "test_topics_round_trip_through_the_parser \<longleftrightarrow>
     parse_command_topic (command_topic ''CP-1'') = Some (''CP-1'', TopicCommand)
     \<and> parse_command_topic (current_limit_topic ''CP-1'') = Some (''CP-1'', TopicCurrentLimit)"

definition test_result_and_other_topics_are_not_commands :: bool where
  "test_result_and_other_topics_are_not_commands \<longleftrightarrow>
     parse_command_topic (command_result_topic ''CP-1'') = None
     \<and> parse_command_topic ''ocpp/CP-1/charger/MeterValues'' = None
     \<and> parse_command_topic ''ocpp/CP-1/state'' = None
     \<and> parse_command_topic ''ocpp//command'' = None
     \<and> parse_command_topic ''other/CP-1/command'' = None
     \<and> parse_command_topic ''ocpp/CP-1/command/current_limit/x'' = None"

definition topic_matches :: "string \<Rightarrow> string \<Rightarrow> bool" where
  "topic_matches filt topic =
     (let f = split_on CHR ''/'' filt; t = split_on CHR ''/'' topic
      in length f = length t \<and> list_all (\<lambda>(a, b). a = ''+'' \<or> a = b) (zip f t))"

definition test_subscriptions_match_the_two_command_topics_only :: bool where
  "test_subscriptions_match_the_two_command_topics_only \<longleftrightarrow>
     list_all (\<lambda>filt. \<not> topic_matches filt (command_result_topic ''CP-1'')) COMMAND_SUBSCRIPTIONS
     \<and> topic_matches (COMMAND_SUBSCRIPTIONS ! 0) (command_topic ''CP-1'')
     \<and> topic_matches (COMMAND_SUBSCRIPTIONS ! 1) (current_limit_topic ''CP-1'')"

lemma topic_tests_pass:
  "test_topics_round_trip_through_the_parser"
  "test_result_and_other_topics_are_not_commands"
  "test_subscriptions_match_the_two_command_topics_only"
  by (simp_all add: test_topics_round_trip_through_the_parser_def test_result_and_other_topics_are_not_commands_def
      test_subscriptions_match_the_two_command_topics_only_def topic_matches_def parse_command_topic_def wire_format
      COMMAND_SUBSCRIPTIONS_def)

section \<open>Payloads\<close>

definition test_bare_number_on_the_limit_topic :: "ext \<Rightarrow> utc \<Rightarrow> bool" where
  "test_bare_number_on_the_limit_topic E now \<longleftrightarrow>
     passes (parse_command_payload E now TopicCurrentLimit '' 16.0 '')
       (\<lambda>req. command req = SetCurrentLimit (Fin 16) \<and> starts_with ''limit-'' (req_id req) \<and> source req = SourceMqtt)"

definition test_clear_words_on_the_limit_topic :: "ext \<Rightarrow> utc \<Rightarrow> bool" where
  "test_clear_words_on_the_limit_topic E now \<longleftrightarrow>
     list_all (\<lambda>word. passes (parse_command_payload E now TopicCurrentLimit word) (\<lambda>req. command req = ClearCurrentLimit))
       [''clear'', ''OFF'', ''none'', ''null'']"

definition test_garbage_on_the_limit_topic_is_invalid :: "ext \<Rightarrow> utc \<Rightarrow> bool" where
  "test_garbage_on_the_limit_topic_is_invalid E now \<longleftrightarrow>
     list_all (\<lambda>payload. fails (parse_command_payload E now TopicCurrentLimit payload) (\<lambda>_. True))
       [''sixteen'', [], [CHR 0xff, CHR 0xfe]]"

lemmas payload_simps = parse_command_payload_def trim_def trim_start.simps trim_end.simps ws_suffix_def starts_with_def
  request_new_def generated_id_def from_utf8_def Let_def

lemma read_texts:
  "parse_f64 ''16.0'' = Some (Fin 16)" "parse_f64 ''sixteen'' = None" "to_ascii_lowercase ''16.0'' = ''16.0''"
  "to_ascii_lowercase ''OFF'' = ''off''" "to_ascii_lowercase ''clear'' = ''clear''" "to_ascii_lowercase ''none'' = ''none''"
  "to_ascii_lowercase ''null'' = ''null''" "to_ascii_lowercase ''sixteen'' = ''sixteen''"
proof -
  have "parse_decimal ''16.0'' = Some 16" "to_ascii_lowercase ''16.0'' = ''16.0''" by code_simp+
  then show "parse_f64 ''16.0'' = Some (Fin 16)" using rnd_of_int[of 16] by (simp add: parse_f64_def Let_def)
qed code_simp+

lemma bare_payload_tests_pass:
  "test_bare_number_on_the_limit_topic E now"
  "test_clear_words_on_the_limit_topic E now"
  "test_garbage_on_the_limit_topic_is_invalid E now"
  by (simp_all add: test_bare_number_on_the_limit_topic_def test_clear_words_on_the_limit_topic_def
      test_garbage_on_the_limit_topic_is_invalid_def payload_simps read_texts)

section \<open>The limit policy\<close>

definition test_zero_pauses :: "ext \<Rightarrow> bool" where
  "test_zero_pauses E \<longleftrightarrow>
     passes (resolve_limit E tested_config (Fin 0)) (\<lambda>r. applied_a r = Fin 0 \<and> holds_of (limit_detail r) (\<lambda>d. contains d ''pauses''))"

definition test_above_ceiling_clamps :: "ext \<Rightarrow> bool" where
  "test_above_ceiling_clamps E \<longleftrightarrow>
     passes (resolve_limit E (tested_config\<lparr>max_limit_a := Fin 20\<rparr>) (Fin 32))
       (\<lambda>r. applied_a r = Fin 20 \<and> holds_of (limit_detail r) (\<lambda>d. contains d ''clamped''))"

definition test_negative_or_nan_is_an_error :: "ext \<Rightarrow> bool" where
  "test_negative_or_nan_is_an_error E \<longleftrightarrow>
     list_all (\<lambda>a. fails (resolve_limit E tested_config a) (\<lambda>_. True)) [Fin (-1), NaN, PosInf]"

lemmas config_simps = tested_config_def charging_config_default_def default_max_limit_a_def default_min_limit_a_def
  default_purpose_def default_profile_kind_def default_rate_unit_def default_number_phases_def default_profile_id_def
  default_nominal_voltage_def default_allowed_configuration_keys_def

lemma round_tenth_twenty: "round_tenth (Fin 20) = Fin 20"
proof -
  have "\<lfloor>401 / 2 :: rat\<rfloor> = 200" by (simp add: floor_eq_iff)
  then show ?thesis using rnd_of_int[of 200] rnd_of_int[of 20] by (simp add: round_tenth_Fin round_away_def)
qed

lemma limit_tests_pass:
  "test_zero_pauses E" "test_above_ceiling_clamps E" "test_negative_or_nan_is_an_error E"
proof -
  show "test_zero_pauses E" by (simp add: test_zero_pauses_def resolve_limit_def is_finite_def f64_eq_def starts_with_def)
  show "test_above_ceiling_clamps E"
    by (simp add: round_tenth_twenty test_above_ceiling_clamps_def resolve_limit_def is_finite_def f64_eq_def config_simps starts_with_def)
  show "test_negative_or_nan_is_an_error E" by (simp add: test_negative_or_nan_is_an_error_def resolve_limit_def is_finite_def)
qed

section \<open>The queue\<close>

definition ids_of :: "command_request list \<Rightarrow> string list" where
  "ids_of = map req_id"

definition test_newer_limit_supersedes_queued_limits_but_not_other_commands :: "utc \<Rightarrow> bool" where
  "test_newer_limit_supersedes_queued_limits_but_not_other_commands now \<longleftrightarrow>
     (let q = queue_new (from_secs 30) 8;
          q = snd (push (request_new now ''a'' (SetCurrentLimit (Fin 10)) SourceMqtt) q);
          q = snd (push (request_new now ''b'' (GetConfiguration []) SourceMqtt) q);
          (displaced, q) = push (request_new now ''c'' ClearCurrentLimit SourceMqtt) q;
          (displaced', q) = push (request_new now ''d'' (SetCurrentLimit (Fin 20)) SourceMqtt) q
      in ids_of displaced = [''a''] \<and> ids_of displaced' = [''c''] \<and> queued_len q = 2
         \<and> holds_of (fst (pop_next q)) (\<lambda>r. req_id r = ''b''))"

definition test_full_queue_drops_the_oldest :: "utc \<Rightarrow> bool" where
  "test_full_queue_drops_the_oldest now \<longleftrightarrow>
     (let q = queue_new (from_secs 30) 2;
          (none, q) = push (request_new now ''a'' (GetConfiguration []) SourceMqtt) q;
          (none', q) = push (request_new now ''b'' (GetConfiguration []) SourceMqtt) q;
          (displaced, q) = push (request_new now ''c'' (GetConfiguration []) SourceMqtt) q
      in none = [] \<and> none' = [] \<and> length displaced = 1 \<and> req_id (displaced ! 0) = ''a'' \<and> queued_len q = 2)"

definition test_drain_returns_everything :: "ext \<Rightarrow> utc \<Rightarrow> bool" where
  "test_drain_returns_everything E now \<longleftrightarrow>
     (let q = queue_new (from_secs 30) 8;
          q = snd (push (tested_request now (GetConfiguration [])) q);
          q = snd (push (tested_request now ClearCurrentLimit) q);
          (first, q) = pop_next q
      in holds_of first (\<lambda>req. passes (prepare_call E tested_config req ''u'' now) (\<lambda>prepared.
           let ((queued, in_flight), q) = drain (set_in_flight 0 req prepared q)
           in length queued = 1 \<and> in_flight \<noteq> None \<and> queue_is_empty q)))"

definition test_queue_sends_one_at_a_time_and_matches_responses_by_id :: "ext \<Rightarrow> utc \<Rightarrow> bool" where
  "test_queue_sends_one_at_a_time_and_matches_responses_by_id E now \<longleftrightarrow>
     (let q0 = queue_new (from_secs 30) 8;
          (none, q1) = push (tested_request now (GetConfiguration [])) q0;
          (none', q2) = push (tested_request now ClearCurrentLimit) q1;
          (first, q3) = pop_next q2;
          (uid, q4) = next_unique_id now q3
      in queue_is_empty q0 \<and> none = [] \<and> none' = [] \<and> queued_len q2 = 2 \<and> starts_with UNIQUE_ID_PREFIX uid
       \<and> holds_of first (\<lambda>req. passes (prepare_call E tested_config req uid now) (\<lambda>prepared.
           let q5 = set_in_flight 0 req prepared q4; (done_call, q6) = take_response uid q5
           in has_in_flight q5 \<and> fst (pop_next q5) = None
            \<and> \<not> is_ours ''msg-from-mobie'' q5 \<and> fst (take_response ''msg-from-mobie'' q5) = None \<and> is_ours uid q5
            \<and> holds_of done_call (\<lambda>d. prep_action (fl_prepared d) = ''GetConfiguration'')
            \<and> \<not> has_in_flight q6 \<and> fst (pop_next q6) \<noteq> None)))"

definition test_expiry_covers_queued_and_in_flight :: "ext \<Rightarrow> utc \<Rightarrow> bool" where
  "test_expiry_covers_queued_and_in_flight E now \<longleftrightarrow>
     (let q = queue_new 0 8;
          stale = (tested_request now (GetConfiguration []))\<lparr>issued_at := now - int (from_secs 60)\<rparr>;
          q = snd (push stale q);
          fresh = (request_new now ''fresh'' (GetConfiguration []) SourceMqtt)\<lparr>issued_at := now + int (from_secs 60)\<rparr>;
          q = snd (push fresh q);
          ((expired, none), q) = expire now 0 q;
          (next_call, q') = pop_next q
      in length expired = 1 \<and> req_id (expired ! 0) = ''req-1'' \<and> none = None \<and> queued_len q = 1
       \<and> holds_of next_call (\<lambda>req. passes (prepare_call E tested_config req ''u'' now) (\<lambda>prepared.
           let ((_, in_flight), q) = expire now 0 (set_in_flight 0 req prepared q')
           in in_flight \<noteq> None \<and> queue_is_empty q)))"

lemmas queue_simps = queue_new_def push_def pop_next_def queued_len_def queue_is_empty_def has_in_flight_def is_ours_def
  take_response_def set_in_flight_def drain_def expire_def tested_request_def request_new_def ids_of_def Let_def

lemma plain_queue_tests_pass:
  "test_newer_limit_supersedes_queued_limits_but_not_other_commands now"
  "test_full_queue_drops_the_oldest now"
  by (simp_all add: test_newer_limit_supersedes_queued_limits_but_not_other_commands_def test_full_queue_drops_the_oldest_def
      queue_simps)

text \<open>The tests that build a Call need serde_json to print it.\<close>

definition printable :: "ext \<Rightarrow> bool" where
  "printable E \<longleftrightarrow> (\<forall>v. \<exists>s. to_str E v = Inr s)"

lemma prepare_printable:
  assumes "printable E" "command_payload E c now (command req) = Inr (p, a, d)"
  obtains raw where "prepare_call E c req uid now = Inr \<lparr>prep_unique_id = uid, prep_action = action_of (command req), prep_raw = raw,
      prep_applied_limit_a = a, prep_detail = d\<rparr>" "to_str E (call_json uid (action_of (command req)) p) = Inr raw"
proof -
  obtain raw where "to_str E (call_json uid (action_of (command req)) p) = Inr raw" using assms(1) unfolding printable_def by blast
  then show ?thesis using that assms(2) by (simp add: prepare_call_def Let_def)
qed

lemma get_configuration_call:
  assumes "printable E" "command req = GetConfiguration []"
  obtains raw where "prepare_call E c req uid now = Inr \<lparr>prep_unique_id = uid, prep_action = ''GetConfiguration'', prep_raw = raw,
      prep_applied_limit_a = None, prep_detail = None\<rparr>"
  using prepare_printable[OF assms(1), of c now req "Obj []" None None uid] assms(2) by auto

lemma queue_tests_pass:
  assumes "printable E"
  shows "test_drain_returns_everything E now"
    "test_queue_sends_one_at_a_time_and_matches_responses_by_id E now"
    "test_expiry_covers_queued_and_in_flight E now"
proof -
  let ?r = "\<lambda>t i. \<lparr>req_id = i, command = GetConfiguration [], source = SourceMqtt, issued_at = t\<rparr>"
  define f where "f = (\<lambda>t i u. prep_raw (projr (prepare_call E tested_config (?r t i) u now)))"
  have f: "prepare_call E tested_config (?r t i) u now
      = Inr \<lparr>prep_unique_id = u, prep_action = ''GetConfiguration'', prep_raw = f t i u, prep_applied_limit_a = None, prep_detail = None\<rparr>" for t i u
  proof -
    obtain raw where "prepare_call E tested_config (?r t i) u now
        = Inr \<lparr>prep_unique_id = u, prep_action = ''GetConfiguration'', prep_raw = raw, prep_applied_limit_a = None, prep_detail = None\<rparr>"
      by (rule get_configuration_call[OF assms, of "?r t i" tested_config u now]) simp_all
    then show ?thesis by (simp add: f_def)
  qed
  show "test_drain_returns_everything E now" by (simp add: test_drain_returns_everything_def queue_simps f)
  have "chrono_from_std (from_secs 30) 0 = 0" "0 < from_secs 60" by (simp_all add: chrono_from_std_def from_secs_def)
  then show "test_expiry_covers_queued_and_in_flight E now"
    by (simp add: test_expiry_covers_queued_and_in_flight_def queue_simps f)
  show "test_queue_sends_one_at_a_time_and_matches_responses_by_id E now"
    by (simp add: test_queue_sends_one_at_a_time_and_matches_responses_by_id_def queue_simps f next_unique_id_def UNIQUE_ID_PREFIX_def starts_with_def)
qed

section \<open>The router\<close>

type_synonym inboxes = "command_request channel command_router"

definition test_router_dispatches_to_the_registered_session :: "utc \<Rightarrow> bool" where
  "test_router_dispatches_to_the_registered_session now \<longleftrightarrow>
     (let req = tested_request now ClearCurrentLimit; r0 = (Map.empty :: inboxes);
          (early, r1) = dispatch try_send ''CP-1'' req r0;
          r2 = router_register ''CP-1'' 1 (channel_new 2) r1;
          (sent, r3) = dispatch try_send ''CP-1'' req r2
      in early = Inl DispatchNotConnected \<and> is_connected ''CP-1'' r2 \<and> sent = Inr ()
         \<and> holds_of (r3 ''CP-1'') (\<lambda>reg. map command (passed (tx reg)) = [ClearCurrentLimit]))"

definition test_router_reports_a_full_inbox_and_a_closed_session :: "utc \<Rightarrow> bool" where
  "test_router_reports_a_full_inbox_and_a_closed_session now \<longleftrightarrow>
     (let req = tested_request now ClearCurrentLimit;
          r0 = router_register ''CP-1'' 1 (channel_new 1) (Map.empty :: inboxes);
          (first, r1) = dispatch try_send ''CP-1'' req r0;
          (second, r2) = dispatch try_send ''CP-1'' req r1;
          dropped = (case r2 ''CP-1'' of None \<Rightarrow> r2 | Some reg \<Rightarrow> r2(''CP-1'' \<mapsto> reg\<lparr>tx := (tx reg)\<lparr>closed := True\<rparr>\<rparr>));
          (third, r3) = dispatch try_send ''CP-1'' req dropped
      in first = Inr () \<and> second = Inl QueueFull \<and> third = Inl DispatchNotConnected)"

definition test_router_deregistration_is_generation_aware :: bool where
  "test_router_deregistration_is_generation_aware \<longleftrightarrow>
     (let r0 = router_register ''CP-1'' 1 (channel_new 1) (Map.empty :: inboxes);
          r1 = router_register ''CP-1'' 2 (channel_new 1) r0;
          (old, r2) = router_deregister ''CP-1'' 1 r1;
          (new, r3) = router_deregister ''CP-1'' 2 r2
      in \<not> old \<and> is_connected ''CP-1'' r2 \<and> new \<and> \<not> is_connected ''CP-1'' r3)"

lemma router_tests_pass:
  "test_router_dispatches_to_the_registered_session now"
  "test_router_reports_a_full_inbox_and_a_closed_session now"
  "test_router_deregistration_is_generation_aware"
  by (simp_all add: test_router_dispatches_to_the_registered_session_def test_router_reports_a_full_inbox_and_a_closed_session_def
      test_router_deregistration_is_generation_aware_def dispatch_def router_register_def router_deregister_def is_connected_def
      try_send_def channel_new_def tested_request_def request_new_def Let_def)

section \<open>Frames\<close>

text \<open>\<open>prepare_call\<close> and the payload of the frame it gives, read back.\<close>

definition frame_payload :: "ext \<Rightarrow> prepared_call \<Rightarrow> json option" where
  "frame_payload E call = (case from_str E (prep_raw call) of Inr frame \<Rightarrow> get_idx 3 frame | Inl _ \<Rightarrow> None)"

definition test_clear_names_the_proxy_profile :: "ext \<Rightarrow> utc \<Rightarrow> bool" where
  "test_clear_names_the_proxy_profile E now \<longleftrightarrow>
     passes (prepare_call E tested_config (tested_request now ClearCurrentLimit) ''proxy-1-2'' now)
       (\<lambda>call. prep_action call = ''ClearChargingProfile'' \<and> prep_applied_limit_a call = None
         \<and> frame_payload E call = Some (Obj [(''id'', Num (PosInt 1001)), (''connectorId'', Num (PosInt 0)),
             (''chargingProfilePurpose'', Str ''TxDefaultProfile''), (''stackLevel'', Num (PosInt 0))]))"

definition test_get_configuration_with_and_without_keys :: "ext \<Rightarrow> utc \<Rightarrow> bool" where
  "test_get_configuration_with_and_without_keys E now \<longleftrightarrow>
     passes (prepare_call E tested_config (tested_request now (GetConfiguration [])) ''u'' now)
       (\<lambda>call. frame_payload E call = Some (Obj []))
     \<and> passes (prepare_call E tested_config (tested_request now (GetConfiguration [''SupportedFeatureProfiles''])) ''u'' now)
       (\<lambda>call. frame_payload E call = Some (Obj [(''key'', Arr [Str ''SupportedFeatureProfiles''])]))"

definition test_change_configuration_respects_the_allowlist :: "ext \<Rightarrow> utc \<Rightarrow> bool" where
  "test_change_configuration_respects_the_allowlist E now \<longleftrightarrow>
     passes (prepare_call E tested_config (tested_request now (ChangeConfiguration ''MeterValueSampleInterval'' ''10'')) ''u'' now)
       (\<lambda>call. frame_payload E call = Some (Obj [(''key'', Str ''MeterValueSampleInterval''), (''value'', Str ''10'')]))
     \<and> fails (prepare_call E tested_config (tested_request now (ChangeConfiguration ''AuthorizeRemoteTxRequests'' ''false'')) ''u'' now)
       (\<lambda>err. contains err ''allowed_configuration_keys'')"

definition test_trigger_message_validates_the_message_name :: "ext \<Rightarrow> utc \<Rightarrow> bool" where
  "test_trigger_message_validates_the_message_name E now \<longleftrightarrow>
     passes (prepare_call E tested_config (tested_request now (TriggerMessage ''MeterValues'' (Some 1))) ''u'' now)
       (\<lambda>call. frame_payload E call = Some (Obj [(''requestedMessage'', Str ''MeterValues''), (''connectorId'', Num (PosInt 1))]))
     \<and> fails (prepare_call E tested_config (tested_request now (TriggerMessage ''Reset'' None)) ''u'' now) (\<lambda>_. True)"

definition test_composite_schedule_defaults_to_the_configured_connector_and_unit :: "ext \<Rightarrow> utc \<Rightarrow> bool" where
  "test_composite_schedule_defaults_to_the_configured_connector_and_unit E now \<longleftrightarrow>
     passes (prepare_call E tested_config (tested_request now (GetCompositeSchedule None 600)) ''u'' now)
       (\<lambda>call. frame_payload E call = Some (Obj [(''connectorId'', Num (PosInt 0)), (''duration'', Num (PosInt 600)),
             (''chargingRateUnit'', Str ''A'')]))"

definition test_invalid_limit_fails_at_preparation :: "ext \<Rightarrow> utc \<Rightarrow> bool" where
  "test_invalid_limit_fails_at_preparation E now \<longleftrightarrow>
     fails (prepare_call E tested_config (tested_request now (SetCurrentLimit (Fin (-5)))) ''u'' now) (\<lambda>_. True)"

definition test_relative_profile_has_no_start_schedule_and_null_phases_omits_the_field :: "ext \<Rightarrow> utc \<Rightarrow> bool" where
  "test_relative_profile_has_no_start_schedule_and_null_phases_omits_the_field E now \<longleftrightarrow>
     (let cfg = tested_config\<lparr>profile_kind := Relative, number_phases := None, purpose := ChargePointMaxProfile\<rparr>
      in holds_of (get_key ''csChargingProfiles'' (set_charging_profile_payload E cfg (Fin 10) now)) (\<lambda>profile.
           get_key ''chargingProfileKind'' profile = Some (Str ''Relative'')
         \<and> get_key ''chargingProfilePurpose'' profile = Some (Str ''ChargePointMaxProfile'')
         \<and> holds_of (get_key ''chargingSchedule'' profile) (\<lambda>schedule.
             get_key ''startSchedule'' schedule = None
           \<and> holds_of (Option.bind (get_key ''chargingSchedulePeriod'' schedule) (get_idx 0)) (\<lambda>period.
               get_key ''numberPhases'' period = None))))"

text \<open>serde_json prints every value and reads it back.\<close>

definition faithful :: "ext \<Rightarrow> bool" where
  "faithful E \<longleftrightarrow> (\<forall>v. faithful_on E v)"

lemma prepare_faithful:
  assumes "faithful E" "command_payload E c now (command req) = Inr (p, a, d)"
  obtains call where "prepare_call E c req uid now = Inr call" "prep_action call = action_of (command req)"
    "prep_applied_limit_a call = a" "prep_detail call = d" "frame_payload E call = Some p"
proof -
  obtain raw where raw: "to_str E (call_json uid (action_of (command req)) p) = Inr raw" "from_str E raw = Inr (call_json uid (action_of (command req)) p)"
    using assms(1) unfolding faithful_def faithful_on_def by blast
  then show ?thesis using that assms(2) by (simp add: prepare_call_def frame_payload_def call_json_def nth_opt_def Let_def)
qed

lemma passes_prepared:
  assumes "faithful E" "command_payload E c now (command req) = Inr (p, a, d)"
    and "\<And>call. prep_action call = action_of (command req) \<Longrightarrow> prep_applied_limit_a call = a \<Longrightarrow> frame_payload E call = Some p \<Longrightarrow> P call"
  shows "passes (prepare_call E c req uid now) P"
  using prepare_faithful[OF assms(1,2), of uid] assms(3) by (metis passes.simps(1))

lemma frame_tests_pass:
  assumes "faithful E"
  shows "test_clear_names_the_proxy_profile E now" "test_get_configuration_with_and_without_keys E now"
    "test_change_configuration_respects_the_allowlist E now" "test_trigger_message_validates_the_message_name E now"
    "test_composite_schedule_defaults_to_the_configured_connector_and_unit E now"
proof -
  note [simp] = tested_request_def request_new_def config_simps clear_charging_profile_payload_def json_int_def TRIGGERABLE_MESSAGES_def
  note go = passes_prepared[OF assms]
  show "test_clear_names_the_proxy_profile E now" unfolding test_clear_names_the_proxy_profile_def by (rule go) simp_all
  show "test_get_configuration_with_and_without_keys E now"
    unfolding test_get_configuration_with_and_without_keys_def by (intro conjI; rule go; simp)
  have "passes (prepare_call E tested_config (tested_request now (ChangeConfiguration ''MeterValueSampleInterval'' ''10'')) ''u'' now)
      (\<lambda>call. frame_payload E call = Some (Obj [(''key'', Str ''MeterValueSampleInterval''), (''value'', Str ''10'')]))"
    by (rule go) simp_all
  then show "test_change_configuration_respects_the_allowlist E now"
    unfolding test_change_configuration_respects_the_allowlist_def
    by (simp add: prepare_call_def contains_right starts_with_def)
  have "passes (prepare_call E tested_config (tested_request now (TriggerMessage ''MeterValues'' (Some 1))) ''u'' now)
      (\<lambda>call. frame_payload E call = Some (Obj [(''requestedMessage'', Str ''MeterValues''), (''connectorId'', Num (PosInt 1))]))"
    by (rule go) simp_all
  then show "test_trigger_message_validates_the_message_name E now"
    unfolding test_trigger_message_validates_the_message_name_def by (simp add: prepare_call_def)
  show "test_composite_schedule_defaults_to_the_configured_connector_and_unit E now"
    unfolding test_composite_schedule_defaults_to_the_configured_connector_and_unit_def by (rule go) simp_all
qed

lemma refused_tests_pass:
  "test_invalid_limit_fails_at_preparation E now"
  "test_relative_profile_has_no_start_schedule_and_null_phases_omits_the_field E now"
  by (simp_all add: test_invalid_limit_fails_at_preparation_def test_relative_profile_has_no_start_schedule_and_null_phases_omits_the_field_def
      prepare_call_def tested_request_def request_new_def resolve_limit_def set_charging_profile_payload_def nth_opt_def Let_def)

section \<open>Answers\<close>

definition answered_with :: "ext \<Rightarrow> utc \<Rightarrow> string \<Rightarrow> string \<Rightarrow> (command_status \<Rightarrow> json option \<Rightarrow> string option \<Rightarrow> bool) \<Rightarrow> bool" where
  "answered_with E now act text P =
     passes (parse E now text) (\<lambda>f. case interpret_response E act f of (st, payload, detail) \<Rightarrow> P st payload detail)"

definition test_accepted_and_rejected_call_results :: "ext \<Rightarrow> utc \<Rightarrow> bool" where
  \<open>test_accepted_and_rejected_call_results E now \<longleftrightarrow>
     answered_with E now ''SetChargingProfile'' ''[3,"p",{"status":"Accepted"}]'' (\<lambda>st payload detail.
       st = Accepted \<and> payload = Some (Obj [(''status'', Str ''Accepted'')]) \<and> detail = None)
     \<and> answered_with E now ''SetChargingProfile'' ''[3,"p",{"status":"NotSupported"}]'' (\<lambda>st payload detail.
       st = Rejected \<and> detail = Some ''charger answered NotSupported'')\<close>

definition test_answers_that_leave_the_desired_state_count_as_accepted :: "ext \<Rightarrow> utc \<Rightarrow> bool" where
  \<open>test_answers_that_leave_the_desired_state_count_as_accepted E now \<longleftrightarrow>
     answered_with E now ''ClearChargingProfile'' ''[3,"p",{"status":"Unknown"}]'' (\<lambda>st payload detail.
       st = Accepted \<and> holds_of detail (\<lambda>d. contains d ''nothing to clear''))
     \<and> answered_with E now ''ChangeConfiguration'' ''[3,"p",{"status":"RebootRequired"}]'' (\<lambda>st payload detail.
       st = Accepted \<and> holds_of detail (\<lambda>d. contains d ''reboot''))
     \<and> answered_with E now ''SetChargingProfile'' ''[3,"p",{"status":"Unknown"}]'' (\<lambda>st payload detail. st = Rejected)\<close>

definition test_get_configuration_has_no_status_and_is_accepted :: "ext \<Rightarrow> utc \<Rightarrow> bool" where
  \<open>test_get_configuration_has_no_status_and_is_accepted E now \<longleftrightarrow>
     answered_with E now ''GetConfiguration''
       ''[3,"p",{"configurationKey":[{"key":"HeartbeatInterval","readonly":false,"value":"300"}]}]'' (\<lambda>st payload detail.
       st = Accepted \<and> Option.bind (Option.bind (Option.bind payload (get_key ''configurationKey'')) (get_idx 0)) (get_key ''value'')
         = Some (Str ''300''))\<close>

definition test_call_error_is_reported_with_its_code :: "ext \<Rightarrow> utc \<Rightarrow> bool" where
  \<open>test_call_error_is_reported_with_its_code E now \<longleftrightarrow>
     answered_with E now ''SetChargingProfile'' ''[4,"p","NotSupported","Smart charging is off",{}]'' (\<lambda>st payload detail.
       st = StatusError \<and> Option.bind payload (get_key ''errorCode'') = Some (Str ''NotSupported'')
       \<and> detail = Some ''charger returned CallError NotSupported: Smart charging is off'')\<close>

lemma call_result_read:
  assumes "from_str E text = Inr (Arr [Num (PosInt 3), Str ''p'', Obj kvs])"
  shows "answered_with E now act text P = (case call_result_status act (Option.bind (map_of kvs ''status'') as_str) of
     (st, detail) \<Rightarrow> P st (Some (Obj kvs)) detail)"
  using assms by (simp add: answered_with_def parse_def frame_message_type_def interpret_response_def nth_opt_def Let_def split: prod.split)

lemma answer_tests_pass:
  assumes accepted: \<open>from_str E ''[3,"p",{"status":"Accepted"}]'' = Inr (Arr [Num (PosInt 3), Str ''p'', Obj [(''status'', Str ''Accepted'')]])\<close>
    and not_supported: \<open>from_str E ''[3,"p",{"status":"NotSupported"}]''
        = Inr (Arr [Num (PosInt 3), Str ''p'', Obj [(''status'', Str ''NotSupported'')]])\<close>
    and unknown: \<open>from_str E ''[3,"p",{"status":"Unknown"}]'' = Inr (Arr [Num (PosInt 3), Str ''p'', Obj [(''status'', Str ''Unknown'')]])\<close>
    and reboot: \<open>from_str E ''[3,"p",{"status":"RebootRequired"}]''
        = Inr (Arr [Num (PosInt 3), Str ''p'', Obj [(''status'', Str ''RebootRequired'')]])\<close>
    and keys: \<open>from_str E ''[3,"p",{"configurationKey":[{"key":"HeartbeatInterval","readonly":false,"value":"300"}]}]''
        = Inr (Arr [Num (PosInt 3), Str ''p'', Obj [(''configurationKey'', Arr [Obj [(''key'', Str ''HeartbeatInterval''),
            (''readonly'', Bool False), (''value'', Str ''300'')]])]])\<close>
    and call_error: \<open>from_str E ''[4,"p","NotSupported","Smart charging is off",{}]''
        = Inr (Arr [Num (PosInt 4), Str ''p'', Str ''NotSupported'', Str ''Smart charging is off'', Obj []])\<close>
  shows "test_accepted_and_rejected_call_results E now"
    "test_answers_that_leave_the_desired_state_count_as_accepted E now"
    "test_get_configuration_has_no_status_and_is_accepted E now"
    "test_call_error_is_reported_with_its_code E now"
proof -
  show "test_accepted_and_rejected_call_results E now"
    by (simp add: test_accepted_and_rejected_call_results_def call_result_read[OF accepted] call_result_read[OF not_supported] call_result_status_def)
  show "test_answers_that_leave_the_desired_state_count_as_accepted E now"
    by (simp add: test_answers_that_leave_the_desired_state_count_as_accepted_def call_result_read[OF unknown] call_result_read[OF reboot]
        call_result_status_def starts_with_def)
  show "test_get_configuration_has_no_status_and_is_accepted E now"
    by (simp add: test_get_configuration_has_no_status_and_is_accepted_def call_result_read[OF keys] call_result_status_def nth_opt_def)
  show "test_call_error_is_reported_with_its_code E now"
    by (simp add: test_call_error_is_reported_with_its_code_def answered_with_def parse_def frame_message_type_def call_error
        interpret_response_def nth_opt_def Let_def)
qed

section \<open>JSON payloads\<close>

definition test_json_object_on_the_limit_topic_is_accepted_too :: "ext \<Rightarrow> utc \<Rightarrow> bool" where
  \<open>test_json_object_on_the_limit_topic_is_accepted_too E now \<longleftrightarrow>
     passes (parse_command_payload E now TopicCurrentLimit ''{"command":"set_current_limit","limit_a":10,"id":"x"}'')
       (\<lambda>req. command req = SetCurrentLimit (Fin 10) \<and> req_id req = ''x'')\<close>

definition test_json_commands_parse_with_ids_and_defaults :: "ext \<Rightarrow> utc \<Rightarrow> bool" where
  \<open>test_json_commands_parse_with_ids_and_defaults E now \<longleftrightarrow>
     passes (parse_command_payload E now TopicCommand ''{"id": 42, "command": "get_configuration"}'')
       (\<lambda>req. req_id req = ''42'' \<and> command req = GetConfiguration [])
     \<and> passes (parse_command_payload E now TopicCommand ''{"command": "get_composite_schedule"}'')
       (\<lambda>req. command req = GetCompositeSchedule None 3600 \<and> starts_with ''cmd-'' (req_id req))
     \<and> passes (parse_command_payload E now TopicCommand
         ''{"command": "trigger_message", "requested_message": "MeterValues", "connector_id": 1}'')
       (\<lambda>req. command req = TriggerMessage ''MeterValues'' (Some 1))\<close>

definition test_unknown_or_malformed_json_commands_are_invalid :: "ext \<Rightarrow> utc \<Rightarrow> bool" where
  \<open>test_unknown_or_malformed_json_commands_are_invalid E now \<longleftrightarrow>
     fails (parse_command_payload E now TopicCommand ''{"command":"reboot"}'') (\<lambda>err. contains err ''unrecognised command'')
     \<and> fails (parse_command_payload E now TopicCommand ''[1,2,3]'') (\<lambda>_. True)
     \<and> fails (parse_command_payload E now TopicCommand ''not json'') (\<lambda>_. True)
     \<and> fails (parse_command_payload E now TopicCommand ''{"command":"set_current_limit"}'') (\<lambda>_. True)
     \<and> fails (parse_command_payload E now TopicCommand ''{"command":"set_current_limit","limit_a":16,"id":[1]}'') (\<lambda>_. True)\<close>

text \<open>A payload of printable characters that neither begins nor ends with a blank is read as it is.\<close>

definition plain :: "string \<Rightarrow> bool" where
  "plain t \<longleftrightarrow> from_utf8 t = Some t \<and> trim t = t \<and> t \<noteq> []"

lemma json_payload:
  assumes "plain t" "kind = TopicCurrentLimit \<longrightarrow> starts_with ''{'' t" "from_str E t = Inr (Obj kvs)"
  shows "parse_command_payload E now kind t =
    (case request_id_of E now (map_of kvs ''id'') of
       Inl e \<Rightarrow> Inl e
     | Inr i \<Rightarrow> (let kvs' = lenient_limit (obj_remove ''id'' kvs)
                in case command_of_object kvs' of None \<Rightarrow> Inl (unrecognised E (Obj kvs'))
                   | Some c \<Rightarrow> Inr (request_new now i c SourceMqtt)))"
  using assms by (auto simp: parse_command_payload_def plain_def Let_def split: sum.split)

lemma plain_texts:
  \<open>plain ''{"command":"set_current_limit","limit_a":10,"id":"x"}''\<close> \<open>plain ''{"id": 42, "command": "get_configuration"}''\<close>
  \<open>plain ''{"command": "get_composite_schedule"}''\<close> \<open>plain ''{"command":"reboot"}''\<close> \<open>plain ''[1,2,3]''\<close> \<open>plain ''not json''\<close>
  \<open>plain ''{"command": "trigger_message", "requested_message": "MeterValues", "connector_id": 1}''\<close>
  \<open>plain ''{"command":"set_current_limit"}''\<close> \<open>plain ''{"command":"set_current_limit","limit_a":16,"id":[1]}''\<close>
  by (simp_all add: plain_def from_utf8_def trim_def trim_start.simps trim_end.simps ws_suffix_def starts_with_def)

lemma payload_tests_pass:
  assumes limit: \<open>from_str E ''{"command":"set_current_limit","limit_a":10,"id":"x"}''
        = Inr (Obj [(''command'', Str ''set_current_limit''), (''limit_a'', Num (PosInt 10)), (''id'', Str ''x'')])\<close>
    and keys: \<open>from_str E ''{"id": 42, "command": "get_configuration"}''
        = Inr (Obj [(''id'', Num (PosInt 42)), (''command'', Str ''get_configuration'')])\<close> "show_json E (Num (PosInt 42)) = ''42''"
    and schedule: \<open>from_str E ''{"command": "get_composite_schedule"}'' = Inr (Obj [(''command'', Str ''get_composite_schedule'')])\<close>
    and trigger: \<open>from_str E ''{"command": "trigger_message", "requested_message": "MeterValues", "connector_id": 1}''
        = Inr (Obj [(''command'', Str ''trigger_message''), (''requested_message'', Str ''MeterValues''), (''connector_id'', Num (PosInt 1))])\<close>
    and reboot: \<open>from_str E ''{"command":"reboot"}'' = Inr (Obj [(''command'', Str ''reboot'')])\<close>
    and array: \<open>from_str E ''[1,2,3]'' = Inr (Arr [Num (PosInt 1), Num (PosInt 2), Num (PosInt 3)])\<close>
    and garbage: \<open>from_str E ''not json'' = Inl e\<close>
    and no_limit: \<open>from_str E ''{"command":"set_current_limit"}'' = Inr (Obj [(''command'', Str ''set_current_limit'')])\<close>
    and bad_id: \<open>from_str E ''{"command":"set_current_limit","limit_a":16,"id":[1]}''
        = Inr (Obj [(''command'', Str ''set_current_limit''), (''limit_a'', Num (PosInt 16)), (''id'', Arr [Num (PosInt 1)])])\<close>
  shows "test_json_object_on_the_limit_topic_is_accepted_too E now"
    "test_json_commands_parse_with_ids_and_defaults E now"
    "test_unknown_or_malformed_json_commands_are_invalid E now"
proof -
  note [simp] = request_id_of_def lenient_limit_def obj_remove_def command_of_object_def request_new_def generated_id_def
    trim_def trim_start.simps trim_end.simps ws_suffix_def starts_with_def de_keys_def de_opt_u32_def default_schedule_duration_def Let_def
  have ten: "rnd 10 = Fin 10" using rnd_of_int[of 10] by simp
  show "test_json_object_on_the_limit_topic_is_accepted_too E now"
    by (simp add: test_json_object_on_the_limit_topic_is_accepted_too_def json_payload[OF plain_texts(1) _ limit] ten)
  show "test_json_commands_parse_with_ids_and_defaults E now"
    by (simp add: test_json_commands_parse_with_ids_and_defaults_def json_payload[OF plain_texts(2) _ keys(1)] keys(2)
        json_payload[OF plain_texts(3) _ schedule] json_payload[OF plain_texts(7) _ trigger])
  have "fails (parse_command_payload E now TopicCommand ''[1,2,3]'') (\<lambda>_. True)"
    "fails (parse_command_payload E now TopicCommand ''not json'') (\<lambda>_. True)"
    using plain_texts(5,6) array garbage by (simp_all add: parse_command_payload_def plain_def)
  then show "test_unknown_or_malformed_json_commands_are_invalid E now"
    by (simp add: test_unknown_or_malformed_json_commands_are_invalid_def json_payload[OF plain_texts(4) _ reboot] unrecognised_def
        json_payload[OF plain_texts(8) _ no_limit] json_payload[OF plain_texts(9) _ bad_id])
qed

section \<open>Results\<close>

definition test_result_for_request_never_sent_has_no_ocpp_request :: "ext \<Rightarrow> utc \<Rightarrow> bool" where
  "test_result_for_request_never_sent_has_no_ocpp_request E now \<longleftrightarrow>
     (let r = result_for_request E now (tested_request now (GetConfiguration [])) NotConnected None
      in res_status r = NotConnected \<and> res_action r = Some ''GetConfiguration'' \<and> ocpp_request r = None \<and> \<not> is_limit_result r)"

lemma result_tests_pass: "test_result_for_request_never_sent_has_no_ocpp_request E now"
  by (simp add: test_result_for_request_never_sent_has_no_ocpp_request_def result_for_request_def tested_request_def request_new_def
      is_limit_result_def Let_def)

end
