(* ===== verification/Test_Forwarder.thy ===== *)
theory Test_Forwarder
  imports Test_Base Forwarder
begin

text \<open>
  The unit tests of \<open>src/forwarder.rs\<close>, run on the model: the call tracker, forwarding through a sink that records and one
  that always fails, both buffers, replay, discarding and eviction.
\<close>

section \<open>Set-up\<close>

definition test_sink_send :: "string list send_raw" where
  "test_sink_send messages text = (Inr (), messages @ [text])"

definition failing_sink_send :: "unit send_raw" where
  "failing_sink_send u text = (Inl (Forwarding ''Simulated send failure''), u)"

definition make_frame_with_timestamp :: "string \<Rightarrow> utc \<Rightarrow> ocpp_frame" where
  \<open>make_frame_with_timestamp uid t =
     \<lparr>raw = ''[2, "'' @ uid @ ''", "Heartbeat", {}]'', message_type = Call ''Heartbeat'', unique_id = uid, received_at = t\<rparr>\<close>

definition make_call_frame :: "utc \<Rightarrow> string \<Rightarrow> string \<Rightarrow> ocpp_frame" where
  \<open>make_call_frame now uid act =
     \<lparr>raw = ''[2, "'' @ uid @ ''", "'' @ act @ ''", {}]'', message_type = Call act, unique_id = uid, received_at = now\<rparr>\<close>

definition make_call_result_frame :: "utc \<Rightarrow> string \<Rightarrow> ocpp_frame" where
  \<open>make_call_result_frame now uid =
     \<lparr>raw = ''[3, "'' @ uid @ ''", {"status": "Accepted"}]'', message_type = CallResult, unique_id = uid, received_at = now\<rparr>\<close>

definition make_call_error_frame :: "utc \<Rightarrow> string \<Rightarrow> ocpp_frame" where
  \<open>make_call_error_frame now uid =
     \<lparr>raw = ''[4, "'' @ uid @ ''", "InternalError", "Something failed", {}]'', message_type = CallError, unique_id = uid,
      received_at = now\<rparr>\<close>

definition tested_forwarder :: "nat \<Rightarrow> nat \<Rightarrow> message_forwarder" where
  "tested_forwarder mqtt_capacity max_size = forwarder_new (channel_new mqtt_capacity) max_size (from_secs 30) (from_secs 300)"

definition numbered :: "utc \<Rightarrow> string \<Rightarrow> nat \<Rightarrow> ocpp_frame list" where
  "numbered now prefix n = map (\<lambda>i. make_call_frame now (prefix @ show_nat i) ''Heartbeat'') [0..<n]"

section \<open>The call tracker\<close>

definition test_call_tracker_track_and_resolve :: "utc \<Rightarrow> bool" where
  "test_call_tracker_track_and_resolve now \<longleftrightarrow>
     (let t = tracker_new (from_secs 300);
          t = track_call now ''msg-1'' ''BootNotification'' ChargerToCentral t;
          t2 = track_call now ''msg-2'' ''Heartbeat'' ChargerToCentral t;
          (a, t1) = resolve ''msg-1'' t2; (b, t0) = resolve ''msg-2'' t1
      in pending_count t2 = 2 \<and> a = Some ''BootNotification'' \<and> pending_count t1 = 1
         \<and> b = Some ''Heartbeat'' \<and> pending_count t0 = 0)"

definition test_call_tracker_resolve_unknown_returns_none :: bool where
  "test_call_tracker_resolve_unknown_returns_none \<longleftrightarrow> fst (resolve ''nonexistent'' (tracker_new (from_secs 300))) = None"

definition test_call_tracker_recent_pending_is_per_direction_and_ages_out :: "utc \<Rightarrow> bool" where
  "test_call_tracker_recent_pending_is_per_direction_and_ages_out now \<longleftrightarrow>
     (let t0 = tracker_new (from_secs 300);
          t1 = track_call now ''cs-1'' ''RemoteStartTransaction'' CentralToCharger t0;
          t2 = snd (resolve ''cs-1'' t1);
          t3 = t2\<lparr>pending_calls := AList.update ''stale'' \<lparr>pc_action = ''Reset'', pc_direction = CentralToCharger,
                 pc_sent_at = now - int (from_secs 30)\<rparr> (pending_calls t2)\<rparr>
      in \<not> has_recent_pending_in now CentralToCharger (from_secs 10) t0
         \<and> has_recent_pending_in now CentralToCharger (from_secs 10) t1
         \<and> \<not> has_recent_pending_in now ChargerToCentral (from_secs 10) t1
         \<and> \<not> has_recent_pending_in now CentralToCharger (from_secs 10) t2
         \<and> \<not> has_recent_pending_in now CentralToCharger (from_secs 10) t3)"

definition test_call_tracker_resolve_consumes_entry :: "utc \<Rightarrow> bool" where
  "test_call_tracker_resolve_consumes_entry now \<longleftrightarrow>
     (let t = track_call now ''msg-1'' ''StatusNotification'' CentralToCharger (tracker_new (from_secs 300));
          (first, t') = resolve ''msg-1'' t
      in first = Some ''StatusNotification'' \<and> fst (resolve ''msg-1'' t') = None)"

definition test_call_tracker_cleanup_expired :: "utc \<Rightarrow> bool" where
  "test_call_tracker_cleanup_expired now \<longleftrightarrow>
     (let t = tracker_new (from_secs 1);
          t = t\<lparr>pending_calls := AList.update ''old-msg'' \<lparr>pc_action = ''OldAction'', pc_direction = ChargerToCentral,
                 pc_sent_at = now - int (from_secs 10)\<rparr> (pending_calls t)\<rparr>;
          t = track_call now ''fresh-msg'' ''FreshAction'' ChargerToCentral t;
          (evicted, t') = cleanup_expired now t;
          (fresh, t'') = resolve ''fresh-msg'' t'
      in pending_count t = 2 \<and> evicted = 1 \<and> pending_count t' = 1 \<and> fresh = Some ''FreshAction''
         \<and> fst (resolve ''old-msg'' t'') = None)"

definition test_call_tracker_overwrite_same_unique_id :: "utc \<Rightarrow> bool" where
  "test_call_tracker_overwrite_same_unique_id now \<longleftrightarrow>
     (let t = tracker_new (from_secs 300);
          t = track_call now ''msg-1'' ''BootNotification'' ChargerToCentral t;
          t = track_call now ''msg-1'' ''Heartbeat'' ChargerToCentral t;
          (action, t') = resolve ''msg-1'' t
      in action = Some ''Heartbeat'' \<and> pending_count t' = 0)"

lemmas tracker_simps = tracker_new_def track_call_def resolve_def pending_count_def has_recent_pending_in_def cleanup_expired_def Let_def

lemma tracker_tests_pass:
  "test_call_tracker_track_and_resolve now"
  "test_call_tracker_resolve_unknown_returns_none"
  "test_call_tracker_resolve_consumes_entry now"
  "test_call_tracker_overwrite_same_unique_id now"
  by (simp_all add: test_call_tracker_track_and_resolve_def test_call_tracker_resolve_unknown_returns_none_def
      test_call_tracker_resolve_consumes_entry_def test_call_tracker_overwrite_same_unique_id_def tracker_simps)

lemma ages: "chrono_from_std (from_secs 10) (from_secs 10) = 10000000000" "chrono_from_std (from_secs 300) (from_secs 1) = 1000000000"
  "int (from_secs 30) = 30000000000" "int (from_secs 10) = 10000000000"
  by (simp_all add: chrono_from_std_def from_secs_def)

lemma tracker_age_tests_pass:
  "test_call_tracker_recent_pending_is_per_direction_and_ages_out now"
  "test_call_tracker_cleanup_expired now"
  by (simp_all add: test_call_tracker_recent_pending_is_per_direction_and_ages_out_def test_call_tracker_cleanup_expired_def
      tracker_simps ages[unfolded One_nat_def])

section \<open>Forwarding\<close>

definition test_forward_upstream_preserves_raw_bytes :: "utc \<Rightarrow> bool" where
  \<open>test_forward_upstream_preserves_raw_bytes now \<longleftrightarrow>
     (let text = ''[2,  "id-42" , "BootNotification",  {"model": "Autel"}]'';
          frame = \<lparr>raw = text, message_type = Call ''BootNotification'', unique_id = ''id-42'', received_at = now\<rparr>;
          (r, messages, fw) = forward_upstream test_sink_send now frame [] (tested_forwarder 100 100)
      in r = Inr () \<and> length messages = 1 \<and> messages ! 0 = text)\<close>

definition test_forward_downstream_preserves_raw_bytes :: "utc \<Rightarrow> bool" where
  \<open>test_forward_downstream_preserves_raw_bytes now \<longleftrightarrow>
     (let text = ''[3,"resp-1",{"status":"Accepted"}]'';
          frame = \<lparr>raw = text, message_type = CallResult, unique_id = ''resp-1'', received_at = now\<rparr>;
          (r, messages, fw) = forward_downstream test_sink_send now frame [] (tested_forwarder 100 100)
      in r = Inr () \<and> length messages = 1 \<and> messages ! 0 = text)\<close>

text \<open>Several frames, every one of which must be forwarded.\<close>

fun forward_each :: "utc \<Rightarrow> ocpp_frame list \<Rightarrow> string list \<Rightarrow> message_forwarder \<Rightarrow> (string list \<times> message_forwarder) option" where
  "forward_each now [] messages fw = Some (messages, fw)"
| "forward_each now (f # fs) messages fw =
     (case forward_upstream test_sink_send now f messages fw of
        (Inl e, _) \<Rightarrow> None
      | (Inr _, messages', fw') \<Rightarrow> forward_each now fs messages' fw')"

definition test_forward_maintains_fifo_order :: "utc \<Rightarrow> bool" where
  "test_forward_maintains_fifo_order now \<longleftrightarrow>
     holds_of (forward_each now (numbered now ''msg-'' 5) [] (tested_forwarder 100 100)) (\<lambda>(messages, fw).
       length messages = 5 \<and> list_all (\<lambda>(i, msg). contains msg (''msg-'' @ show_nat i)) (zip [0..<5] messages))"

definition test_mqtt_channel_full_does_not_block_forwarding :: "utc \<Rightarrow> bool" where
  "test_mqtt_channel_full_does_not_block_forwarding now \<longleftrightarrow>
     holds_of (forward_each now (numbered now ''full-'' 5) [] (tested_forwarder 1 100)) (\<lambda>(messages, fw). length messages = 5)"

definition test_forward_emits_mqtt_event_after_forwarding :: "utc \<Rightarrow> bool" where
  "test_forward_emits_mqtt_event_after_forwarding now \<longleftrightarrow>
     (case forward_upstream test_sink_send now (make_call_frame now ''evt-1'' ''StatusNotification'') [] (tested_forwarder 100 100) of
        (r, _, fw) \<Rightarrow> r = Inr () \<and> holds_of (nth_opt 0 (passed (mqtt_tx fw))) (\<lambda>ev. case ev of
            MessageForwarded cp frame dir act \<Rightarrow>
              unique_id frame = ''evt-1'' \<and> dir = ChargerToCentral \<and> act = ''StatusNotification''
          | _ \<Rightarrow> False))"

fun action_is :: "string \<Rightarrow> mqtt_event \<Rightarrow> bool" where
  "action_is act (MessageForwarded cp frame dir a) = (a = act)"
| "action_is act _ = False"

definition test_call_tracking_resolves_call_result :: "utc \<Rightarrow> bool" where
  "test_call_tracking_resolves_call_result now \<longleftrightarrow>
     (case forward_upstream test_sink_send now (make_call_frame now ''track-1'' ''RemoteStartTransaction'') [] (tested_forwarder 100 100) of
        (r, messages, fw) \<Rightarrow>
      (case forward_downstream test_sink_send now (make_call_result_frame now ''track-1'') messages fw of
        (r', _, fw') \<Rightarrow> r = Inr () \<and> r' = Inr ()
          \<and> holds_of (nth_opt 1 (passed (mqtt_tx fw'))) (action_is ''RemoteStartTransaction'')))"

definition test_call_tracking_resolves_call_error :: "utc \<Rightarrow> bool" where
  "test_call_tracking_resolves_call_error now \<longleftrightarrow>
     (case forward_downstream test_sink_send now (make_call_frame now ''err-1'' ''Authorize'') [] (tested_forwarder 100 100) of
        (r, messages, fw) \<Rightarrow>
      (case forward_upstream test_sink_send now (make_call_error_frame now ''err-1'') messages fw of
        (r', _, fw') \<Rightarrow> r = Inr () \<and> r' = Inr () \<and> holds_of (nth_opt 1 (passed (mqtt_tx fw'))) (action_is ''Authorize'')))"

definition test_untracked_response_uses_unknown_action :: "utc \<Rightarrow> bool" where
  "test_untracked_response_uses_unknown_action now \<longleftrightarrow>
     (case forward_downstream test_sink_send now (make_call_result_frame now ''orphan-1'') [] (tested_forwarder 100 100) of
        (r, _, fw) \<Rightarrow> r = Inr () \<and> holds_of (nth_opt 0 (passed (mqtt_tx fw))) (action_is ''Unknown''))"

definition test_forwarding_failure_does_not_emit_mqtt_event :: "utc \<Rightarrow> bool" where
  "test_forwarding_failure_does_not_emit_mqtt_event now \<longleftrightarrow>
     (case forward_upstream failing_sink_send now (make_call_frame now ''fail-1'' ''Heartbeat'') () (tested_forwarder 100 100) of
        (r, _, fw) \<Rightarrow> isl r \<and> passed (mqtt_tx fw) = [])"

lemmas forward_simps = forward_upstream_def forward_downstream_def forward_message_def resolve_action_def tested_forwarder_def
  forwarder_new_def with_charge_point_id_def test_sink_send_def failing_sink_send_def make_call_frame_def make_call_result_frame_def
  make_call_error_frame_def make_frame_with_timestamp_def try_send_def channel_new_def nth_opt_def tracker_simps

lemma forward_tests_pass:
  "test_forward_upstream_preserves_raw_bytes now"
  "test_forward_downstream_preserves_raw_bytes now"
  "test_forward_emits_mqtt_event_after_forwarding now"
  "test_call_tracking_resolves_call_result now"
  "test_call_tracking_resolves_call_error now"
  "test_untracked_response_uses_unknown_action now"
  "test_forwarding_failure_does_not_emit_mqtt_event now"
  by (simp_all add: test_forward_upstream_preserves_raw_bytes_def test_forward_downstream_preserves_raw_bytes_def
      test_forward_emits_mqtt_event_after_forwarding_def test_call_tracking_resolves_call_result_def
      test_call_tracking_resolves_call_error_def test_untracked_response_uses_unknown_action_def
      test_forwarding_failure_does_not_emit_mqtt_event_def forward_simps)

lemma five: "[0..<5] = [0, 1, 2, 3, 4]" "show_nat 0 = ''0''" "show_nat 1 = ''1''" "show_nat 2 = ''2''" "show_nat 3 = ''3''" "show_nat 4 = ''4''"
  by code_simp+

lemma forward_order_tests_pass:
  "test_forward_maintains_fifo_order now" "test_mqtt_channel_full_does_not_block_forwarding now"
  by (simp_all add: test_forward_maintains_fifo_order_def test_mqtt_channel_full_does_not_block_forwarding_def numbered_def five
      forward_simps starts_with_def)

section \<open>Buffers\<close>

definition test_buffer_upstream_adds_messages :: "utc \<Rightarrow> bool" where
  "test_buffer_upstream_adds_messages now \<longleftrightarrow>
     length (upstream_buffer (fold buffer_upstream (numbered now ''buf-'' 5) (tested_forwarder 100 100))) = 5"

definition test_buffer_downstream_adds_messages :: "utc \<Rightarrow> bool" where
  "test_buffer_downstream_adds_messages now \<longleftrightarrow>
     length (downstream_buffer (fold buffer_downstream (numbered now ''buf-'' 5) (tested_forwarder 100 100))) = 5"

definition test_buffer_upstream_evicts_oldest_when_full :: "utc \<Rightarrow> bool" where
  "test_buffer_upstream_evicts_oldest_when_full now \<longleftrightarrow>
     (let fw = fold buffer_upstream (numbered now ''msg-'' 5) (tested_forwarder 100 5);
          fw' = buffer_upstream (make_call_frame now ''msg-5'' ''Heartbeat'') fw
      in length (upstream_buffer fw) = 5 \<and> length (upstream_buffer fw') = 5
         \<and> unique_id (upstream_buffer fw' ! 0) = ''msg-1'' \<and> unique_id (upstream_buffer fw' ! 4) = ''msg-5'')"

definition test_buffer_downstream_evicts_oldest_when_full :: "utc \<Rightarrow> bool" where
  "test_buffer_downstream_evicts_oldest_when_full now \<longleftrightarrow>
     (let fw = fold buffer_downstream (numbered now ''msg-'' 6) (tested_forwarder 100 3)
      in length (downstream_buffer fw) = 3 \<and> unique_id (downstream_buffer fw ! 0) = ''msg-3''
         \<and> unique_id (downstream_buffer fw ! 1) = ''msg-4'' \<and> unique_id (downstream_buffer fw ! 2) = ''msg-5'')"

definition test_flush_upstream_delivers_in_fifo_order :: "utc \<Rightarrow> bool" where
  "test_flush_upstream_delivers_in_fifo_order now \<longleftrightarrow>
     (case flush_upstream test_sink_send [] (fold buffer_upstream (numbered now ''flush-'' 5) (tested_forwarder 100 100)) of
        (count, messages, fw) \<Rightarrow> count = Inr 5 \<and> length (upstream_buffer fw) = 0 \<and> length messages = 5
          \<and> list_all (\<lambda>(i, msg). contains msg (''flush-'' @ show_nat i)) (zip [0..<5] messages))"

definition test_flush_downstream_delivers_in_fifo_order :: "utc \<Rightarrow> bool" where
  "test_flush_downstream_delivers_in_fifo_order now \<longleftrightarrow>
     (case flush_downstream test_sink_send [] (fold buffer_downstream
          (map (\<lambda>i. make_call_frame now (''ds-'' @ show_nat i) ''StatusNotification'') [0..<3]) (tested_forwarder 100 100)) of
        (count, messages, fw) \<Rightarrow> count = Inr 3 \<and> length (downstream_buffer fw) = 0 \<and> length messages = 3
          \<and> list_all (\<lambda>(i, msg). contains msg (''ds-'' @ show_nat i)) (zip [0..<3] messages))"

definition test_flush_upstream_on_empty_buffer_returns_zero :: bool where
  "test_flush_upstream_on_empty_buffer_returns_zero \<longleftrightarrow>
     (case flush_upstream test_sink_send [] (tested_forwarder 100 100) of (count, messages, fw) \<Rightarrow> count = Inr 0 \<and> length messages = 0)"

definition test_flush_upstream_stops_on_send_failure :: "utc \<Rightarrow> bool" where
  "test_flush_upstream_stops_on_send_failure now \<longleftrightarrow>
     (case flush_upstream failing_sink_send () (fold buffer_upstream (numbered now ''fail-flush-'' 3) (tested_forwarder 100 100)) of
        (result, _, fw) \<Rightarrow> isl result \<and> length (upstream_buffer fw) = 3 \<and> unique_id (upstream_buffer fw ! 0) = ''fail-flush-0'')"

definition test_discard_downstream_buffer :: "utc \<Rightarrow> bool" where
  "test_discard_downstream_buffer now \<longleftrightarrow>
     (let fw = fold buffer_downstream (numbered now ''discard-'' 10) (tested_forwarder 100 100)
      in length (downstream_buffer fw) = 10 \<and> length (downstream_buffer (discard_downstream_buffer fw)) = 0)"

definition test_discard_downstream_buffer_empty_is_noop :: bool where
  "test_discard_downstream_buffer_empty_is_noop \<longleftrightarrow>
     length (downstream_buffer (discard_downstream_buffer (tested_forwarder 100 100))) = 0"

definition test_evict_expired_messages_removes_old_from_both_buffers :: "utc \<Rightarrow> bool" where
  "test_evict_expired_messages_removes_old_from_both_buffers now \<longleftrightarrow>
     (let old_time = now - int (from_secs 60); fresh_time = now - int (from_secs 5);
          fw = (tested_forwarder 100 100)
            \<lparr>upstream_buffer := [make_frame_with_timestamp ''old-up-1'' old_time, make_frame_with_timestamp ''old-up-2'' old_time,
               make_frame_with_timestamp ''fresh-up-1'' fresh_time],
             downstream_buffer := [make_frame_with_timestamp ''old-down-1'' old_time,
               make_frame_with_timestamp ''fresh-down-1'' fresh_time, make_frame_with_timestamp ''fresh-down-2'' fresh_time]\<rparr>;
          (evicted, fw) = evict_expired_messages now fw
      in evicted = 3 \<and> length (upstream_buffer fw) = 1 \<and> unique_id (upstream_buffer fw ! 0) = ''fresh-up-1''
         \<and> length (downstream_buffer fw) = 2 \<and> unique_id (downstream_buffer fw ! 0) = ''fresh-down-1''
         \<and> unique_id (downstream_buffer fw ! 1) = ''fresh-down-2'')"

definition test_evict_expired_messages_keeps_all_when_none_expired :: "utc \<Rightarrow> bool" where
  "test_evict_expired_messages_keeps_all_when_none_expired now \<longleftrightarrow>
     (case evict_expired_messages now (fold buffer_upstream (numbered now ''fresh-'' 5) (tested_forwarder 100 100)) of
        (evicted, fw) \<Rightarrow> evicted = 0 \<and> length (upstream_buffer fw) = 5)"

definition test_evict_expired_messages_empty_buffers :: "utc \<Rightarrow> bool" where
  "test_evict_expired_messages_empty_buffers now \<longleftrightarrow> fst (evict_expired_messages now (tested_forwarder 100 100)) = 0"

definition test_buffer_never_exceeds_max_size :: "utc \<Rightarrow> bool" where
  "test_buffer_never_exceeds_max_size now \<longleftrightarrow>
     (let fill = (\<lambda>n. fold buffer_upstream (numbered now ''overflow-'' n) (tested_forwarder 100 10))
      in list_all (\<lambda>n. length (upstream_buffer (fill (Suc n))) \<le> 10) [0..<50]
         \<and> length (upstream_buffer (fill 50)) = 10
         \<and> unique_id (upstream_buffer (fill 50) ! 0) = ''overflow-40'' \<and> unique_id (upstream_buffer (fill 50) ! 9) = ''overflow-49'')"

lemma few: "[0..<3] = [0, 1, 2 :: nat]" "[0..<6] = [0, 1, 2, 3, 4, 5]" "[0..<10] = [0, 1, 2, 3, 4, 5, 6, 7, 8, 9]" "show_nat 5 = ''5''"
  by code_simp+

lemmas buffer_simps = buffer_upstream_def buffer_downstream_def flush_upstream_def flush_downstream_def discard_downstream_buffer_def
  numbered_def five five(3)[unfolded One_nat_def] few forward_simps

lemma buffer_tests_pass:
  "test_buffer_upstream_adds_messages now" "test_buffer_downstream_adds_messages now"
  "test_buffer_upstream_evicts_oldest_when_full now" "test_buffer_downstream_evicts_oldest_when_full now"
  "test_discard_downstream_buffer now" "test_discard_downstream_buffer_empty_is_noop"
  by (simp_all add: test_buffer_upstream_adds_messages_def test_buffer_downstream_adds_messages_def
      test_buffer_upstream_evicts_oldest_when_full_def test_buffer_downstream_evicts_oldest_when_full_def
      test_discard_downstream_buffer_def test_discard_downstream_buffer_empty_is_noop_def buffer_simps)

lemma flush_tests_pass:
  "test_flush_upstream_delivers_in_fifo_order now" "test_flush_downstream_delivers_in_fifo_order now"
  "test_flush_upstream_on_empty_buffer_returns_zero" "test_flush_upstream_stops_on_send_failure now"
  by (simp_all add: test_flush_upstream_delivers_in_fifo_order_def test_flush_downstream_delivers_in_fifo_order_def
      test_flush_upstream_on_empty_buffer_returns_zero_def test_flush_upstream_stops_on_send_failure_def buffer_simps starts_with_def)

lemma eviction_ages: "chrono_from_std (from_secs 30) (from_secs 30) = 30000000000" "int (from_secs 60) = 60000000000"
  "int (from_secs 5) = 5000000000"
  by (simp_all add: chrono_from_std_def from_secs_def)

lemma eviction_tests_pass:
  "test_evict_expired_messages_removes_old_from_both_buffers now"
  "test_evict_expired_messages_keeps_all_when_none_expired now"
  "test_evict_expired_messages_empty_buffers now"
  by (simp_all add: test_evict_expired_messages_removes_old_from_both_buffers_def
      test_evict_expired_messages_keeps_all_when_none_expired_def test_evict_expired_messages_empty_buffers_def
      evict_expired_messages_def buffer_simps eviction_ages)

text \<open>What fifty frames leave of a buffer of ten follows from what a buffer keeps.\<close>

lemma filled: "upstream_buffer (fold buffer_upstream fs (tested_forwarder 100 10)) = drop (length fs - 10) fs"
  by (simp add: tested_forwarder_def forwarder_new_def buffer_keeps_newest)

lemma overflow_test_passes: "test_buffer_never_exceeds_max_size now"
proof -
  have "show_nat 40 = ''40''" "show_nat 49 = ''49''" by code_simp+
  then show ?thesis
    by (auto simp: test_buffer_never_exceeds_max_size_def filled numbered_def make_call_frame_def list_all_iff simp del: upt_Suc)
qed

end
