(* ===== verification/Test_Snapshot.thy ===== *)
theory Test_Snapshot
  imports Test_Base Snapshot
begin

text \<open>
  The unit tests of \<open>src/mqtt.rs\<close> about the retained snapshot and those of \<open>src/snapshot_store.rs\<close>, run on the model. What
  serde_json makes of the frames is a premise about \<open>E\<close>.
\<close>

section \<open>Messages folded into the snapshot\<close>

definition call :: "string \<Rightarrow> ocpp_message_type" where
  "call act = Call act"

definition test_ocpp_args_index_follows_message_type_not_direction :: "ext \<Rightarrow> bool" where
  \<open>test_ocpp_args_index_follows_message_type_not_direction E \<longleftrightarrow>
     holds_of (ocpp_args E ''[2,"id","StatusNotification",{"status":"Charging"}]'' (call ''StatusNotification''))
       (\<lambda>a. map_of a ''status'' = Some (Str ''Charging''))
     \<and> holds_of (ocpp_args E ''[3,"id",{"transactionId":42}]'' CallResult) (\<lambda>b. map_of b ''transactionId'' = Some (Num (PosInt 42)))\<close>

definition test_status_notification_updates_snapshot :: "ext \<Rightarrow> utc \<Rightarrow> bool" where
  \<open>test_status_notification_updates_snapshot E now \<longleftrightarrow>
     (let (changed, st) = apply_message E now ''StatusNotification'' (call ''StatusNotification'')
            ''[2,"1","StatusNotification",{"connectorId":1,"errorCode":"NoError","status":"Charging"}]'' state_default
      in changed \<and> connector_status st = Some ''Charging'' \<and> error_code st = Some ''NoError'' \<and> last_updated st \<noteq> None)\<close>

definition test_repeated_identical_status_reports_no_change :: "ext \<Rightarrow> utc \<Rightarrow> utc \<Rightarrow> bool" where
  \<open>test_repeated_identical_status_reports_no_change E now later \<longleftrightarrow>
     (let text = ''[2,"1","StatusNotification",{"connectorId":1,"errorCode":"NoError","status":"Charging"}]'';
          (first, st) = apply_message E now ''StatusNotification'' (call ''StatusNotification'') text state_default;
          (second, st) = apply_message E later ''StatusNotification'' (call ''StatusNotification'') text st
      in first \<and> \<not> second)\<close>

definition test_full_transaction_lifecycle :: "ext \<Rightarrow> utc \<Rightarrow> bool" where
  \<open>test_full_transaction_lifecycle E now \<longleftrightarrow>
     (let fold = (\<lambda>act mt text st. snd (apply_message E now act mt text st));
          st1 = fold ''StatusNotification'' (call ''StatusNotification'')
            ''[2,"1","StatusNotification",{"connectorId":1,"errorCode":"NoError","status":"Preparing"}]'' state_default;
          st2 = fold ''StartTransaction'' (call ''StartTransaction'')
            ''[2,"2","StartTransaction",{"connectorId":1,"idTag":"a1b2c3d4","meterStart":8076445}]'' st1;
          st3 = fold ''StartTransaction'' CallResult ''[3,"2",{"idTagInfo":{"status":"Accepted"},"transactionId":1000000001}]'' st2;
          st4 = fold ''StatusNotification'' (call ''StatusNotification'')
            ''[2,"3","StatusNotification",{"connectorId":1,"errorCode":"NoError","status":"Charging"}]'' st3;
          st5 = fold ''StopTransaction'' (call ''StopTransaction'')
            ''[2,"4","StopTransaction",{"idTag":"a1b2c3d4","meterStop":8080000,"transactionId":1000000001,"reason":"EVDisconnected","timestamp":"2026-09-01T07:22:16Z"}]'' st4
      in meter_start_wh st2 = Some 8076445 \<and> id_tag st2 = Some ''a1b2c3d4'' \<and> transaction_id st2 = None
         \<and> transaction_id st3 = Some 1000000001 \<and> connector_status st4 = Some ''Charging''
         \<and> transaction_id st5 = None \<and> meter_start_wh st5 = None \<and> id_tag st5 = None
         \<and> connector_status st5 = Some ''Charging'' \<and> last_meter_stop_wh st5 = Some 8080000
         \<and> last_session_energy_wh st5 = Some (8080000 - 8076445) \<and> last_transaction_id st5 = Some 1000000001
         \<and> last_stop_reason st5 = Some ''EVDisconnected'' \<and> last_stop_time st5 = Some ''2026-09-01T07:22:16Z'')\<close>

definition test_last_session_survives_the_next_session :: "ext \<Rightarrow> utc \<Rightarrow> bool" where
  \<open>test_last_session_survives_the_next_session E now \<longleftrightarrow>
     (let fold = (\<lambda>act text st. snd (apply_message E now act (call act) text st));
          st1 = fold ''StartTransaction'' ''[2,"1","StartTransaction",{"connectorId":1,"idTag":"a","meterStart":1000}]'' state_default;
          st2 = fold ''StopTransaction'' ''[2,"2","StopTransaction",{"meterStop":3000,"transactionId":7}]'' st1;
          st3 = fold ''StartTransaction'' ''[2,"3","StartTransaction",{"connectorId":1,"idTag":"b","meterStart":3000}]'' st2;
          st4 = fold ''StopTransaction'' ''[2,"4","StopTransaction",{"meterStop":9500,"transactionId":8}]'' st3
      in last_session_energy_wh st2 = Some 2000
         \<and> last_meter_stop_wh st3 = Some 3000 \<and> last_session_energy_wh st3 = Some 2000 \<and> last_transaction_id st3 = Some 7
         \<and> last_meter_stop_wh st4 = Some 9500 \<and> last_session_energy_wh st4 = Some 6500 \<and> last_transaction_id st4 = Some 8)\<close>

definition test_stop_without_a_seen_start_reports_no_delta :: "ext \<Rightarrow> utc \<Rightarrow> bool" where
  \<open>test_stop_without_a_seen_start_reports_no_delta E now \<longleftrightarrow>
     (let (_, st) = apply_message E now ''StopTransaction'' (call ''StopTransaction'')
            ''[2,"1","StopTransaction",{"meterStop":8084000,"transactionId":1000000001}]'' state_default
      in last_meter_stop_wh st = Some 8084000 \<and> last_session_energy_wh st = None \<and> last_transaction_id st = Some 1000000001)\<close>

definition test_stop_without_optional_fields :: "ext \<Rightarrow> utc \<Rightarrow> bool" where
  \<open>test_stop_without_optional_fields E now \<longleftrightarrow>
     (let (changed, st) = apply_message E now ''StopTransaction'' (call ''StopTransaction'')
            ''[2,"1","StopTransaction",{"meterStop":500,"transactionId":3}]'' state_default
      in changed \<and> last_stop_reason st = None \<and> last_stop_time st = None \<and> last_meter_stop_wh st = Some 500)\<close>

definition test_repeated_stop_transaction_reports_no_change :: "ext \<Rightarrow> utc \<Rightarrow> utc \<Rightarrow> bool" where
  \<open>test_repeated_stop_transaction_reports_no_change E now later \<longleftrightarrow>
     (let text = ''[2,"1","StopTransaction",{"meterStop":500,"transactionId":3}]'';
          (first, st) = apply_message E now ''StopTransaction'' (call ''StopTransaction'') text state_default;
          (second, st) = apply_message E later ''StopTransaction'' (call ''StopTransaction'') text st
      in first \<and> \<not> second)\<close>

definition test_meter_values_never_changes_the_snapshot :: "ext \<Rightarrow> utc \<Rightarrow> bool" where
  \<open>test_meter_values_never_changes_the_snapshot E now \<longleftrightarrow>
     (let (changed, st) = apply_message E now ''MeterValues'' (call ''MeterValues'')
            ''[2,"5","MeterValues",{"connectorId":1,"meterValue":[{"sampledValue":[{"measurand":"Power.Active.Import","value":"3651"}]}]}]''
            state_default
      in \<not> changed \<and> state_eq st state_default)\<close>

definition test_malformed_frame_is_ignored :: "ext \<Rightarrow> utc \<Rightarrow> bool" where
  \<open>test_malformed_frame_is_ignored E now \<longleftrightarrow>
     (let (first, st) = apply_message E now ''StatusNotification'' (call ''StatusNotification'') ''not json'' state_default;
          (second, st) = apply_message E now ''StatusNotification'' (call ''StatusNotification'') ''[2,"1"]'' st
      in \<not> first \<and> \<not> second \<and> state_eq st state_default)\<close>

definition test_snapshot_serializes_to_the_documented_shape :: "ext \<Rightarrow> utc \<Rightarrow> bool" where
  \<open>test_snapshot_serializes_to_the_documented_shape E now \<longleftrightarrow>
     (let fold = (\<lambda>act text st. snd (apply_message E now act (call act) text st));
          st1 = fold ''StatusNotification''
            ''[2,"1","StatusNotification",{"connectorId":1,"errorCode":"NoError","status":"Charging"}]'' state_default;
          v1 = state_json st1;
          st2 = fold ''StopTransaction''
            ''[2,"9","StopTransaction",{"meterStop":8084000,"transactionId":1000000001,"reason":"EVDisconnected"}]'' st1;
          v2 = state_json st2
      in get_key ''connector_status'' v1 = Some (Str ''Charging'') \<and> get_key ''error_code'' v1 = Some (Str ''NoError'')
         \<and> get_key ''transaction_id'' v1 = Some Null
         \<and> holds_of (get_key ''last_updated'' v1) (\<lambda>u. as_str u \<noteq> None)
         \<and> list_all (\<lambda>key. get_key key v1 = Some Null)
             [''last_meter_stop_wh'', ''last_session_energy_wh'', ''last_transaction_id'', ''last_stop_reason'',
              ''last_stop_time'', ''current_limit_a'', ''current_limit_status'', ''current_limit_updated'']
         \<and> get_key ''last_meter_stop_wh'' v2 = Some (Num (PosInt 8084000))
         \<and> get_key ''last_transaction_id'' v2 = Some (Num (PosInt 1000000001))
         \<and> get_key ''last_stop_reason'' v2 = Some (Str ''EVDisconnected''))\<close>

lemmas fold_simps = apply_message_def ocpp_args_def fold_message_def fold_status_def fold_start_def fold_started_def fold_stop_def
  session_energy_def wrap_i64_def str_arg_def i64_arg_def call_def state_default_def state_eq_def opt_f64_eq_def Let_def

lemma status_tests_pass:
  assumes \<open>from_str E ''[2,"id","StatusNotification",{"status":"Charging"}]''
        = Inr (Arr [Num (PosInt 2), Str ''id'', Str ''StatusNotification'', Obj [(''status'', Str ''Charging'')]])\<close>
    and \<open>from_str E ''[3,"id",{"transactionId":42}]'' = Inr (Arr [Num (PosInt 3), Str ''id'', Obj [(''transactionId'', Num (PosInt 42))]])\<close>
    and \<open>from_str E ''[2,"1","StatusNotification",{"connectorId":1,"errorCode":"NoError","status":"Charging"}]''
        = Inr (Arr [Num (PosInt 2), Str ''1'', Str ''StatusNotification'', Obj [(''connectorId'', Num (PosInt 1)),
            (''errorCode'', Str ''NoError''), (''status'', Str ''Charging'')]])\<close>
    and \<open>from_str E ''[2,"9","StopTransaction",{"meterStop":8084000,"transactionId":1000000001,"reason":"EVDisconnected"}]''
        = Inr (Arr [Num (PosInt 2), Str ''9'', Str ''StopTransaction'', Obj [(''meterStop'', Num (PosInt 8084000)),
            (''transactionId'', Num (PosInt 1000000001)), (''reason'', Str ''EVDisconnected'')]])\<close>
    and \<open>from_str E ''not json'' = Inl e\<close> \<open>from_str E ''[2,"1"]'' = Inr (Arr [Num (PosInt 2), Str ''1''])\<close>
    and \<open>from_str E ''[2,"5","MeterValues",{"connectorId":1,"meterValue":[{"sampledValue":[{"measurand":"Power.Active.Import","value":"3651"}]}]}]''
        = Inr (Arr [Num (PosInt 2), Str ''5'', Str ''MeterValues'', Obj [(''connectorId'', Num (PosInt 1)), (''meterValue'', mv)]])\<close>
  shows "test_ocpp_args_index_follows_message_type_not_direction E"
    "test_status_notification_updates_snapshot E now"
    "test_repeated_identical_status_reports_no_change E now later"
    "test_meter_values_never_changes_the_snapshot E now"
    "test_malformed_frame_is_ignored E now"
    "test_snapshot_serializes_to_the_documented_shape E now"
  using assms
  by (simp_all add: test_ocpp_args_index_follows_message_type_not_direction_def test_status_notification_updates_snapshot_def
      test_repeated_identical_status_reports_no_change_def test_meter_values_never_changes_the_snapshot_def
      test_malformed_frame_is_ignored_def test_snapshot_serializes_to_the_documented_shape_def fold_simps state_json_def
      json_of_opt_def json_int_def)

lemma transaction_tests_pass:
  assumes \<open>from_str E ''[2,"1","StatusNotification",{"connectorId":1,"errorCode":"NoError","status":"Preparing"}]''
        = Inr (Arr [Num (PosInt 2), Str ''1'', Str ''StatusNotification'', Obj [(''connectorId'', Num (PosInt 1)),
            (''errorCode'', Str ''NoError''), (''status'', Str ''Preparing'')]])\<close>
    and \<open>from_str E ''[2,"2","StartTransaction",{"connectorId":1,"idTag":"a1b2c3d4","meterStart":8076445}]''
        = Inr (Arr [Num (PosInt 2), Str ''2'', Str ''StartTransaction'', Obj [(''connectorId'', Num (PosInt 1)),
            (''idTag'', Str ''a1b2c3d4''), (''meterStart'', Num (PosInt 8076445))]])\<close>
    and \<open>from_str E ''[3,"2",{"idTagInfo":{"status":"Accepted"},"transactionId":1000000001}]''
        = Inr (Arr [Num (PosInt 3), Str ''2'', Obj [(''idTagInfo'', Obj [(''status'', Str ''Accepted'')]),
            (''transactionId'', Num (PosInt 1000000001))]])\<close>
    and \<open>from_str E ''[2,"3","StatusNotification",{"connectorId":1,"errorCode":"NoError","status":"Charging"}]''
        = Inr (Arr [Num (PosInt 2), Str ''3'', Str ''StatusNotification'', Obj [(''connectorId'', Num (PosInt 1)),
            (''errorCode'', Str ''NoError''), (''status'', Str ''Charging'')]])\<close>
    and \<open>from_str E ''[2,"4","StopTransaction",{"idTag":"a1b2c3d4","meterStop":8080000,"transactionId":1000000001,"reason":"EVDisconnected","timestamp":"2026-09-01T07:22:16Z"}]''
        = Inr (Arr [Num (PosInt 2), Str ''4'', Str ''StopTransaction'', Obj [(''idTag'', Str ''a1b2c3d4''),
            (''meterStop'', Num (PosInt 8080000)), (''transactionId'', Num (PosInt 1000000001)), (''reason'', Str ''EVDisconnected''),
            (''timestamp'', Str ''2026-09-01T07:22:16Z'')]])\<close>
  shows "test_full_transaction_lifecycle E now"
  using assms by (simp add: test_full_transaction_lifecycle_def fold_simps)

lemma session_tests_pass:
  assumes \<open>from_str E ''[2,"1","StartTransaction",{"connectorId":1,"idTag":"a","meterStart":1000}]''
        = Inr (Arr [Num (PosInt 2), Str ''1'', Str ''StartTransaction'', Obj [(''connectorId'', Num (PosInt 1)),
            (''idTag'', Str ''a''), (''meterStart'', Num (PosInt 1000))]])\<close>
    and \<open>from_str E ''[2,"2","StopTransaction",{"meterStop":3000,"transactionId":7}]''
        = Inr (Arr [Num (PosInt 2), Str ''2'', Str ''StopTransaction'', Obj [(''meterStop'', Num (PosInt 3000)),
            (''transactionId'', Num (PosInt 7))]])\<close>
    and \<open>from_str E ''[2,"3","StartTransaction",{"connectorId":1,"idTag":"b","meterStart":3000}]''
        = Inr (Arr [Num (PosInt 2), Str ''3'', Str ''StartTransaction'', Obj [(''connectorId'', Num (PosInt 1)),
            (''idTag'', Str ''b''), (''meterStart'', Num (PosInt 3000))]])\<close>
    and \<open>from_str E ''[2,"4","StopTransaction",{"meterStop":9500,"transactionId":8}]''
        = Inr (Arr [Num (PosInt 2), Str ''4'', Str ''StopTransaction'', Obj [(''meterStop'', Num (PosInt 9500)),
            (''transactionId'', Num (PosInt 8))]])\<close>
    and \<open>from_str E ''[2,"1","StopTransaction",{"meterStop":8084000,"transactionId":1000000001}]''
        = Inr (Arr [Num (PosInt 2), Str ''1'', Str ''StopTransaction'', Obj [(''meterStop'', Num (PosInt 8084000)),
            (''transactionId'', Num (PosInt 1000000001))]])\<close>
    and \<open>from_str E ''[2,"1","StopTransaction",{"meterStop":500,"transactionId":3}]''
        = Inr (Arr [Num (PosInt 2), Str ''1'', Str ''StopTransaction'', Obj [(''meterStop'', Num (PosInt 500)),
            (''transactionId'', Num (PosInt 3))]])\<close>
  shows "test_last_session_survives_the_next_session E now"
    "test_stop_without_a_seen_start_reports_no_delta E now"
    "test_stop_without_optional_fields E now"
    "test_repeated_stop_transaction_reports_no_change E now later"
  using assms
  by (simp_all add: test_last_session_survives_the_next_session_def test_stop_without_a_seen_start_reports_no_delta_def
      test_stop_without_optional_fields_def test_repeated_stop_transaction_reports_no_change_def fold_simps)

section \<open>Command results in the snapshot\<close>

definition limit_result :: "ext \<Rightarrow> utc \<Rightarrow> string \<Rightarrow> command_status \<Rightarrow> f64 option \<Rightarrow> command_result" where
  "limit_result E now act st applied =
     (let req = request_new now ''r''
            (if act = ''SetChargingProfile'' then SetCurrentLimit (case applied of None \<Rightarrow> Fin 0 | Some a \<Rightarrow> a) else ClearCurrentLimit)
            SourceMqtt
      in (result_for_request E now req st None)\<lparr>res_action := Some act, applied_limit_a := applied\<rparr>)"

definition test_accepted_limit_lands_in_the_snapshot_and_clear_removes_it :: "ext \<Rightarrow> utc \<Rightarrow> bool" where
  "test_accepted_limit_lands_in_the_snapshot_and_clear_removes_it E now \<longleftrightarrow>
     (let (first, st1) = apply_command_result E now (limit_result E now ''SetChargingProfile'' Accepted (Some (Fin 16))) state_default;
          (second, st2) = apply_command_result E now (limit_result E now ''ClearChargingProfile'' Accepted None) st1
      in first \<and> current_limit_a st1 = Some (Fin 16) \<and> current_limit_status st1 = Some ''accepted''
         \<and> current_limit_updated st1 \<noteq> None \<and> last_updated st1 \<noteq> None
         \<and> second \<and> current_limit_a st2 = None \<and> current_limit_status st2 = Some ''accepted'')"

definition test_rejected_limit_records_the_status_but_keeps_the_standing_value :: "ext \<Rightarrow> utc \<Rightarrow> bool" where
  "test_rejected_limit_records_the_status_but_keeps_the_standing_value E now \<longleftrightarrow>
     (let (_, st1) = apply_command_result E now (limit_result E now ''SetChargingProfile'' Accepted (Some (Fin 16))) state_default;
          (changed, st2) = apply_command_result E now (limit_result E now ''SetChargingProfile'' Rejected (Some (Fin 10))) st1
      in changed \<and> current_limit_a st2 = Some (Fin 16) \<and> current_limit_status st2 = Some ''rejected'')"

definition test_repeated_identical_limit_result_reports_no_change :: "ext \<Rightarrow> utc \<Rightarrow> utc \<Rightarrow> bool" where
  "test_repeated_identical_limit_result_reports_no_change E now later \<longleftrightarrow>
     (let r = limit_result E now ''SetChargingProfile'' Accepted (Some (Fin 16));
          (first, st) = apply_command_result E now r state_default;
          (second, st) = apply_command_result E later r st
      in first \<and> \<not> second)"

definition test_non_limit_results_leave_the_snapshot_alone :: "ext \<Rightarrow> utc \<Rightarrow> bool" where
  "test_non_limit_results_leave_the_snapshot_alone E now \<longleftrightarrow>
     (let r = result_for_request E now (request_new now ''r'' (GetConfiguration []) SourceMqtt) Accepted None;
          (changed, st) = apply_command_result E now r state_default
      in \<not> changed \<and> state_eq st state_default)"

lemma limit_result_tests_pass:
  "test_accepted_limit_lands_in_the_snapshot_and_clear_removes_it E now"
  "test_rejected_limit_records_the_status_but_keeps_the_standing_value E now"
  "test_repeated_identical_limit_result_reports_no_change E now later"
  "test_non_limit_results_leave_the_snapshot_alone E now"
  by (simp_all add: test_accepted_limit_lands_in_the_snapshot_and_clear_removes_it_def
      test_rejected_limit_records_the_status_but_keeps_the_standing_value_def
      test_repeated_identical_limit_result_reports_no_change_def test_non_limit_results_leave_the_snapshot_alone_def
      limit_result_def apply_command_result_def result_for_request_def request_new_def is_limit_result_def state_default_def
      state_eq_def opt_f64_eq_def f64_eq_def Let_def)

text \<open>A file written before the limit keys existed; \<open>legacy\<close> is what serde_json reads in it.\<close>

definition test_snapshot_without_limit_keys_still_loads :: bool where
  "test_snapshot_without_limit_keys_still_loads \<longleftrightarrow>
     (let legacy = Obj [(''connector_status'', Str ''Available''), (''error_code'', Str ''NoError''),
            (''transaction_id'', Null), (''id_tag'', Null), (''meter_start_wh'', Null),
            (''last_meter_stop_wh'', Num (PosInt 8084000)), (''last_session_energy_wh'', Num (PosInt 7555)),
            (''last_transaction_id'', Num (PosInt 1)), (''last_stop_reason'', Str ''Local''), (''last_stop_time'', Null),
            (''last_updated'', Str ''2026-09-01T07:22:16+00:00'')]
      in holds_of (state_of_json legacy) (\<lambda>st.
           current_limit_a st = None \<and> current_limit_status st = None \<and> last_meter_stop_wh st = Some 8084000))"

lemma legacy_test_passes: "test_snapshot_without_limit_keys_still_loads"
  by (simp add: test_snapshot_without_limit_keys_still_loads_def state_of_json_def de_opt_def Let_def)

section \<open>The store\<close>

definition snapshot_after_a_session :: "ext \<Rightarrow> utc \<Rightarrow> charge_point_state" where
  \<open>snapshot_after_a_session E now =
     (let fold = (\<lambda>act text st. snd (apply_message E now act (call act) text st))
      in fold ''StopTransaction'' ''[2,"3","StopTransaction",{"meterStop":8084000,"transactionId":1000000001,"reason":"EVDisconnected"}]''
        (fold ''StartTransaction'' ''[2,"2","StartTransaction",{"connectorId":1,"idTag":"a1b2c3d4","meterStart":8076445}]''
        (fold ''StatusNotification'' ''[2,"1","StatusNotification",{"connectorId":1,"errorCode":"NoError","status":"Available"}]''
         state_default)))\<close>

text \<open>\<open>dir\<close> is the system's directory for temporary files.\<close>

definition temp_path :: "string \<Rightarrow> nat \<Rightarrow> string \<Rightarrow> string" where
  "temp_path dir pid nm = dir @ ''/ocpp-snapshot-test-'' @ show_nat pid @ ''-'' @ nm @ ''/state.json''"

text \<open>The directory is gone, and nothing else is on the disk.\<close>

definition clean_disk :: disk where
  "clean_disk = \<lparr>files = Map.empty, faults = []\<rparr>"

definition round_trips_a_completed_session :: "ext \<Rightarrow> utc \<Rightarrow> string \<Rightarrow> nat \<Rightarrow> bool" where
  "round_trips_a_completed_session E now dir pid \<longleftrightarrow>
     (let path = temp_path dir pid ''round-trip''; store = \<lparr>store_path = Some path\<rparr>;
          m = [(''CP-EXAMPLE-0001'', snapshot_after_a_session E now)];
          d = store_save E store m clean_disk;
          restored = map_of (store_load E \<lparr>store_path = Some path\<rparr> d)
      in restored = map_of m
         \<and> holds_of (restored ''CP-EXAMPLE-0001'') (\<lambda>cp.
             last_meter_stop_wh cp = Some 8084000 \<and> last_session_energy_wh cp = Some (8084000 - 8076445)
             \<and> last_transaction_id cp = Some 1000000001 \<and> last_stop_reason cp = Some ''EVDisconnected''))"

definition missing_file_loads_empty :: "ext \<Rightarrow> string \<Rightarrow> nat \<Rightarrow> bool" where
  "missing_file_loads_empty E dir pid \<longleftrightarrow> store_load E \<lparr>store_path = Some (temp_path dir pid ''missing'')\<rparr> clean_disk = []"

definition corrupt_file_loads_empty :: "ext \<Rightarrow> string \<Rightarrow> nat \<Rightarrow> bool" where
  "corrupt_file_loads_empty E dir pid \<longleftrightarrow>
     (let path = temp_path dir pid ''corrupt'';
          d = clean_disk\<lparr>files := (files clean_disk)(path \<mapsto> ''{not json'')\<rparr>
      in store_load E \<lparr>store_path = Some path\<rparr> d = [])"

text \<open>\<open>/proc\<close> takes no directory: the first operation of the save fails, with \<open>e\<close>.\<close>

definition unwritable_path_does_not_panic :: "ext \<Rightarrow> utc \<Rightarrow> string \<Rightarrow> bool" where
  "unwritable_path_does_not_panic E now e \<longleftrightarrow>
     (let store = \<lparr>store_path = Some ''/proc/ocpp-proxy/state.json''\<rparr>;
          d = store_save E store [(''CP'', snapshot_after_a_session E now)] (clean_disk\<lparr>faults := [Some (e, 0)]\<rparr>)
      in store_load E store d = [])"

definition disabled_store_persists_nothing :: "ext \<Rightarrow> utc \<Rightarrow> bool" where
  "disabled_store_persists_nothing E now \<longleftrightarrow>
     (let store = \<lparr>store_path = None\<rparr>;
          d = store_save E store [(''CP'', snapshot_after_a_session E now)] clean_disk
      in store_load E store d = [])"

text \<open>What \<open>read_dir\<close> lists: the files of a directory.\<close>

definition entries_of :: "string \<Rightarrow> disk \<Rightarrow> string set" where
  "entries_of dir d = file_name ` {p \<in> dom (files d). parent p = dir}"

definition repeated_saves_leave_no_temp_file :: "ext \<Rightarrow> utc \<Rightarrow> string \<Rightarrow> nat \<Rightarrow> bool" where
  "repeated_saves_leave_no_temp_file E now dir pid \<longleftrightarrow>
     (let path = temp_path dir pid ''resave''; store = \<lparr>store_path = Some path\<rparr>;
          m = [(''CP'', snapshot_after_a_session E now)];
          d = store_save E store m (store_save E store m clean_disk)
      in entries_of (parent path) d = {''state.json''})"

definition creates_the_directory :: "ext \<Rightarrow> string \<Rightarrow> nat \<Rightarrow> bool" where
  "creates_the_directory E dir pid \<longleftrightarrow>
     (let path = temp_path dir pid ''mkdir'';
          d = store_save E \<lparr>store_path = Some path\<rparr> [] clean_disk
      in files d path \<noteq> None)"

lemma empty_loads: "missing_file_loads_empty E dir pid" "disabled_store_persists_nothing E now"
  "from_str E ''{not json'' = Inl e \<Longrightarrow> corrupt_file_loads_empty E dir pid"
  by (simp_all add: missing_file_loads_empty_def corrupt_file_loads_empty_def disabled_store_persists_nothing_def store_load_def
      store_save_def fs_read_def clean_disk_def Let_def)

lemma unwritable_test_passes: "unwritable_path_does_not_panic E now e"
  by (simp add: unwritable_path_does_not_panic_def store_load_def store_save_def fs_read_def clean_disk_def save_inner_def
      parent_def fs_do_def Let_def)

text \<open>The temporary file lies beside \<open>state.json\<close>, and saving leaves only the latter.\<close>

lemma temp_names:
  "file_name (u @ ''/state.json'') = ''state.json''" "parent (u @ ''/state.json'') = (if u = [] then ''/'' else u)"
  by (cases u rule: rev_cases; simp add: file_name_def parent_def)+

lemma save_from_clean:
  assumes "dom (files d) \<subseteq> {path}" "faults d = []" "to_str E (map_json m) = Inr bytes"
  shows "files (store_save E \<lparr>store_path = Some path\<rparr> m d) = [path \<mapsto> bytes]"
    "faults (store_save E \<lparr>store_path = Some path\<rparr> m d) = []"
proof -
  have m: "files d = Map.empty \<or> files d = [path \<mapsto> the (files d path)]" using assms(1) by (cases "files d path") (auto simp: fun_eq_iff dom_def)
  have "fold fs_effect (save_ops path bytes) (files d) = [path \<mapsto> bytes]"
    using m tmp_differs[of path] by (auto simp: save_ops_def Let_def fun_eq_iff)
  then show "files (store_save E \<lparr>store_path = Some path\<rparr> m d) = [path \<mapsto> bytes]"
    "faults (store_save E \<lparr>store_path = Some path\<rparr> m d) = []"
    using fs_seq_no_faults[of d] fs_seq_no_faults[of "snd (fs_do (CreateDirAll (parent path)) d)"]
      fs_seq_ok[of "save_ops path bytes" d "()"] assms
    by (auto simp: store_save_def save_inner_def fs_do_def split: prod.splits sum.splits)
qed

lemma file_name_of_path: "file_name (temp_path dir pid nm) = ''state.json''"
  using temp_names(1)[of "dir @ ''/ocpp-snapshot-test-'' @ show_nat pid @ ''-'' @ nm"] by (simp add: temp_path_def)

lemma printed:
  assumes "faithful_on E v"
  obtains bytes where "to_str E v = Inr bytes" "from_str E bytes = Inr v"
  using assms by (auto simp: faithful_on_def)

lemma store_tests_pass:
  assumes "faithful_on E (map_json [(''CP'', snapshot_after_a_session E now)])" "faithful_on E (map_json [])"
  shows "repeated_saves_leave_no_temp_file E now dir pid" "creates_the_directory E dir pid"
proof -
  obtain bytes where b: "to_str E (map_json [(''CP'', snapshot_after_a_session E now)]) = Inr bytes" using printed[OF assms(1)] .
  note once = save_from_clean[of clean_disk "temp_path dir pid ''resave''", OF _ _ b]
  note twice = save_from_clean[of "store_save E \<lparr>store_path = Some (temp_path dir pid ''resave'')\<rparr>
      [(''CP'', snapshot_after_a_session E now)] clean_disk" "temp_path dir pid ''resave''", OF _ _ b]
  have "files (store_save E \<lparr>store_path = Some (temp_path dir pid ''resave'')\<rparr> [(''CP'', snapshot_after_a_session E now)]
      (store_save E \<lparr>store_path = Some (temp_path dir pid ''resave'')\<rparr> [(''CP'', snapshot_after_a_session E now)] clean_disk))
    = [temp_path dir pid ''resave'' \<mapsto> bytes]"
    using once by (intro twice) (auto simp: clean_disk_def)
  then show "repeated_saves_leave_no_temp_file E now dir pid"
    by (auto simp: repeated_saves_leave_no_temp_file_def entries_of_def file_name_of_path Let_def image_iff)
  obtain none where n: "to_str E (map_json []) = Inr none" using printed[OF assms(2)] .
  show "creates_the_directory E dir pid"
    using save_from_clean(1)[of clean_disk "temp_path dir pid ''mkdir''", OF _ _ n]
    by (simp add: creates_the_directory_def clean_disk_def Let_def)
qed

lemma session_snapshot:
  assumes \<open>from_str E ''[2,"1","StatusNotification",{"connectorId":1,"errorCode":"NoError","status":"Available"}]''
        = Inr (Arr [Num (PosInt 2), Str ''1'', Str ''StatusNotification'', Obj [(''connectorId'', Num (PosInt 1)),
            (''errorCode'', Str ''NoError''), (''status'', Str ''Available'')]])\<close>
    and \<open>from_str E ''[2,"2","StartTransaction",{"connectorId":1,"idTag":"a1b2c3d4","meterStart":8076445}]''
        = Inr (Arr [Num (PosInt 2), Str ''2'', Str ''StartTransaction'', Obj [(''connectorId'', Num (PosInt 1)),
            (''idTag'', Str ''a1b2c3d4''), (''meterStart'', Num (PosInt 8076445))]])\<close>
    and \<open>from_str E ''[2,"3","StopTransaction",{"meterStop":8084000,"transactionId":1000000001,"reason":"EVDisconnected"}]''
        = Inr (Arr [Num (PosInt 2), Str ''3'', Str ''StopTransaction'', Obj [(''meterStop'', Num (PosInt 8084000)),
            (''transactionId'', Num (PosInt 1000000001)), (''reason'', Str ''EVDisconnected'')]])\<close>
  shows "snapshot_after_a_session E now = state_default\<lparr>connector_status := Some ''Available'', error_code := Some ''NoError'',
      last_meter_stop_wh := Some 8084000, last_session_energy_wh := Some 7555, last_transaction_id := Some 1000000001,
      last_stop_reason := Some ''EVDisconnected'', last_updated := Some (rfc3339 E now)\<rparr>"
  using assms by (simp add: snapshot_after_a_session_def fold_simps)

lemma round_trip_test_passes:
  assumes "snapshot_after_a_session E now = state_default\<lparr>connector_status := Some ''Available'', error_code := Some ''NoError'',
      last_meter_stop_wh := Some 8084000, last_session_energy_wh := Some 7555, last_transaction_id := Some 1000000001,
      last_stop_reason := Some ''EVDisconnected'', last_updated := Some (rfc3339 E now)\<rparr>"
    and "faithful_on E (map_json [(''CP-EXAMPLE-0001'', snapshot_after_a_session E now)])"
  shows "round_trips_a_completed_session E now dir pid"
proof -
  have safe: "state_safe (snapshot_after_a_session E now)"
    by (simp add: assms(1) state_safe_def state_fits_def i64_ok_def state_default_def)
  show ?thesis
    using load_after_save[of "\<lparr>store_path = Some (temp_path dir pid ''round-trip'')\<rparr>" _ clean_disk
        "[(''CP-EXAMPLE-0001'', snapshot_after_a_session E now)]", OF _ _ _ assms(2)] safe
    by (simp add: round_trips_a_completed_session_def clean_disk_def assms(1) Let_def)
qed

end
