(* ===== verification/Test_State.thy ===== *)
theory Test_State
  imports Test_Base Conn_State
begin

text \<open>
  The unit tests of \<open>src/state.rs\<close> and of the parser and the backoff in \<open>src/models.rs\<close>, run on the model. A subscriber
  sees the events appended to the broadcast channel after it subscribed.
\<close>

section \<open>Health\<close>

definition listening :: state_manager where
  "listening = set_listener_bound True manager_new"

definition all_states :: "connection_state list" where
  "all_states = [Disconnected, Connecting, Connected, Reconnecting]"

definition test_listener_unbound_is_unhealthy :: bool where
  "test_listener_unbound_is_unhealthy \<longleftrightarrow> \<not> listener_bound manager_new \<and> health_status_of manager_new = Unhealthy"

definition test_listening_with_no_charger_is_idle_not_unhealthy :: bool where
  "test_listening_with_no_charger_is_idle_not_unhealthy \<longleftrightarrow>
     health_status_of listening = Idle \<and> health_status_of listening \<noteq> Unhealthy"

definition test_idle_regardless_of_upstream_and_mqtt_when_no_charger :: "utc \<Rightarrow> bool" where
  "test_idle_regardless_of_upstream_and_mqtt_when_no_charger now \<longleftrightarrow>
     list_all (\<lambda>up. list_all (\<lambda>mqtt.
       health_status_of (transition now Mqtt mqtt (transition now Upstream up listening)) = Idle) [Disconnected, Connected]) all_states"

definition test_charger_and_upstream_connected_with_mqtt_is_healthy :: "utc \<Rightarrow> bool" where
  "test_charger_and_upstream_connected_with_mqtt_is_healthy now \<longleftrightarrow>
     health_status_of (transition now Mqtt Connected (transition now Downstream Connected
       (transition now Upstream Connected listening))) = Healthy"

definition test_mqtt_not_connected_is_degraded :: "utc \<Rightarrow> bool" where
  "test_mqtt_not_connected_is_degraded now \<longleftrightarrow>
     list_all (\<lambda>mqtt. health_status_of (transition now Mqtt mqtt (transition now Downstream Connected
       (transition now Upstream Connected listening))) = Degraded) [Disconnected, Connecting, Reconnecting]"

definition test_upstream_reconnecting_with_charger_is_degraded :: "utc \<Rightarrow> bool" where
  "test_upstream_reconnecting_with_charger_is_degraded now \<longleftrightarrow>
     list_all (\<lambda>up. health_status_of (transition now Upstream up (transition now Mqtt Connected
       (transition now Downstream Connected listening))) = Degraded) [Connecting, Reconnecting]"

definition test_charger_connected_upstream_down_is_unhealthy :: "utc \<Rightarrow> bool" where
  "test_charger_connected_upstream_down_is_unhealthy now \<longleftrightarrow>
     health_status_of (transition now Mqtt Connected (transition now Upstream Disconnected
       (transition now Downstream Connected listening))) = Unhealthy"

definition test_no_unexpected_unhealthy_while_listening :: "utc \<Rightarrow> bool" where
  "test_no_unexpected_unhealthy_while_listening now \<longleftrightarrow>
     list_all (\<lambda>up. list_all (\<lambda>down. list_all (\<lambda>mqtt.
       (health_status_of (transition now Mqtt mqtt (transition now Downstream down (transition now Upstream up listening))) = Unhealthy)
         = (down = Connected \<and> up = Disconnected)) all_states) all_states) all_states"

lemmas health_simps = listening_def all_states_def health_status_of_def set_listener_bound_def

lemma health_tests_pass:
  "test_listener_unbound_is_unhealthy" "test_listening_with_no_charger_is_idle_not_unhealthy"
  "test_idle_regardless_of_upstream_and_mqtt_when_no_charger now" "test_charger_and_upstream_connected_with_mqtt_is_healthy now"
  "test_mqtt_not_connected_is_degraded now" "test_upstream_reconnecting_with_charger_is_degraded now"
  "test_charger_connected_upstream_down_is_unhealthy now" "test_no_unexpected_unhealthy_while_listening now"
  by (simp_all add: test_listener_unbound_is_unhealthy_def test_listening_with_no_charger_is_idle_not_unhealthy_def
      test_idle_regardless_of_upstream_and_mqtt_when_no_charger_def test_charger_and_upstream_connected_with_mqtt_is_healthy_def
      test_mqtt_not_connected_is_degraded_def test_upstream_reconnecting_with_charger_is_degraded_def
      test_charger_connected_upstream_down_is_unhealthy_def test_no_unexpected_unhealthy_while_listening_def health_simps manager_new_def)

section \<open>Transitions and counters\<close>

definition test_transition_updates_state :: "utc \<Rightarrow> bool" where
  "test_transition_updates_state now \<longleftrightarrow>
     (let m1 = transition now Upstream Connecting manager_new; m2 = transition now Upstream Connected m1
      in upstream_state manager_new = Disconnected \<and> upstream_state m1 = Connecting \<and> upstream_state m2 = Connected)"

definition received_after :: "state_manager \<Rightarrow> state_manager \<Rightarrow> state_change list" where
  "received_after subscribed m = drop (length (state_tx subscribed)) (state_tx m)"

definition test_transition_no_op_when_same_state :: "utc \<Rightarrow> bool" where
  "test_transition_no_op_when_same_state now \<longleftrightarrow>
     received_after manager_new (transition now Upstream Disconnected manager_new) = []"

definition test_transition_broadcasts_event :: "utc \<Rightarrow> bool" where
  "test_transition_broadcasts_event now \<longleftrightarrow>
     (case received_after manager_new (transition now Downstream Connected manager_new) of
        [] \<Rightarrow> False
      | event # _ \<Rightarrow> connection event = Downstream \<and> previous event = Disconnected \<and> current_state event = Connected)"

definition test_metrics_default_zero :: bool where
  "test_metrics_default_zero \<longleftrightarrow>
     (let c = metrics manager_new
      in charger_to_central_forwarded c = 0 \<and> charger_to_central_dropped c = 0
       \<and> central_to_charger_forwarded c = 0 \<and> central_to_charger_dropped c = 0)"

definition test_state_accessors_reflect_transitions :: "utc \<Rightarrow> bool" where
  "test_state_accessors_reflect_transitions now \<longleftrightarrow>
     (let m = transition now Mqtt Connecting (transition now Downstream Reconnecting (transition now Upstream Connected manager_new))
      in upstream_state m = Connected \<and> downstream_state m = Reconnecting \<and> mqtt_state m = Connecting)"

lemma state_tests_pass:
  "test_transition_updates_state now" "test_transition_no_op_when_same_state now" "test_transition_broadcasts_event now"
  "test_metrics_default_zero" "test_state_accessors_reflect_transitions now"
  by (simp_all add: test_transition_updates_state_def test_transition_no_op_when_same_state_def test_transition_broadcasts_event_def
      test_metrics_default_zero_def test_state_accessors_reflect_transitions_def received_after_def manager_new_def transition_def Let_def)

section \<open>Parsing\<close>

definition test_parse_call_message :: "ext \<Rightarrow> utc \<Rightarrow> bool" where
  \<open>test_parse_call_message E now \<longleftrightarrow>
     (let text = ''[2, "abc123", "BootNotification", {"chargePointModel": "Model"}]''
      in passes (parse E now text) (\<lambda>f. raw f = text \<and> unique_id f = ''abc123'' \<and> message_type f = Call ''BootNotification''))\<close>

definition test_parse_call_result_message :: "ext \<Rightarrow> utc \<Rightarrow> bool" where
  \<open>test_parse_call_result_message E now \<longleftrightarrow>
     (let text = ''[3, "abc123", {"status": "Accepted"}]''
      in passes (parse E now text) (\<lambda>f. raw f = text \<and> unique_id f = ''abc123'' \<and> message_type f = CallResult))\<close>

definition test_parse_call_error_message :: "ext \<Rightarrow> utc \<Rightarrow> bool" where
  \<open>test_parse_call_error_message E now \<longleftrightarrow>
     (let text = ''[4, "abc123", "InternalError", "Something went wrong", {}]''
      in passes (parse E now text) (\<lambda>f. raw f = text \<and> unique_id f = ''abc123'' \<and> message_type f = CallError))\<close>

definition test_parse_preserves_raw_exactly :: "ext \<Rightarrow> utc \<Rightarrow> bool" where
  \<open>test_parse_preserves_raw_exactly E now \<longleftrightarrow>
     (let text = ''[  2 ,  "id-1" , "Heartbeat" , { } ]'' in passes (parse E now text) (\<lambda>f. raw f = text))\<close>

definition test_parse_invalid_json :: "ext \<Rightarrow> utc \<Rightarrow> bool" where
  "test_parse_invalid_json E now \<longleftrightarrow> isl (parse E now ''not json'')"

definition test_parse_not_array :: "ext \<Rightarrow> utc \<Rightarrow> bool" where
  \<open>test_parse_not_array E now \<longleftrightarrow> isl (parse E now ''{"type": 2}'')\<close>

definition test_parse_too_few_elements :: "ext \<Rightarrow> utc \<Rightarrow> bool" where
  \<open>test_parse_too_few_elements E now \<longleftrightarrow> isl (parse E now ''[2, "id"]'')\<close>

definition test_parse_unknown_message_type :: "ext \<Rightarrow> utc \<Rightarrow> bool" where
  \<open>test_parse_unknown_message_type E now \<longleftrightarrow> isl (parse E now ''[5, "id", "Action", {}]'')\<close>

definition test_parse_call_too_few_elements :: "ext \<Rightarrow> utc \<Rightarrow> bool" where
  \<open>test_parse_call_too_few_elements E now \<longleftrightarrow> isl (parse E now ''[2, "id", "Action"]'')\<close>

lemma parse_tests_pass:
  assumes \<open>from_str E ''[2, "abc123", "BootNotification", {"chargePointModel": "Model"}]''
        = Inr (Arr [Num (PosInt 2), Str ''abc123'', Str ''BootNotification'', Obj [(''chargePointModel'', Str ''Model'')]])\<close>
    and \<open>from_str E ''[3, "abc123", {"status": "Accepted"}]'' = Inr (Arr [Num (PosInt 3), Str ''abc123'', Obj [(''status'', Str ''Accepted'')]])\<close>
    and \<open>from_str E ''[4, "abc123", "InternalError", "Something went wrong", {}]''
        = Inr (Arr [Num (PosInt 4), Str ''abc123'', Str ''InternalError'', Str ''Something went wrong'', Obj []])\<close>
    and \<open>from_str E ''[  2 ,  "id-1" , "Heartbeat" , { } ]'' = Inr (Arr [Num (PosInt 2), Str ''id-1'', Str ''Heartbeat'', Obj []])\<close>
    and \<open>from_str E ''not json'' = Inl e\<close> \<open>from_str E ''{"type": 2}'' = Inr (Obj [(''type'', Num (PosInt 2))])\<close>
    and \<open>from_str E ''[2, "id"]'' = Inr (Arr [Num (PosInt 2), Str ''id''])\<close>
    and \<open>from_str E ''[5, "id", "Action", {}]'' = Inr (Arr [Num (PosInt 5), Str ''id'', Str ''Action'', Obj []])\<close>
    and \<open>from_str E ''[2, "id", "Action"]'' = Inr (Arr [Num (PosInt 2), Str ''id'', Str ''Action''])\<close>
  shows "test_parse_call_message E now" "test_parse_call_result_message E now" "test_parse_call_error_message E now"
    "test_parse_preserves_raw_exactly E now" "test_parse_invalid_json E now" "test_parse_not_array E now"
    "test_parse_too_few_elements E now" "test_parse_unknown_message_type E now" "test_parse_call_too_few_elements E now"
  by (simp_all add: assms test_parse_call_message_def test_parse_call_result_message_def test_parse_call_error_message_def
      test_parse_preserves_raw_exactly_def test_parse_invalid_json_def test_parse_not_array_def test_parse_too_few_elements_def
      test_parse_unknown_message_type_def test_parse_call_too_few_elements_def parse_def frame_message_type_def Let_def)

section \<open>Backoff\<close>

definition test_exponential_backoff_sequence :: bool where
  "test_exponential_backoff_sequence \<longleftrightarrow>
     delays 7 (backoff_new (from_secs 2) (from_secs 60) (Fin 2)) = Some (map from_secs [2, 4, 8, 16, 32, 60, 60])"

definition after_three :: "backoff \<Rightarrow> backoff option" where
  "after_three b = Option.bind (next_delay b) (\<lambda>(_, b). Option.bind (next_delay b) (\<lambda>(_, b). map_option snd (next_delay b)))"

definition test_exponential_backoff_reset :: bool where
  "test_exponential_backoff_reset \<longleftrightarrow>
     (let b = with_defaults (from_secs 1) (from_secs 30)
      in delays 3 b = Some (map from_secs [1, 2, 4])
       \<and> holds_of (after_three b) (\<lambda>b'. delays 2 (reset b') = Some (map from_secs [1, 2])))"

lemma delays_step:
  "0 < n \<Longrightarrow> delays n b = (case next_delay b of None \<Rightarrow> None | Some (d, b') \<Rightarrow> map_option ((#) d) (delays (n - 1) b'))"
  by (cases n) (auto split: option.split)

lemma doubled:
  "c < 2 ^ 52 \<Longrightarrow> m < 2 ^ 52
     \<Longrightarrow> next_delay \<lparr>initial = i, max_delay = from_secs m, current = from_secs c, multiplier = Fin 2\<rparr>
       = Some (from_secs (min c m), \<lparr>initial = i, max_delay = from_secs m, current = from_secs (min (2 * c) m), multiplier = Fin 2\<rparr>)"
  using next_delay_secs .

lemma backoff_tests_pass: "test_exponential_backoff_sequence" "test_exponential_backoff_reset"
  by (simp_all add: test_exponential_backoff_sequence_def test_exponential_backoff_reset_def with_defaults_def backoff_new_def
      after_three_def reset_def doubled delays_step Let_def)

end
