(* ===== verification/Test_Publisher.thy ===== *)
theory Test_Publisher
  imports Test_Snapshot Test_State Publisher_Facts
begin

text \<open>
  The unit tests of \<open>src/mqtt.rs\<close> about topics, payloads, TLS files and the publisher, run on the model. The client is a
  request channel that nobody drains, as in the crate's tests.
\<close>

section \<open>Topics and names\<close>

definition test_state_topic :: bool where
  "test_state_topic \<longleftrightarrow> charge_point_state_topic ''CP-EXAMPLE-0001'' = ''ocpp/CP-EXAMPLE-0001/state''"

definition test_availability_topic_construction :: bool where
  "test_availability_topic_construction \<longleftrightarrow> availability_topic ''CP001'' = ''ocpp/CP001/availability''"

definition test_availability_topic_with_special_chars :: bool where
  "test_availability_topic_with_special_chars \<longleftrightarrow> availability_topic ''AUTEL-12345'' = ''ocpp/AUTEL-12345/availability''"

definition test_message_topic_construction :: bool where
  "test_message_topic_construction \<longleftrightarrow>
     message_topic ''CP001'' ''charger'' ''BootNotification'' = ''ocpp/CP001/charger/BootNotification''"

definition test_message_topic_central_system_direction :: bool where
  "test_message_topic_central_system_direction \<longleftrightarrow>
     message_topic ''CP001'' ''central_system'' ''RemoteStartTransaction'' = ''ocpp/CP001/central_system/RemoteStartTransaction''"

definition test_status_topic_construction :: bool where
  "test_status_topic_construction \<longleftrightarrow> status_topic ''CP001'' = ''ocpp/CP001/status''"

definition test_message_topic_with_direction_helper :: bool where
  "test_message_topic_with_direction_helper \<longleftrightarrow>
     message_topic ''CP001'' (direction_str ChargerToCentral) ''Heartbeat'' = ''ocpp/CP001/charger/Heartbeat''
     \<and> message_topic ''CP001'' (direction_str CentralToCharger) ''RemoteStartTransaction''
         = ''ocpp/CP001/central_system/RemoteStartTransaction''"

definition test_direction_str_charger_to_central :: bool where
  "test_direction_str_charger_to_central \<longleftrightarrow> direction_str ChargerToCentral = ''charger''"

definition test_direction_str_central_to_charger :: bool where
  "test_direction_str_central_to_charger \<longleftrightarrow> direction_str CentralToCharger = ''central_system''"

definition test_message_type_str_call :: bool where
  "test_message_type_str_call \<longleftrightarrow> message_type_str (Call ''BootNotification'') = ''Call''"

definition test_message_type_str_call_result :: bool where
  "test_message_type_str_call_result \<longleftrightarrow> message_type_str CallResult = ''CallResult''"

definition test_message_type_str_call_error :: bool where
  "test_message_type_str_call_error \<longleftrightarrow> message_type_str CallError = ''CallError''"

definition test_connection_state_str_all_states :: bool where
  "test_connection_state_str_all_states \<longleftrightarrow>
     connection_state_str Connected = ''connected'' \<and> connection_state_str Disconnected = ''disconnected''
     \<and> connection_state_str Reconnecting = ''reconnecting'' \<and> connection_state_str Connecting = ''connecting''"

definition test_status_payload_serialization :: bool where
  "test_status_payload_serialization \<longleftrightarrow>
     (let v = status_payload_json Connected Disconnected
      in get_key ''upstream'' v = Some (Str ''connected'') \<and> get_key ''downstream'' v = Some (Str ''disconnected''))"

definition test_status_payload_all_state_combinations :: "ext \<Rightarrow> bool" where
  "test_status_payload_all_state_combinations E \<longleftrightarrow>
     list_all (\<lambda>up. list_all (\<lambda>down.
       passes (to_str E (status_payload_json up down)) (\<lambda>text. passes (from_str E text) (\<lambda>v.
         holds_of (get_key ''upstream'' v) (\<lambda>u. as_str u \<noteq> None) \<and> holds_of (get_key ''downstream'' v) (\<lambda>u. as_str u \<noteq> None))))
       [Connected, Disconnected, Reconnecting, Connecting]) [Connected, Disconnected, Reconnecting, Connecting]"

lemma name_tests_pass:
  "test_state_topic" "test_availability_topic_construction" "test_availability_topic_with_special_chars"
  "test_message_topic_construction" "test_message_topic_central_system_direction" "test_status_topic_construction"
  "test_message_topic_with_direction_helper" "test_direction_str_charger_to_central" "test_direction_str_central_to_charger"
  "test_message_type_str_call" "test_message_type_str_call_result" "test_message_type_str_call_error"
  "test_connection_state_str_all_states" "test_status_payload_serialization"
  by (simp_all add: test_state_topic_def test_availability_topic_construction_def test_availability_topic_with_special_chars_def
      test_message_topic_construction_def test_message_topic_central_system_direction_def test_status_topic_construction_def
      test_message_topic_with_direction_helper_def test_direction_str_charger_to_central_def test_direction_str_central_to_charger_def
      test_message_type_str_call_def test_message_type_str_call_result_def test_message_type_str_call_error_def
      test_connection_state_str_all_states_def test_status_payload_serialization_def status_payload_json_def wire_format)

lemma status_payloads_pass:
  assumes "\<And>up down. faithful_on E (status_payload_json up down)"
  shows "test_status_payload_all_state_combinations E"
proof -
  have "passes (to_str E (status_payload_json up down)) (\<lambda>text. passes (from_str E text) (\<lambda>v.
      holds_of (get_key ''upstream'' v) (\<lambda>u. as_str u \<noteq> None) \<and> holds_of (get_key ''downstream'' v) (\<lambda>u. as_str u \<noteq> None)))"
    for up down
    by (rule printed[OF assms[of up down]]) (simp add: status_payload_json_def)
  then show ?thesis unfolding test_status_payload_all_state_combinations_def by simp
qed

section \<open>Backoff\<close>

definition test_exponential_backoff_for_mqtt :: bool where
  "test_exponential_backoff_for_mqtt \<longleftrightarrow>
     delays 7 (with_defaults (from_secs 1) (from_secs 30)) = Some (map from_secs [1, 2, 4, 8, 16, 30, 30])"

definition test_exponential_backoff_reset_for_mqtt :: bool where
  "test_exponential_backoff_reset_for_mqtt \<longleftrightarrow>
     holds_of (after_three (with_defaults (from_secs 1) (from_secs 30))) (\<lambda>b. delays 1 (reset b) = Some [from_secs 1])"

lemma mqtt_backoff_tests_pass: "test_exponential_backoff_for_mqtt" "test_exponential_backoff_reset_for_mqtt"
  by (simp_all add: test_exponential_backoff_for_mqtt_def test_exponential_backoff_reset_for_mqtt_def with_defaults_def
      backoff_new_def after_three_def reset_def doubled delays_step)

section \<open>TLS files\<close>

definition plaintext_config :: mqtt_config where
  "plaintext_config = \<lparr>mqtt_host = ''127.0.0.1'', mqtt_port = 1883, mqtt_username = ''user'', mqtt_password = ''pass'',
     ca_cert_path = None, client_cert_path = None, client_key_path = None\<rparr>"

definition tls_paths :: "string \<Rightarrow> string \<Rightarrow> string \<Rightarrow> mqtt_config" where
  "tls_paths ca cert key = \<lparr>mqtt_host = ''mqtt.example.com'', mqtt_port = 8883, mqtt_username = ''user'', mqtt_password = ''pass'',
     ca_cert_path = Some ca, client_cert_path = Some cert, client_key_path = Some key\<rparr>"

text \<open>\<open>fs\<close> holds the temporary files; reading any other path fails with \<open>e\<close>.\<close>

definition read_of :: "(string \<times> string) list \<Rightarrow> string \<Rightarrow> string \<Rightarrow> string + string" where
  "read_of fs e path = (case map_of fs path of None \<Rightarrow> Inl e | Some bytes \<Rightarrow> Inr bytes)"

definition test_tls_config_fails_on_missing_ca_cert :: "string \<Rightarrow> bool" where
  "test_tls_config_fails_on_missing_ca_cert e \<longleftrightarrow>
     fails (build_tls_config (read_of [] e) (tls_paths ''/nonexistent/ca.pem'' ''/nonexistent/cert.pem'' ''/nonexistent/key.pem''))
       (\<lambda>err. category err = ''tls'' \<and> contains (description err) ''ca.pem'')"

definition test_tls_config_fails_on_missing_client_cert :: "string \<Rightarrow> bool" where
  "test_tls_config_fails_on_missing_client_cert e \<longleftrightarrow>
     fails (build_tls_config (read_of [(''/tmp/ca'', ''fake-ca-cert'')] e)
         (tls_paths ''/tmp/ca'' ''/nonexistent/cert.pem'' ''/nonexistent/key.pem''))
       (\<lambda>err. category err = ''tls'' \<and> contains (description err) ''client certificate'')"

definition test_tls_config_fails_on_missing_client_key :: "string \<Rightarrow> bool" where
  "test_tls_config_fails_on_missing_client_key e \<longleftrightarrow>
     fails (build_tls_config (read_of [(''/tmp/ca'', ''fake-ca-cert''), (''/tmp/cert'', ''fake-client-cert'')] e)
         (tls_paths ''/tmp/ca'' ''/tmp/cert'' ''/nonexistent/key.pem''))
       (\<lambda>err. category err = ''tls'' \<and> contains (description err) ''client key'')"

definition temp_files :: "(string \<times> string) list" where
  "temp_files = [(''/tmp/ca'', ''fake-ca-cert''), (''/tmp/cert'', ''fake-client-cert''), (''/tmp/key'', ''fake-client-key'')]"

definition test_tls_config_succeeds_with_valid_files :: "string \<Rightarrow> bool" where
  "test_tls_config_succeeds_with_valid_files e \<longleftrightarrow>
     passes (build_tls_config (read_of temp_files e) (tls_paths ''/tmp/ca'' ''/tmp/cert'' ''/tmp/key'')) (\<lambda>_. True)"

lemma tls_tests_pass:
  "test_tls_config_fails_on_missing_ca_cert e" "test_tls_config_fails_on_missing_client_cert e"
  "test_tls_config_fails_on_missing_client_key e" "test_tls_config_succeeds_with_valid_files e"
  by (simp_all add: test_tls_config_fails_on_missing_ca_cert_def test_tls_config_fails_on_missing_client_cert_def
      test_tls_config_fails_on_missing_client_key_def test_tls_config_succeeds_with_valid_files_def temp_files_def
      build_tls_config_def tls_paths_def read_of_def quoted_def starts_with_def)

section \<open>Construction and restart\<close>

definition tested_publisher ::
    "ext \<Rightarrow> (string \<Rightarrow> string + string) \<Rightarrow> mqtt_config \<Rightarrow> string option \<Rightarrow> snapshot_store \<Rightarrow> disk
      \<Rightarrow> proxy_error + (mqtt_message channel, command_request channel) publisher" where
  "tested_publisher E read c lwt = publisher_new E read (\<lambda>_. channel_new) c lwt 500"

definition test_mqtt_publisher_new_with_valid_config :: "ext \<Rightarrow> string \<Rightarrow> bool" where
  "test_mqtt_publisher_new_with_valid_config E e \<longleftrightarrow>
     passes (tested_publisher E (read_of temp_files e) (tls_paths ''/tmp/ca'' ''/tmp/cert'' ''/tmp/key'') (Some ''CP001'')
         \<lparr>store_path = None\<rparr> clean_disk)
       (\<lambda>p. lwt_charge_point_id p = Some ''CP001'' \<and> pub_state p = Disconnected \<and> length (buffer p) = 0)"

definition test_mqtt_publisher_new_fails_with_invalid_certs :: "ext \<Rightarrow> string \<Rightarrow> bool" where
  "test_mqtt_publisher_new_fails_with_invalid_certs E e \<longleftrightarrow>
     fails (tested_publisher E (read_of [] e)
         (tls_paths ''/nonexistent/ca.pem'' ''/nonexistent/cert.pem'' ''/nonexistent/key.pem'') (Some ''CP001'')
         \<lparr>store_path = None\<rparr> clean_disk) (\<lambda>_. True)"

definition publisher_with_events ::
    "ext \<Rightarrow> string \<Rightarrow> string option \<Rightarrow> proxy_error + (mqtt_message channel, command_request channel) publisher" where
  "publisher_with_events E e lwt = tested_publisher E (read_of [] e) plaintext_config lwt \<lparr>store_path = None\<rparr> clean_disk"

definition test_publisher_only_subscribes_when_given_a_router :: "ext \<Rightarrow> string \<Rightarrow> bool" where
  "test_publisher_only_subscribes_when_given_a_router E e \<longleftrightarrow>
     passes (publisher_with_events E e (Some ''CP-1'')) (\<lambda>plain.
       \<not> commands_enabled plain \<and> commands_enabled (with_command_router Map.empty charging_config_default plain))"

lemmas new_simps = tested_publisher_def publisher_with_events_def publisher_new_def connect_options_def build_tls_config_def
  plaintext_config_def store_load_def

lemma construction_tests_pass:
  "test_mqtt_publisher_new_with_valid_config E e" "test_mqtt_publisher_new_fails_with_invalid_certs E e"
  "test_publisher_only_subscribes_when_given_a_router E e"
  by (simp_all add: test_mqtt_publisher_new_with_valid_config_def test_mqtt_publisher_new_fails_with_invalid_certs_def
      test_publisher_only_subscribes_when_given_a_router_def new_simps tls_paths_def read_of_def temp_files_def
      commands_enabled_def with_command_router_def)

definition recorded_session :: "ext \<Rightarrow> utc \<Rightarrow> charge_point_state" where
  \<open>recorded_session E now =
     (let st = snd (apply_message E now ''StartTransaction'' (call ''StartTransaction'')
            ''[2,"1","StartTransaction",{"connectorId":1,"idTag":"a1b2c3d4","meterStart":8076445}]'' state_default)
      in snd (apply_message E now ''StopTransaction'' (call ''StopTransaction'')
            ''[2,"2","StopTransaction",{"meterStop":8084000,"transactionId":1000000001}]'' st))\<close>

text \<open>\<open>dir\<close> is a fresh temporary directory.\<close>

definition test_publisher_restores_the_stored_snapshot :: "ext \<Rightarrow> string \<Rightarrow> utc \<Rightarrow> string \<Rightarrow> bool" where
  "test_publisher_restores_the_stored_snapshot E e now dir \<longleftrightarrow>
     (let path = dir @ ''/state.json''; store = \<lparr>store_path = Some path\<rparr>;
          before = [(''CP-EXAMPLE-0001'', recorded_session E now)];
          d = store_save E store before clean_disk
      in passes (tested_publisher E (read_of [] e) plaintext_config (Some ''CP-EXAMPLE-0001'') \<lparr>store_path = Some path\<rparr> d) (\<lambda>p.
           holds_of (map_of (snapshots p) ''CP-EXAMPLE-0001'') (\<lambda>restored.
             last_meter_stop_wh restored = Some 8084000 \<and> last_session_energy_wh restored = Some 7555
             \<and> last_transaction_id restored = Some 1000000001)))"

lemma recorded_session_is:
  assumes \<open>from_str E ''[2,"1","StartTransaction",{"connectorId":1,"idTag":"a1b2c3d4","meterStart":8076445}]''
        = Inr (Arr [Num (PosInt 2), Str ''1'', Str ''StartTransaction'', Obj [(''connectorId'', Num (PosInt 1)),
            (''idTag'', Str ''a1b2c3d4''), (''meterStart'', Num (PosInt 8076445))]])\<close>
    and \<open>from_str E ''[2,"2","StopTransaction",{"meterStop":8084000,"transactionId":1000000001}]''
        = Inr (Arr [Num (PosInt 2), Str ''2'', Str ''StopTransaction'', Obj [(''meterStop'', Num (PosInt 8084000)),
            (''transactionId'', Num (PosInt 1000000001))]])\<close>
  shows "recorded_session E now = state_default\<lparr>last_meter_stop_wh := Some 8084000, last_session_energy_wh := Some 7555,
      last_transaction_id := Some 1000000001, last_updated := Some (rfc3339 E now)\<rparr>"
  using assms by (simp add: recorded_session_def fold_simps)

lemma restore_test_passes:
  assumes "recorded_session E now = state_default\<lparr>last_meter_stop_wh := Some 8084000, last_session_energy_wh := Some 7555,
      last_transaction_id := Some 1000000001, last_updated := Some (rfc3339 E now)\<rparr>"
    and "faithful_on E (map_json [(''CP-EXAMPLE-0001'', recorded_session E now)])"
  shows "test_publisher_restores_the_stored_snapshot E e now dir"
proof -
  have "state_safe (recorded_session E now)" by (simp add: assms(1) state_safe_def state_fits_def i64_ok_def state_default_def)
  then have "map_of (store_load E \<lparr>store_path = Some (dir @ ''/state.json'')\<rparr>
      (store_save E \<lparr>store_path = Some (dir @ ''/state.json'')\<rparr> [(''CP-EXAMPLE-0001'', recorded_session E now)] clean_disk))
    = map_of [(''CP-EXAMPLE-0001'', recorded_session E now)]"
    by (intro load_after_save[OF _ _ _ assms(2)]) (simp_all add: clean_disk_def)
  then show ?thesis
    by (simp add: test_publisher_restores_the_stored_snapshot_def tested_publisher_def publisher_new_def connect_options_def
        build_tls_config_def plaintext_config_def assms(1) Let_def)
qed

section \<open>What reaches the disk\<close>

text \<open>The request channel of the client, which nobody drains.\<close>

definition undrained :: "(mqtt_message channel, command_request channel) api" where
  "undrained = \<lparr>try_publish = (\<lambda>c m. case try_send c m of (Inr _, c') \<Rightarrow> (Inr (), c') | (Inl _, c') \<Rightarrow> (Inl (), c')),
     try_subscribe_many = (\<lambda>c _. if room c = 0 then (Inl (), c) else (Inr (), c\<lparr>room := room c - 1\<rparr>)),
     send_command = try_send\<rparr>"

definition test_snapshot_change_is_persisted_even_when_disconnected :: "ext \<Rightarrow> string \<Rightarrow> utc \<Rightarrow> string \<Rightarrow> bool" where
  \<open>test_snapshot_change_is_persisted_even_when_disconnected E e now dir \<longleftrightarrow>
     (let path = dir @ ''/state.json'' in
      passes (tested_publisher E (read_of [] e) plaintext_config (Some ''CP001'') \<lparr>store_path = Some path\<rparr> clean_disk) (\<lambda>p.
        pub_state p = Disconnected
        \<and> passes (parse E now ''[2,"1","StopTransaction",{"meterStop":4200,"transactionId":9}]'') (\<lambda>frame.
            let p = handle_event E undrained now (MessageForwarded ''CP001'' frame ChargerToCentral ''StopTransaction'') p;
                reloaded = map_of (store_load E \<lparr>store_path = Some path\<rparr> (pub_disk p))
            in holds_of (reloaded ''CP001'') (\<lambda>cp. last_meter_stop_wh cp = Some 4200 \<and> last_transaction_id cp = Some 9))))\<close>

definition test_meter_values_does_not_write_the_file :: "ext \<Rightarrow> string \<Rightarrow> utc \<Rightarrow> string \<Rightarrow> bool" where
  \<open>test_meter_values_does_not_write_the_file E e now dir \<longleftrightarrow>
     (let path = dir @ ''/state.json'' in
      passes (tested_publisher E (read_of [] e) plaintext_config (Some ''CP001'') \<lparr>store_path = Some path\<rparr> clean_disk) (\<lambda>p.
        passes (parse E now ''[2,"1","MeterValues",{"connectorId":1,"meterValue":[{"sampledValue":[{"value":"3651"}]}]}]'') (\<lambda>frame.
          files (pub_disk (handle_event E undrained now (MessageForwarded ''CP001'' frame ChargerToCentral ''MeterValues'') p)) path = None)))\<close>

text \<open>The snapshot after that one message.\<close>

definition stopped :: "ext \<Rightarrow> utc \<Rightarrow> charge_point_state" where
  "stopped E now = state_default\<lparr>last_meter_stop_wh := Some 4200, last_transaction_id := Some 9,
     last_updated := Some (rfc3339 E now)\<rparr>"

lemma disk_of_publish [simp]: "pub_disk (publish_charge_point_state E A cp s p) = pub_disk p"
  by (simp add: publish_charge_point_state_def enqueue_def buffer_message_def drain_buffer_def Let_def
      split: sum.splits prod.splits option.splits)

lemma disk_test_passes:
  assumes \<open>from_str E ''[2,"1","StopTransaction",{"meterStop":4200,"transactionId":9}]''
        = Inr (Arr [Num (PosInt 2), Str ''1'', Str ''StopTransaction'', Obj [(''meterStop'', Num (PosInt 4200)),
            (''transactionId'', Num (PosInt 9))]])\<close>
    and "\<And>f. \<exists>bytes. to_str E (mqtt_payload_json E f) = Inr bytes"
    and "faithful_on E (map_json [(''CP001'', stopped E now)])"
  shows "test_snapshot_change_is_persisted_even_when_disconnected E e now dir"
proof -
  let ?text = \<open>''[2,"1","StopTransaction",{"meterStop":4200,"transactionId":9}]''\<close>
  let ?store = "\<lparr>store_path = Some (dir @ ''/state.json'')\<rparr>"
  have fold: "apply_message E now ''StopTransaction'' (Call ''StopTransaction'') ?text state_default = (True, stopped E now)"
    using assms(1) by (simp add: fold_simps stopped_def)
  have "state_safe (stopped E now)" by (simp add: stopped_def state_safe_def state_fits_def i64_ok_def state_default_def)
  then have load: "map_of (store_load E ?store (store_save E ?store [(''CP001'', stopped E now)] clean_disk)) = [''CP001'' \<mapsto> stopped E now]"
    using load_after_save[of ?store _ clean_disk "[(''CP001'', stopped E now)]", OF _ _ _ assms(3)] by (simp add: clean_disk_def)
  obtain bytes where b: "to_str E (mqtt_payload_json E \<lparr>raw = ?text, message_type = Call ''StopTransaction'', unique_id = ''1'',
      received_at = now\<rparr>) = Inr bytes"
    using assms(2) by blast
  have fresh: "store_load E ?store clean_disk = []" by (simp add: store_load_def fs_read_def clean_disk_def)
  have parsed: "parse E now ?text = Inr \<lparr>raw = ?text, message_type = Call ''StopTransaction'', unique_id = ''1'', received_at = now\<rparr>"
    using assms(1) by (simp add: parse_def frame_message_type_def nth_opt_def Let_def)
  have stopped_fields: "last_meter_stop_wh (stopped E now) = Some 4200" "last_transaction_id (stopped E now) = Some 9"
    by (simp_all add: stopped_def)
  show ?thesis
    unfolding test_snapshot_change_is_persisted_even_when_disconnected_def Let_def parsed
    by (simp add: tested_publisher_def publisher_new_def connect_options_def build_tls_config_def plaintext_config_def fresh
        handle_event_def b update_snapshot_def entry_or_default_def fold enqueue_def buffer_message_def load stopped_fields)
qed

lemma meter_values_disk_test_passes:
  assumes \<open>from_str E ''[2,"1","MeterValues",{"connectorId":1,"meterValue":[{"sampledValue":[{"value":"3651"}]}]}]''
        = Inr (Arr [Num (PosInt 2), Str ''1'', Str ''MeterValues'', Obj [(''connectorId'', Num (PosInt 1)), (''meterValue'', mv)]])\<close>
  shows "test_meter_values_does_not_write_the_file E e now dir"
  using assms
  by (simp add: test_meter_values_does_not_write_the_file_def tested_publisher_def publisher_new_def connect_options_def
      build_tls_config_def plaintext_config_def parse_def frame_message_type_def nth_opt_def handle_event_def update_snapshot_def
      apply_message_def ocpp_args_def fold_message_def enqueue_def buffer_message_def clean_disk_def Let_def split: sum.split)

section \<open>The request channel\<close>

definition event_message :: "nat \<Rightarrow> mqtt_message" where
  "event_message i = \<lparr>topic = ''ocpp/CP/charger/MeterValues'' @ show_nat i, payload = [char_of i], msg_qos = AtLeastOnce, retain = False\<rparr>"

definition enqueue_all ::
    "nat list \<Rightarrow> (mqtt_message channel, command_request channel) publisher
      \<Rightarrow> (mqtt_message channel, command_request channel) publisher" where
  "enqueue_all is p = fold (\<lambda>i. enqueue undrained (event_message i)) is p"

definition enqueue_never_blocks_on_a_full_request_channel :: "ext \<Rightarrow> string \<Rightarrow> bool" where
  "enqueue_never_blocks_on_a_full_request_channel E e \<longleftrightarrow>
     passes (publisher_with_events E e None) (\<lambda>p.
       let p = enqueue_all [0..<REQUEST_CHANNEL_CAPACITY + 5] (p\<lparr>pub_state := Connected\<rparr>)
       in length (buffer p) = 5
          \<and> map_option topic (nth_opt 0 (buffer p)) = Some (topic (event_message REQUEST_CHANNEL_CAPACITY)))"

definition reconnect_with_a_backlog_larger_than_the_channel_returns :: "ext \<Rightarrow> string \<Rightarrow> utc \<Rightarrow> bool" where
  "reconnect_with_a_backlog_larger_than_the_channel_returns E e now \<longleftrightarrow>
     passes (publisher_with_events E e (Some ''CP'')) (\<lambda>p.
       let backlog = REQUEST_CHANNEL_CAPACITY + 4;
           p = enqueue_all [0..<backlog] (p\<lparr>pub_state := Reconnecting\<rparr>);
           p' = on_connack E undrained now p
       in length (buffer p) = backlog
          \<and> pub_state p' = Connected
          \<and> length (buffer p') = backlog + 1 - REQUEST_CHANNEL_CAPACITY
          \<and> map_option topic (nth_opt 0 (buffer p')) = Some (topic (event_message (REQUEST_CHANNEL_CAPACITY - 1)))
          \<and> flush_in_progress p' \<noteq> None)"

definition online_goes_ahead_of_the_backlog :: "ext \<Rightarrow> string \<Rightarrow> utc \<Rightarrow> bool" where
  "online_goes_ahead_of_the_backlog E e now \<longleftrightarrow>
     passes (publisher_with_events E e (Some ''CP'')) (\<lambda>p.
       let p1 = enqueue_all [0..<REQUEST_CHANNEL_CAPACITY] (p\<lparr>pub_state := Connected\<rparr>);
           p2 = on_connack E undrained now (enqueue undrained (event_message 99) (p1\<lparr>pub_state := Reconnecting\<rparr>))
       in length (buffer p1) = 0
          \<and> map topic (buffer p2) = [''ocpp/CP/availability'', ''ocpp/CP/charger/MeterValues99'']
          \<and> holds_of (nth_opt 0 (buffer p2)) (\<lambda>online. payload online = ''online'' \<and> retain online))"

definition connection_state_is_mirrored_into_the_shared_manager :: "ext \<Rightarrow> string \<Rightarrow> utc \<Rightarrow> bool" where
  "connection_state_is_mirrored_into_the_shared_manager E e now \<longleftrightarrow>
     passes (publisher_with_events E e (Some ''CP'')) (\<lambda>p.
       let p1 = on_connack E undrained now (with_state_manager manager_new p);
           p2 = set_state now Reconnecting p1
       in holds_of (shared_manager p1) (\<lambda>m. mqtt_state m = Connected)
          \<and> holds_of (shared_manager p2) (\<lambda>m. mqtt_state m = Reconnecting))"

text \<open>What these tests look at: the connection state, the messages waiting and the room left in the channel.\<close>

definition stands ::
    "connection_state \<Rightarrow> mqtt_message list \<Rightarrow> nat \<Rightarrow> string option \<Rightarrow> (mqtt_message channel, command_request channel) publisher
      \<Rightarrow> bool" where
  "stands st q r lwt p \<longleftrightarrow>
     pub_state p = st \<and> buffer p = q \<and> room (client p) = r \<and> \<not> closed (client p) \<and> lwt_charge_point_id p = lwt
     \<and> pub_max_buffer_size p = 500 \<and> pub_router p = None \<and> snapshots p = []"

lemma with_events:
  assumes "\<And>p. stands Disconnected [] 10 lwt p \<Longrightarrow> Q p"
  shows "passes (publisher_with_events E e lwt) Q"
  by (simp add: new_simps) (rule assms, simp add: stands_def channel_new_def REQUEST_CHANNEL_CAPACITY_def)

lemma undrained_put:
  "\<not> closed c \<Longrightarrow> room c = 0 \<Longrightarrow> try_publish undrained c m = (Inl (), c\<lparr>offered := offered c @ [m]\<rparr>)"
  "\<not> closed c \<Longrightarrow> 0 < room c
     \<Longrightarrow> try_publish undrained c m = (Inr (), c\<lparr>offered := offered c @ [m], passed := passed c @ [m], room := room c - 1\<rparr>)"
  by (simp_all add: undrained_def try_send_def Let_def)

text \<open>A drained list goes into the channel as far as there is room.\<close>

lemma undrained_flush:
  "\<not> closed c \<Longrightarrow> snd (fst (flush_loop (try_publish undrained) (\<lambda>m. m) q c)) = drop (room c) q
     \<and> room (snd (flush_loop (try_publish undrained) (\<lambda>m. m) q c)) = room c - length q
     \<and> \<not> closed (snd (flush_loop (try_publish undrained) (\<lambda>m. m) q c))"
proof (induction q arbitrary: c)
  case (Cons m q)
  then show ?case by (cases "room c") (simp_all add: undrained_put)
qed simp

lemma stands_drain:
  assumes "stands st q r lwt p"
  shows "stands st (drop r q) (r - length q) lwt (snd (drain_buffer undrained p))"
    "flush_in_progress (snd (drain_buffer undrained p)) = None \<longleftrightarrow> flush_in_progress p = None \<or> drop r q = []"
  using assms undrained_flush[of "client p" "buffer p"]
  by (auto simp: stands_def drain_buffer_def Let_def split: prod.splits option.splits)

lemma stands_enqueue:
  assumes "stands st q r lwt p" "length q < 500"
  shows "stands st (if st = Connected then drop r (q @ [m]) else q @ [m]) (if st = Connected then r - (length q + 1) else r) lwt
    (enqueue undrained m p)"
proof -
  have "stands st (q @ [m]) r lwt (buffer_message m p)" using assms by (simp add: stands_def buffer_message_def)
  then show ?thesis
    using stands_drain(1)[of st "q @ [m]" r lwt "buffer_message m p"] assms(1) by (auto simp: enqueue_def stands_def Let_def)
qed

lemma stands_buffered:
  "stands Reconnecting q r lwt p \<Longrightarrow> length q + length is \<le> 500
     \<Longrightarrow> stands Reconnecting (q @ map event_message is) r lwt (enqueue_all is p)"
proof (induction "is" arbitrary: q p)
  case (Cons i "is")
  then show ?case
    using stands_enqueue[OF Cons.prems(1), of "event_message i"] Cons.IH[of "q @ [event_message i]"] by (simp add: enqueue_all_def)
qed (simp add: enqueue_all_def)

lemma stands_connected:
  "stands Connected (drop r q) (r - length q) lwt p \<Longrightarrow> length q + length is \<le> 500
     \<Longrightarrow> stands Connected (drop r (q @ map event_message is)) (r - (length q + length is)) lwt (enqueue_all is p)"
proof (induction "is" arbitrary: q p)
  case (Cons i "is")
  have "drop (r - length q) (drop r q @ [event_message i]) = drop r (q @ [event_message i])"
    by (cases "length q \<le> r") simp_all
  moreover have "r - length q - (length (drop r q) + 1) = r - (length q + 1)" by auto
  ultimately have "stands Connected (drop r (q @ [event_message i])) (r - length (q @ [event_message i])) lwt
      (enqueue undrained (event_message i) p)"
    using stands_enqueue[OF Cons.prems(1), of "event_message i"] Cons.prems(2) by simp
  then show ?case using Cons.IH[of "q @ [event_message i]"] Cons.prems(2) by (simp add: enqueue_all_def)
qed (simp add: enqueue_all_def)

definition online_message :: "string \<Rightarrow> mqtt_message" where
  "online_message i = \<lparr>topic = availability_topic i, payload = ''online'', msg_qos = AtLeastOnce, retain = True\<rparr>"

lemma stands_connack:
  assumes "stands st q r (Some i) p"
  shows "stands Connected (drop r (online_message i # q)) (r - (length q + 1)) (Some i) (on_connack E undrained now p)"
    "r \<le> length q \<Longrightarrow> flush_in_progress (on_connack E undrained now p) \<noteq> None"
proof -
  let ?p = "set_state now Connected p" let ?p = "?p\<lparr>pub_backoff := reset (pub_backoff ?p)\<rparr>"
  let ?o = "?p\<lparr>buffer := online_message i # buffer ?p\<rparr>"
  have "stands Connected (online_message i # q) r (Some i) ?o" using assms by (simp add: stands_def set_state_def)
  note o = stands_drain(1)[OF this]
  have online: "publish_online undrained ?p = snd (drain_buffer undrained ?o)"
    using assms by (simp add: publish_online_def stands_def set_state_def online_message_def)
  let ?q = "publish_online undrained ?p"
  have "stands Connected (drop r (online_message i # q)) (r - (length q + 1)) (Some i) (?q\<lparr>flush_in_progress := Some 0\<rparr>)"
    using o online by (simp add: stands_def)
  note f = stands_drain[OF this]
  have "stands Connected (drop r (online_message i # q)) (r - (length q + 1)) (Some i) (flush_buffer undrained ?q)
      \<and> (r \<le> length q \<longrightarrow> flush_in_progress (flush_buffer undrained ?q) \<noteq> None)"
    using f o online by (auto simp: flush_buffer_def stands_def)
  then show "stands Connected (drop r (online_message i # q)) (r - (length q + 1)) (Some i) (on_connack E undrained now p)"
    "r \<le> length q \<Longrightarrow> flush_in_progress (on_connack E undrained now p) \<noteq> None"
    by (simp_all add: on_connack_def republish_snapshots_def try_subscribe_def stands_def Let_def)
qed

lemma connected_from_start: "stands Disconnected [] 10 lwt p \<Longrightarrow> stands Connected (drop 10 []) (10 - length []) lwt (p\<lparr>pub_state := Connected\<rparr>)"
  by (simp add: stands_def)

lemma nth_drop_upt: "k < n \<Longrightarrow> nth_opt 0 (drop k (map f [0..<n])) = Some (f k)"
  by (simp add: nth_opt_def)

lemma full_channel_test_passes: "enqueue_never_blocks_on_a_full_request_channel E e"
  unfolding enqueue_never_blocks_on_a_full_request_channel_def Let_def
proof (rule with_events)
  fix p assume "stands Disconnected [] 10 None p"
  from stands_connected[OF connected_from_start[OF this], of "[0..<REQUEST_CHANNEL_CAPACITY + 5]"]
  have "buffer (enqueue_all [0..<REQUEST_CHANNEL_CAPACITY + 5] (p\<lparr>pub_state := Connected\<rparr>)) = drop 10 (map event_message [0..<15])"
    by (simp add: stands_def REQUEST_CHANNEL_CAPACITY_def del: drop_map upt_rec_numeral)
  then show "length (buffer (enqueue_all [0..<REQUEST_CHANNEL_CAPACITY + 5] (p\<lparr>pub_state := Connected\<rparr>))) = 5
      \<and> map_option topic (nth_opt 0 (buffer (enqueue_all [0..<REQUEST_CHANNEL_CAPACITY + 5] (p\<lparr>pub_state := Connected\<rparr>))))
        = Some (topic (event_message REQUEST_CHANNEL_CAPACITY))"
    by (simp add: nth_drop_upt REQUEST_CHANNEL_CAPACITY_def del: drop_map upt_rec_numeral)
qed

lemma backlog_test_passes: "reconnect_with_a_backlog_larger_than_the_channel_returns E e now"
  unfolding reconnect_with_a_backlog_larger_than_the_channel_returns_def Let_def
proof (rule with_events)
  fix p assume "stands Disconnected [] 10 (Some ''CP'') p"
  then have "stands Reconnecting [] 10 (Some ''CP'') (p\<lparr>pub_state := Reconnecting\<rparr>)" by (simp add: stands_def)
  from stands_buffered[OF this, of "[0..<REQUEST_CHANNEL_CAPACITY + 4]"]
  have q: "stands Reconnecting (map event_message [0..<14]) 10 (Some ''CP'')
      (enqueue_all [0..<REQUEST_CHANNEL_CAPACITY + 4] (p\<lparr>pub_state := Reconnecting\<rparr>))"
    by (simp add: REQUEST_CHANNEL_CAPACITY_def del: upt_rec_numeral)
  let ?q = "enqueue_all [0..<REQUEST_CHANNEL_CAPACITY + 4] (p\<lparr>pub_state := Reconnecting\<rparr>)"
  have "drop 10 (online_message ''CP'' # map event_message [0..<14]) = drop 9 (map event_message [0..<14])" by simp
  with stands_connack[OF q, of E now]
  have "pub_state (on_connack E undrained now ?q) = Connected" "buffer (on_connack E undrained now ?q) = drop 9 (map event_message [0..<14])"
    "flush_in_progress (on_connack E undrained now ?q) \<noteq> None"
    by (simp_all add: stands_def del: upt_rec_numeral drop_map)
  moreover have "length (buffer ?q) = REQUEST_CHANNEL_CAPACITY + 4"
    using q by (simp add: stands_def REQUEST_CHANNEL_CAPACITY_def del: upt_rec_numeral)
  ultimately show "length (buffer ?q) = REQUEST_CHANNEL_CAPACITY + 4
      \<and> pub_state (on_connack E undrained now ?q) = Connected
      \<and> length (buffer (on_connack E undrained now ?q)) = REQUEST_CHANNEL_CAPACITY + 4 + 1 - REQUEST_CHANNEL_CAPACITY
      \<and> map_option topic (nth_opt 0 (buffer (on_connack E undrained now ?q))) = Some (topic (event_message (REQUEST_CHANNEL_CAPACITY - 1)))
      \<and> flush_in_progress (on_connack E undrained now ?q) \<noteq> None"
    by (simp add: nth_drop_upt REQUEST_CHANNEL_CAPACITY_def del: drop_map upt_rec_numeral)
qed

lemma online_test_passes: "online_goes_ahead_of_the_backlog E e now"
  unfolding online_goes_ahead_of_the_backlog_def Let_def
proof (rule with_events)
  fix p assume "stands Disconnected [] 10 (Some ''CP'') p"
  let ?q = "enqueue_all [0..<REQUEST_CHANNEL_CAPACITY] (p\<lparr>pub_state := Connected\<rparr>)"
  let ?m = "enqueue undrained (event_message 99) (?q\<lparr>pub_state := Reconnecting\<rparr>)"
  have q: "stands Connected [] 0 (Some ''CP'') ?q"
    using stands_connected[OF connected_from_start[OF \<open>stands Disconnected [] 10 (Some ''CP'') p\<close>], of "[0..<REQUEST_CHANNEL_CAPACITY]"]
    by (simp add: REQUEST_CHANNEL_CAPACITY_def del: upt_rec_numeral)
  then have "stands Reconnecting [] 0 (Some ''CP'') (?q\<lparr>pub_state := Reconnecting\<rparr>)" by (simp add: stands_def)
  from stands_enqueue[OF this, of "event_message 99"] have "stands Reconnecting [event_message 99] 0 (Some ''CP'') ?m" by simp
  from stands_connack(1)[OF this, of E now]
  have "buffer (on_connack E undrained now ?m) = [online_message ''CP'', event_message 99]" by (simp add: stands_def)
  moreover have printed99: "show_nat 99 = ''99''" by code_simp
  ultimately show "length (buffer ?q) = 0
      \<and> map topic (buffer (on_connack E undrained now ?m)) = [''ocpp/CP/availability'', ''ocpp/CP/charger/MeterValues99'']
      \<and> holds_of (nth_opt 0 (buffer (on_connack E undrained now ?m))) (\<lambda>online. payload online = ''online'' \<and> retain online)"
    using q printed99 by (simp add: stands_def online_message_def event_message_def wire_format nth_opt_def)
qed

lemma mirror_test_passes: "connection_state_is_mirrored_into_the_shared_manager E e now"
proof -
  have m: "shared_manager (set_state now s p) = map_option (transition now Mqtt s) (shared_manager p)" for s
    and p :: "(mqtt_message channel, command_request channel) publisher"
    by (simp add: set_state_def)
  have c: "shared_manager (on_connack E undrained now p) = map_option (transition now Mqtt Connected) (shared_manager p)"
    for p :: "(mqtt_message channel, command_request channel) publisher"
    using conn_view_connack[of E undrained now p] by (simp add: conn_view_def)
  show ?thesis
    unfolding connection_state_is_mirrored_into_the_shared_manager_def Let_def
    by (rule with_events) (simp add: m c with_state_manager_def transition_def manager_new_def Let_def)
qed

end
