(* ===== verification/Test_Health.thy ===== *)
theory Test_Health
  imports Test_Base Conn_State
begin

text \<open>
  The unit tests of \<open>src/health.rs\<close>, run on the model: the status code of \<open>GET /health\<close> and the fields of its body.
\<close>

definition oneshot :: "state_manager \<Rightarrow> duration \<Rightarrow> nat \<times> json" where
  "oneshot m elapsed = (let (code, body) = health_handler m elapsed in (code, health_json body))"

definition has_fields :: "json \<Rightarrow> (string \<times> string) list \<Rightarrow> bool" where
  "has_fields body = list_all (\<lambda>(key, value). get_key key body = Some (Str value))"

definition test_health_endpoint_returns_unhealthy_when_all_disconnected :: "duration \<Rightarrow> bool" where
  "test_health_endpoint_returns_unhealthy_when_all_disconnected elapsed \<longleftrightarrow>
     (let (code, health) = oneshot manager_new elapsed
      in code = 503
         \<and> has_fields health [(''status'', ''unhealthy''), (''upstream'', ''disconnected''), (''downstream'', ''disconnected''),
             (''mqtt'', ''disconnected'')])"

definition test_health_endpoint_returns_healthy_when_all_connected :: "utc \<Rightarrow> duration \<Rightarrow> bool" where
  "test_health_endpoint_returns_healthy_when_all_connected now elapsed \<longleftrightarrow>
     (let m = set_listener_bound True manager_new;
          m = transition now Upstream Connected m;
          m = transition now Downstream Connected m;
          m = transition now Mqtt Connected m;
          (code, health) = oneshot m elapsed
      in code = 200
         \<and> has_fields health [(''status'', ''healthy''), (''upstream'', ''connected''), (''downstream'', ''connected''),
             (''mqtt'', ''connected'')])"

definition test_health_endpoint_returns_degraded_when_mqtt_lost :: "utc \<Rightarrow> duration \<Rightarrow> bool" where
  "test_health_endpoint_returns_degraded_when_mqtt_lost now elapsed \<longleftrightarrow>
     (let m = set_listener_bound True manager_new;
          m = transition now Upstream Connected m;
          m = transition now Downstream Connected m;
          (code, health) = oneshot m elapsed
      in code = 200 \<and> has_fields health [(''status'', ''degraded'')])"

definition test_health_endpoint_returns_unhealthy_when_downstream_lost :: "utc \<Rightarrow> duration \<Rightarrow> bool" where
  "test_health_endpoint_returns_unhealthy_when_downstream_lost now elapsed \<longleftrightarrow>
     (let m = transition now Mqtt Connected (transition now Upstream Connected manager_new);
          (code, health) = oneshot m elapsed
      in code = 503 \<and> has_fields health [(''status'', ''unhealthy'')])"

definition test_health_endpoint_includes_uptime :: "duration \<Rightarrow> bool" where
  "test_health_endpoint_includes_uptime elapsed \<longleftrightarrow>
     (let (code, health) = oneshot manager_new elapsed
      in holds_of (get_key ''uptime_seconds'' health) (\<lambda>v. as_u64 v \<noteq> None))"

definition test_health_endpoint_includes_message_counters :: "duration \<Rightarrow> bool" where
  "test_health_endpoint_includes_message_counters elapsed \<longleftrightarrow>
     (let m = manager_new\<lparr>metrics := (metrics manager_new)\<lparr>charger_to_central_forwarded := 42, charger_to_central_dropped := 3,
                central_to_charger_forwarded := 38, central_to_charger_dropped := 1\<rparr>\<rparr>;
          (code, health) = oneshot m elapsed
      in holds_of (get_key ''messages'' health) (\<lambda>messages.
           get_key ''charger_to_central_forwarded'' messages = Some (Num (PosInt 42))
           \<and> get_key ''charger_to_central_dropped'' messages = Some (Num (PosInt 3))
           \<and> get_key ''central_to_charger_forwarded'' messages = Some (Num (PosInt 38))
           \<and> get_key ''central_to_charger_dropped'' messages = Some (Num (PosInt 1))))"

definition test_health_response_serialization_format :: bool where
  "test_health_response_serialization_format \<longleftrightarrow>
     (let response = \<lparr>hr_status = Healthy, hr_upstream = Connected, hr_downstream = Connected, hr_mqtt = Connected,
            hr_listening = True, hr_uptime_seconds = 120,
            hr_messages = \<lparr>charger_to_central_forwarded = 10, charger_to_central_dropped = 0,
              central_to_charger_forwarded = 8, central_to_charger_dropped = 0\<rparr>\<rparr>;
          v = health_json response
      in has_fields v [(''status'', ''healthy''), (''upstream'', ''connected''), (''downstream'', ''connected''), (''mqtt'', ''connected'')]
         \<and> get_key ''uptime_seconds'' v = Some (Num (PosInt 120))
         \<and> holds_of (get_key ''messages'' v) (\<lambda>messages.
             get_key ''charger_to_central_forwarded'' messages = Some (Num (PosInt 10))
             \<and> get_key ''charger_to_central_dropped'' messages = Some (Num (PosInt 0))
             \<and> get_key ''central_to_charger_forwarded'' messages = Some (Num (PosInt 8))
             \<and> get_key ''central_to_charger_dropped'' messages = Some (Num (PosInt 0))))"

definition test_health_endpoint_503_when_upstream_and_mqtt_lost :: "utc \<Rightarrow> duration \<Rightarrow> bool" where
  "test_health_endpoint_503_when_upstream_and_mqtt_lost now elapsed \<longleftrightarrow>
     (let (code, health) = oneshot (transition now Downstream Connected manager_new) elapsed
      in code = 503 \<and> has_fields health [(''status'', ''unhealthy'')])"

lemmas endpoint_simps = oneshot_def has_fields_def health_handler_def health_json_def counters_json_def health_status_of_def
  transition_def set_listener_bound_def manager_new_def Let_def

lemma endpoint_tests_pass:
  "test_health_endpoint_returns_unhealthy_when_all_disconnected elapsed"
  "test_health_endpoint_returns_healthy_when_all_connected now elapsed"
  "test_health_endpoint_returns_degraded_when_mqtt_lost now elapsed"
  "test_health_endpoint_returns_unhealthy_when_downstream_lost now elapsed"
  "test_health_endpoint_includes_message_counters elapsed"
  "test_health_response_serialization_format"
  "test_health_endpoint_503_when_upstream_and_mqtt_lost now elapsed"
  by (simp_all add: test_health_endpoint_returns_unhealthy_when_all_disconnected_def
      test_health_endpoint_returns_healthy_when_all_connected_def test_health_endpoint_returns_degraded_when_mqtt_lost_def
      test_health_endpoint_returns_unhealthy_when_downstream_lost_def test_health_endpoint_includes_message_counters_def
      test_health_response_serialization_format_def test_health_endpoint_503_when_upstream_and_mqtt_lost_def endpoint_simps)

lemma uptime_test_passes: "test_health_endpoint_includes_uptime elapsed"
  by (simp add: test_health_endpoint_includes_uptime_def endpoint_simps)

end
