(* ===== verification/Test_Settings.thy ===== *)
theory Test_Settings
  imports Test_Base Settings
begin

text \<open>
  The unit tests of \<open>src/config.rs\<close>, run on the model. The temporary files exist and can be read; the \<open>config\<close> crate's
  reading of YAML is not replayed.
\<close>

section \<open>Validation\<close>

definition valid_config :: "string \<Rightarrow> string \<Rightarrow> string \<Rightarrow> proxy_config" where
  "valid_config ca_path cert_path key_path =
     \<lparr>central_system_url = ''wss://mobi-e.example.com/ocpp'', listen_port = 9000, listen_address = default_listen_address,
      upstream_bind_address = None, charge_point_id_setting = None, health_port = 8080,
      mqtt = \<lparr>mqtt_host = ''mqtt.example.com'', mqtt_port = 8883, mqtt_username = ''user'', mqtt_password = ''pass'',
        ca_cert_path = Some ca_path, client_cert_path = Some cert_path, client_key_path = Some key_path\<rparr>,
      logging_level = LogInfo, buffers = buffer_config_default, state_file = default_state_file, charging = charging_config_default\<rparr>"

definition create_temp_cert_files :: file_probe where
  "create_temp_cert_files =
     (let exist = (\<lambda>p. p \<in> set [''/tmp/ca'', ''/tmp/cert'', ''/tmp/key'']) in \<lparr>path_exists = exist, path_opens = exist\<rparr>)"

definition temp_config :: proxy_config where
  "temp_config = valid_config ''/tmp/ca'' ''/tmp/cert'' ''/tmp/key''"

definition reports :: "ext \<Rightarrow> proxy_config \<Rightarrow> string \<Rightarrow> bool" where
  "reports E c needle = list_ex (\<lambda>e. contains e needle) (validate E create_temp_cert_files c)"

definition test_valid_config_passes_validation :: "ext \<Rightarrow> bool" where
  "test_valid_config_passes_validation E \<longleftrightarrow> validate E create_temp_cert_files temp_config = []"

definition test_listen_port_zero_rejected :: "ext \<Rightarrow> bool" where
  "test_listen_port_zero_rejected E \<longleftrightarrow> reports E (temp_config\<lparr>listen_port := 0\<rparr>) ''listen_port''"

definition test_health_port_zero_rejected :: "ext \<Rightarrow> bool" where
  "test_health_port_zero_rejected E \<longleftrightarrow> reports E (temp_config\<lparr>health_port := 0\<rparr>) ''health_port''"

definition test_invalid_url_scheme_http :: "ext \<Rightarrow> bool" where
  "test_invalid_url_scheme_http E \<longleftrightarrow>
     reports E (temp_config\<lparr>central_system_url := ''http://example.com/ocpp''\<rparr>) ''central_system_url''"

definition test_invalid_url_scheme_empty :: "ext \<Rightarrow> bool" where
  "test_invalid_url_scheme_empty E \<longleftrightarrow> reports E (temp_config\<lparr>central_system_url := []\<rparr>) ''central_system_url''"

definition test_ws_scheme_accepted :: "ext \<Rightarrow> bool" where
  "test_ws_scheme_accepted E \<longleftrightarrow>
     \<not> reports E (temp_config\<lparr>central_system_url := ''ws://example.com/ocpp''\<rparr>) ''central_system_url''"

definition test_wss_scheme_accepted :: "ext \<Rightarrow> bool" where
  "test_wss_scheme_accepted E \<longleftrightarrow> \<not> reports E temp_config ''central_system_url''"

definition test_mqtt_port_zero_rejected :: "ext \<Rightarrow> bool" where
  "test_mqtt_port_zero_rejected E \<longleftrightarrow>
     reports E (temp_config\<lparr>mqtt := (mqtt temp_config)\<lparr>mqtt_port := 0\<rparr>\<rparr>) ''mqtt.port''"

definition test_nonexistent_ca_cert_path_rejected :: "ext \<Rightarrow> bool" where
  "test_nonexistent_ca_cert_path_rejected E \<longleftrightarrow>
     reports E (valid_config ''/nonexistent/ca.pem'' ''/tmp/cert'' ''/tmp/key'') ''ca_cert_path''"

definition test_nonexistent_client_cert_path_rejected :: "ext \<Rightarrow> bool" where
  "test_nonexistent_client_cert_path_rejected E \<longleftrightarrow>
     reports E (valid_config ''/tmp/ca'' ''/nonexistent/client.pem'' ''/tmp/key'') ''client_cert_path''"

definition test_nonexistent_client_key_path_rejected :: "ext \<Rightarrow> bool" where
  "test_nonexistent_client_key_path_rejected E \<longleftrightarrow>
     reports E (valid_config ''/tmp/ca'' ''/tmp/cert'' ''/nonexistent/key.pem'') ''client_key_path''"

definition test_multiple_errors_reported_together :: "ext \<Rightarrow> bool" where
  "test_multiple_errors_reported_together E \<longleftrightarrow>
     (let config = \<lparr>central_system_url = ''http://bad.com'', listen_port = 0, listen_address = default_listen_address,
            upstream_bind_address = None, charge_point_id_setting = None, health_port = 0,
            mqtt = \<lparr>mqtt_host = ''localhost'', mqtt_port = 0, mqtt_username = ''user'', mqtt_password = ''pass'',
              ca_cert_path = Some ''/nonexistent/ca.pem'', client_cert_path = Some ''/nonexistent/cert.pem'',
              client_key_path = Some ''/nonexistent/key.pem''\<rparr>,
            logging_level = default_log_level, buffers = buffer_config_default, state_file = default_state_file,
            charging = charging_config_default\<rparr>
      in 5 \<le> length (validate E create_temp_cert_files config)
         \<and> list_all (reports E config) [''listen_port'', ''health_port'', ''central_system_url'', ''mqtt.port'', ''ca_cert_path'',
             ''client_cert_path'', ''client_key_path''])"

lemma charging_default_valid: "charging_validate E charging_config_default = []"
  by (simp add: charging_validate_def charging_config_default_def report_def is_finite_def)

lemmas validate_simps = reports_def validate_def temp_config_def valid_config_def create_temp_cert_files_def check_path_def
  charging_default_valid tls_enabled_def client_auth_enabled_def report_def starts_with_def Let_def

lemma validation_tests_pass:
  "test_valid_config_passes_validation E" "test_listen_port_zero_rejected E" "test_health_port_zero_rejected E"
  "test_invalid_url_scheme_http E" "test_invalid_url_scheme_empty E" "test_ws_scheme_accepted E" "test_wss_scheme_accepted E"
  "test_mqtt_port_zero_rejected E" "test_nonexistent_ca_cert_path_rejected E" "test_nonexistent_client_cert_path_rejected E"
  "test_nonexistent_client_key_path_rejected E" "test_multiple_errors_reported_together E"
  by (simp_all add: test_valid_config_passes_validation_def test_listen_port_zero_rejected_def test_health_port_zero_rejected_def
      test_invalid_url_scheme_http_def test_invalid_url_scheme_empty_def test_ws_scheme_accepted_def test_wss_scheme_accepted_def
      test_mqtt_port_zero_rejected_def test_nonexistent_ca_cert_path_rejected_def test_nonexistent_client_cert_path_rejected_def
      test_nonexistent_client_key_path_rejected_def test_multiple_errors_reported_together_def validate_simps)

section \<open>Defaults\<close>

definition test_default_log_level_is_info :: bool where
  "test_default_log_level_is_info \<longleftrightarrow> default_log_level = LogInfo"

definition test_default_buffer_config :: bool where
  "test_default_buffer_config \<longleftrightarrow>
     message_buffer_size buffer_config_default = 100 \<and> mqtt_buffer_size buffer_config_default = 500
     \<and> max_backoff_seconds buffer_config_default = 60"

definition test_log_level_display :: bool where
  "test_log_level_display \<longleftrightarrow>
     show_log_level LogDebug = ''DEBUG'' \<and> show_log_level LogInfo = ''INFO'' \<and> show_log_level LogWarning = ''WARNING''
     \<and> show_log_level LogError = ''ERROR''"

definition test_default_health_port :: bool where
  "test_default_health_port \<longleftrightarrow> default_health_port = 8080"

definition test_charging_is_off_by_default_with_sane_limits :: "ext \<Rightarrow> bool" where
  "test_charging_is_off_by_default_with_sane_limits E \<longleftrightarrow>
     (let c = charging_config_default
      in \<not> enabled c \<and> max_limit_a c = Fin 32 \<and> min_limit_a c = Fin 6 \<and> connector_id c = 0 \<and> purpose c = TxDefaultProfile
         \<and> profile_kind c = Absolute \<and> rate_unit c = UnitA \<and> number_phases c = Some 1 \<and> command_timeout c = from_secs 30
         \<and> reapply_on_connect c
         \<and> list_ex (\<lambda>k. k = ''MeterValueSampleInterval'') (allowed_configuration_keys c)
         \<and> \<not> list_ex (\<lambda>k. contains k ''Authorize'') (allowed_configuration_keys c)
         \<and> charging_validate E c = [])"

lemma default_tests_pass:
  "test_default_log_level_is_info" "test_default_buffer_config" "test_log_level_display" "test_default_health_port"
  "test_charging_is_off_by_default_with_sane_limits E"
  by (simp_all add: test_default_log_level_is_info_def default_log_level_def test_default_buffer_config_def buffer_config_default_def
      default_message_buffer_def default_mqtt_buffer_def default_max_backoff_def test_log_level_display_def
      test_default_health_port_def default_health_port_def test_charging_is_off_by_default_with_sane_limits_def
      charging_default_valid)
    (simp_all add: charging_config_default_def command_timeout_def default_allowed_configuration_keys_def starts_with_def)

section \<open>Charging\<close>

definition charging_reports :: "ext \<Rightarrow> charging_config \<Rightarrow> string \<Rightarrow> bool" where
  "charging_reports E c needle = list_ex (\<lambda>e. contains e needle) (charging_validate E c)"

definition test_charging_validation_rejects_nonsense :: "ext \<Rightarrow> bool" where
  "test_charging_validation_rejects_nonsense E \<longleftrightarrow>
     (let bad = charging_config_default\<lparr>max_limit_a := Fin 0, min_limit_a := Fin (- 1), profile_id := 0, number_phases := Some 4,
            nominal_voltage_v := Fin 12, command_timeout_seconds := 0\<rparr>;
          inverted = charging_config_default\<lparr>min_limit_a := Fin 20, max_limit_a := Fin 16\<rparr>;
          wrong_connector = charging_config_default\<lparr>purpose := ChargePointMaxProfile, connector_id := 1\<rparr>
      in list_all (charging_reports E bad) [''charging.max_limit_a'', ''charging.min_limit_a'', ''charging.profile_id'',
           ''charging.number_phases'', ''charging.nominal_voltage_v'', ''charging.command_timeout_seconds'']
         \<and> charging_reports E inverted ''must not exceed''
         \<and> charging_reports E wrong_connector ''must be 0 for ChargePointMaxProfile'')"

definition test_charging_errors_surface_through_the_top_level_validate :: "ext \<Rightarrow> bool" where
  "test_charging_errors_surface_through_the_top_level_validate E \<longleftrightarrow>
     reports E (temp_config\<lparr>charging := (charging temp_config)\<lparr>max_limit_a := Fin 500\<rparr>\<rparr>) ''charging.max_limit_a''"

lemma charging_tests_pass:
  "test_charging_validation_rejects_nonsense E" "test_charging_errors_surface_through_the_top_level_validate E"
  by (simp_all add: test_charging_validation_rejects_nonsense_def test_charging_errors_surface_through_the_top_level_validate_def
      charging_reports_def charging_validate_def charging_config_default_def is_finite_def contains_right validate_simps)

section \<open>Loading\<close>

text \<open>A file with nothing but a port: the shadow struct lacks every other required parameter.\<close>

definition test_load_missing_required_field_fails ::
    "ext \<Rightarrow> file_probe \<Rightarrow> (raw_proxy_config \<Rightarrow> string + proxy_config) \<Rightarrow> bool" where
  "test_load_missing_required_field_fails E P de_config \<longleftrightarrow>
     fails (load_settings E P Some de_config
         (Inr \<lparr>raw_central_system_url = None, raw_listen_port = Some 9000, raw_mqtt = None\<rparr>))
       (\<lambda>err. category err = ''config'')"

lemma loading_test_passes: "test_load_missing_required_field_fails E P de_config"
  by (simp add: test_load_missing_required_field_fails_def load_settings_def missing_required_def report_def)

end
