(* ===== verification/Test_Server.thy ===== *)
theory Test_Server
  imports Test_Base Takeover Lifecycle
begin

text \<open>
  The unit tests of \<open>src/downstream.rs\<close> and \<open>src/shutdown.rs\<close>, run on the model. A cancellation token is a number in the
  table of connections and a flag in the coordinator, whose clones share it.
\<close>

section \<open>Subprotocols\<close>

definition test_validate_subprotocol_with_ocpp16 :: bool where
  "test_validate_subprotocol_with_ocpp16 \<longleftrightarrow> validate_subprotocol [''ocpp1.6'']"

definition test_validate_subprotocol_with_multiple_including_ocpp16 :: bool where
  "test_validate_subprotocol_with_multiple_including_ocpp16 \<longleftrightarrow> validate_subprotocol [''ocpp2.0'', ''ocpp1.6'', ''custom'']"

definition test_validate_subprotocol_without_ocpp16 :: bool where
  "test_validate_subprotocol_without_ocpp16 \<longleftrightarrow> \<not> validate_subprotocol [''ocpp2.0'', ''custom'']"

definition test_validate_subprotocol_empty_list :: bool where
  "test_validate_subprotocol_empty_list \<longleftrightarrow> \<not> validate_subprotocol []"

definition test_validate_subprotocol_case_sensitive :: bool where
  "test_validate_subprotocol_case_sensitive \<longleftrightarrow> \<not> validate_subprotocol [''OCPP1.6'']"

definition test_validate_subprotocol_similar_strings :: bool where
  "test_validate_subprotocol_similar_strings \<longleftrightarrow> \<not> validate_subprotocol [''ocpp1.6j'', ''ocpp1.6.1'', ''ocpp16'']"

definition test_validate_subprotocol_with_whitespace_in_value :: bool where
  "test_validate_subprotocol_with_whitespace_in_value \<longleftrightarrow> validate_subprotocol [''ocpp1.6'']"

definition test_validate_subprotocol_partial_match :: bool where
  "test_validate_subprotocol_partial_match \<longleftrightarrow> \<not> validate_subprotocol [''ocpp1.'', ''1.6'']"

lemma subprotocol_tests_pass:
  "test_validate_subprotocol_with_ocpp16" "test_validate_subprotocol_with_multiple_including_ocpp16"
  "test_validate_subprotocol_without_ocpp16" "test_validate_subprotocol_empty_list" "test_validate_subprotocol_case_sensitive"
  "test_validate_subprotocol_similar_strings" "test_validate_subprotocol_with_whitespace_in_value"
  "test_validate_subprotocol_partial_match"
  by (simp_all add: test_validate_subprotocol_with_ocpp16_def test_validate_subprotocol_with_multiple_including_ocpp16_def
      test_validate_subprotocol_without_ocpp16_def test_validate_subprotocol_empty_list_def
      test_validate_subprotocol_case_sensitive_def test_validate_subprotocol_similar_strings_def
      test_validate_subprotocol_with_whitespace_in_value_def test_validate_subprotocol_partial_match_def
      validate_subprotocol_def OCPP16_SUBPROTOCOL_def)

definition test_parse_subprotocol_header_single :: bool where
  "test_parse_subprotocol_header_single \<longleftrightarrow> parse_subprotocol_header ''ocpp1.6'' = [''ocpp1.6'']"

definition test_parse_subprotocol_header_multiple :: bool where
  "test_parse_subprotocol_header_multiple \<longleftrightarrow>
     parse_subprotocol_header ''ocpp1.6, ocpp2.0, custom'' = [''ocpp1.6'', ''ocpp2.0'', ''custom'']"

definition test_parse_subprotocol_header_with_extra_spaces :: bool where
  "test_parse_subprotocol_header_with_extra_spaces \<longleftrightarrow>
     parse_subprotocol_header ''  ocpp1.6 ,  ocpp2.0  '' = [''ocpp1.6'', ''ocpp2.0'']"

definition test_parse_subprotocol_header_empty :: bool where
  "test_parse_subprotocol_header_empty \<longleftrightarrow> parse_subprotocol_header [] = []"

definition test_parse_subprotocol_header_single_with_whitespace :: bool where
  "test_parse_subprotocol_header_single_with_whitespace \<longleftrightarrow> parse_subprotocol_header ''  ocpp1.6  '' = [''ocpp1.6'']"

definition test_parse_subprotocol_header_commas_only :: bool where
  "test_parse_subprotocol_header_commas_only \<longleftrightarrow> parse_subprotocol_header '',,,'' = []"

lemma header_tests_pass:
  "test_parse_subprotocol_header_single" "test_parse_subprotocol_header_multiple"
  "test_parse_subprotocol_header_with_extra_spaces" "test_parse_subprotocol_header_empty"
  "test_parse_subprotocol_header_single_with_whitespace" "test_parse_subprotocol_header_commas_only"
  by code_simp+

section \<open>The table of connections\<close>

definition downstream_start :: "unit downstream_state" where
  "downstream_start =
     \<lparr>connections = Map.empty, ds_manager = manager_new, ds_mqtt_tx = (channel_new 32)\<lparr>closed := True\<rparr>, next_generation = 1,
      cancelled = [], ds_router = Map.empty\<rparr>"

definition test_downstream_state_construction :: bool where
  "test_downstream_state_construction \<longleftrightarrow> connections downstream_start = Map.empty"

text \<open>Token 1 is the first connection's, token 2 its replacement's.\<close>

definition test_replacing_a_connection_cancels_the_old_one :: bool where
  "test_replacing_a_connection_cancels_the_old_one \<longleftrightarrow>
     (let st = insert_connection ''CP1'' 2 2 (insert_connection ''CP1'' 1 1 downstream_start)
      in 1 \<in> set (cancelled st) \<and> 2 \<notin> set (cancelled st))"

definition test_displaced_connection_does_not_deregister_its_replacement :: bool where
  "test_displaced_connection_does_not_deregister_its_replacement \<longleftrightarrow>
     (let st = insert_connection ''CP1'' 2 2 (insert_connection ''CP1'' 1 1 downstream_start);
          st = snd (deregister_connection ''CP1'' 1 st)
      in holds_of (connections st ''CP1'') (\<lambda>active. ac_generation active = 2))"

lemma table_tests_pass:
  "test_downstream_state_construction" "test_replacing_a_connection_cancels_the_old_one"
  "test_displaced_connection_does_not_deregister_its_replacement"
  by (simp_all add: test_downstream_state_construction_def test_replacing_a_connection_cancels_the_old_one_def
      test_displaced_connection_does_not_deregister_its_replacement_def downstream_start_def insert_connection_def
      deregister_connection_def)

section \<open>Shutdown\<close>

definition test_shutdown_coordinator_new :: bool where
  "test_shutdown_coordinator_new \<longleftrightarrow> \<not> is_shutting_down coordinator_new"

definition test_shutdown_coordinator_default :: bool where
  "test_shutdown_coordinator_default \<longleftrightarrow> \<not> is_shutting_down coordinator_new"

definition test_initiate_shutdown_cancels_token :: bool where
  "test_initiate_shutdown_cancels_token \<longleftrightarrow>
     \<not> is_shutting_down coordinator_new \<and> is_shutting_down (initiate_shutdown coordinator_new)"

definition test_token_clone_shares_state :: bool where
  "test_token_clone_shares_state \<longleftrightarrow>
     \<not> token_cancelled coordinator_new \<and> token_cancelled (initiate_shutdown coordinator_new)"

text \<open>The start-up timeout is the copy of the constant that \<open>main\<close> uses.\<close>

definition test_constants :: bool where
  "test_constants \<longleftrightarrow>
     INFLIGHT_TIMEOUT = from_secs 10 \<and> CLOSE_ACK_TIMEOUT = from_secs 5 \<and> MQTT_STARTUP_TIMEOUT = from_secs 10"

lemma shutdown_tests_pass:
  "test_shutdown_coordinator_new" "test_shutdown_coordinator_default" "test_initiate_shutdown_cancels_token"
  "test_token_clone_shares_state" "test_constants"
  by (simp_all add: test_shutdown_coordinator_new_def test_shutdown_coordinator_default_def test_initiate_shutdown_cancels_token_def
      test_token_clone_shares_state_def test_constants_def is_shutting_down_def coordinator_new_def initiate_shutdown_def
      INFLIGHT_TIMEOUT_def CLOSE_ACK_TIMEOUT_def MQTT_STARTUP_TIMEOUT_def)

end
