(* ===== verification/Spec2Isabelle.thy ===== *)
theory Spec2Isabelle
  imports Divergences Whole_State Whole_Journey Whole_Properties Fleet_Properties
    Test_Commands Test_Forwarder Test_Publisher Test_Health Test_Settings Test_Server
begin

text \<open>
  ocpp-proxy is a transparent proxy between electric-vehicle chargers and a Central System that
  speak OCPP 1.6J over WebSockets. It relays every frame unchanged, mirrors the traffic to an MQTT
  broker for Home Assistant and, if the operator allows it, sends commands of its own to the
  charger, above all current limits. This development models the Rust crate under \<open>src/src\<close> and
  proves what makes it correct.

  \<^bold>\<open>The parts of the program.\<close> The downstream server accepts a charger, enters it in a table of
  connections and in the command router and runs a session for it. The session connects to the Central
  System, relays in both directions through a forwarder, keeps a queue of proxy Calls and reconnects
  with backoff inside a bounded window. Forwarder and session hand events to the MQTT publisher
  through a bounded channel that is never waited on. The publisher folds the traffic into one snapshot per
  charge point, persists and publishes it, and hands commands received from the broker to the session
  through the router. A shared state manager carries the connection states and counters to the
  health endpoint.

  \<^bold>\<open>The theories, in the order of their imports.\<close>

  \<^item> \<open>F64\<close>: IEEE 754 binary64 as exact rationals with round-to-nearest-even, as far as the program
    computes with doubles, and \<open>Duration\<close> as nanoseconds.
  \<^item> \<open>Prelude\<close>: the shared types, the string and number functions of the standard library, bounded
    channels, the evicting buffer and the flushing loop. The locales here state the interfaces:
    \<open>outlet\<close> (a sink that takes a message or leaves its history alone), \<open>evicting_buffer\<close> (a bounded
    queue that drops its oldest entry) and \<open>generation_registry\<close> (a table whose entries are removed only by the
    generation that made them). Each is interpreted where the code provides it: on the forwarder's two
    buffers and the publisher's one, on the channel sinks, on the command router and on the
    connection table.
  \<^item> \<open>Json\<close>: JSON values, and \<open>ext\<close>, the record of what other crates compute (parsing, printing, time
    formats). What is needed of them is the hypothesis \<open>faithful_on\<close>: a value printed reads back.
    \<open>table_ext\<close> is a concrete instance, used in the witnesses.
  \<^item> \<open>Models\<close> (\<open>models.rs\<close>, \<open>error.rs\<close>): frames, their parser, errors, backoff.
  \<^item> \<open>Conn_State\<close> (\<open>state.rs\<close>, \<open>health.rs\<close>): the state manager and the health answer.
  \<^item> \<open>Settings\<close> (\<open>config.rs\<close>): defaults, validation, loading.
  \<^item> \<open>Commands\<close>, \<open>Command_Facts\<close>, \<open>Local_Calls\<close> (\<open>command.rs\<close>): topics, payloads, the limit policy, the Calls
    built, the reading of answers; the queue of proxy Calls and the router.
  \<^item> \<open>Forwarder\<close> (\<open>forwarder.rs\<close>): call tracking, forwarding, buffering, replay, eviction.
  \<^item> \<open>Session\<close> (\<open>session.rs\<close>), with its lemmas in \<open>Session_Facts\<close> (what handlers leave alone, accounting of
    commands), \<open>Session_Relay\<close> (what one event owes each side) and \<open>Session_Properties\<close>.
  \<^item> \<open>Snapshot\<close> (\<open>ChargePointState\<close> of \<open>mqtt.rs\<close>, \<open>snapshot_store.rs\<close>): folding, JSON form, the store on a
    disk whose operations may fail or be cut off.
  \<^item> \<open>Publisher\<close>, \<open>Publisher_Facts\<close> (the rest of \<open>mqtt.rs\<close>): construction, connection, commands, results,
    events, buffer, loop.
  \<^item> \<open>Downstream\<close> (\<open>downstream.rs\<close>): the upgrade handler and, as interleaved tasks, \<open>handle_connection\<close>.
  \<^item> \<open>Upstream\<close> (\<open>upstream.rs\<close>): the URL and the connection attempt.
  \<^item> \<open>Logging\<close> (\<open>logging.rs\<close>, the log lines of \<open>shutdown.rs\<close> and \<open>main.rs\<close>): the filter, and log entries as values.
  \<^item> \<open>Lifecycle\<close> (\<open>shutdown.rs\<close>, \<open>main.rs\<close>): start-up checks, wiring, the listeners, the whole start-up log, signals,
    publisher thread, drain and the end of \<open>main\<close>.
  \<^item> \<open>Takeover\<close>: generations and cancellation when a charger connects again before its old connection has gone,
    over the tasks of \<open>Downstream\<close>.
  \<^item> \<open>Session_Waits\<close>: \<open>run_session\<close> cut at the points where it waits. \<open>session_round_failed\<close>,
    \<open>session_round_attempt\<close> and \<open>teardown_wind_down\<close> tie the pieces to the definitions of \<open>Session\<close>.
  \<^item> \<open>Ledger\<close>: the specification of the whole, a system whose moves are labelled with what an observer sees (a connection
    opens, a command is accepted, answered, a session shuts, is over). The locale \<open>simulation\<close> turns a step-by-step correspondence
    into inclusion of traces. \<open>ledger_balances\<close> and \<open>shut_means_answered\<close> say what the specification rules out.
  \<^item> \<open>Fleet\<close>: any number of connection handlers with their real sessions, interleaved, connections of one charger
    overlapping; the channels of the router outlive their entries. \<open>Fleet_Facts\<close> has the locale \<open>fleet_law\<close> of what every
    step keeps, interpreted for the connection table and its entries, for the agreement of sessions with their connections
    and for the account of commands; \<open>Fleet_End\<close> how a connection ends and why a stopped fleet never gets stuck;
    \<open>Fleet_Ledger\<close> says what is visible of a step and that every event of the fleet is a trace of the ledger; \<open>Fleet_Example\<close> holds the run the witnesses start from and
    \<open>Fleet_Properties\<close> the conclusions.
  \<^item> \<open>Whole\<close>: that fleet and the publisher's thread, from what \<open>main\<close> starts over the start-up connect and the loop to the
    thread's end, over the state manager, the event channel and the router they share. Every step of the whole is a run
    of the fleet (\<open>whole_implements_fleet\<close>), so the invariants of the fleet hold of it. \<open>Whole_Example\<close> has a proxy of a
    concrete configuration.
  \<^item> \<open>Whole_Invariant\<close>: the locale \<open>whole_law\<close>, in which what each handler keeps of a session's own part and of the
    shared parts becomes an invariant of the running proxy. \<open>Whole_State\<close> interprets it for queues, buffers, connection
    states, their history and the backoffs. \<open>Whole_Limits\<close> has the locale \<open>limit_law\<close>, what the policy promises of a
    resolved limit, which as a \<open>whole_law\<close> is carried through every step; it is interpreted for the finiteness and
    for the configured range of a limit.
  \<^item> \<open>Whole_Journey\<close>: one command from the broker to the charger and its answer back into the snapshot.
    \<open>Whole_Properties\<close> interprets \<open>simulation\<close> on the running proxy: its traces are traces of the ledger. It also has
    coming to rest, and the command that is lost.
  \<^item> \<open>Divergences\<close>: the small facts behind the places where code and comments differ.
  \<^item> \<open>Test_*\<close>: 189 unit tests of the crate run on the model. A definition is one test: its inputs, its calls, its
    assertions; a lemma says that the model passes, at every clock reading. They tie the definitions to behaviour the
    authors wrote down. What serde_json makes of a JSON text is a premise there. \<open>Test_Base\<close> has the shared helpers.

  \<^bold>\<open>How code becomes definitions.\<close> A struct is a record, an enum a datatype, \<open>u64\<close> a 64-bit word, a
  counter of elements a natural number, \<open>i64\<close> an integer with its wrap-around written out. A
  method that takes \<open>&mut self\<close> returns the updated record; a \<open>Result\<close> is a sum with the error on the
  left. An async function is split where it waits: what arrives (a socket message, a command, a tick,
  a cancellation, the outcome of a connection attempt) is an event with the clock reading, and
  \<open>forward_loop\<close>, \<open>session_rounds\<close> and \<open>run_publisher\<close> consume lists of such events. Their statements hold for
  every list, so no ordering chosen by \<open>select!\<close> is excluded; \<open>Waiting\<close> means the list ended before the loop
  did. There is no fuel: \<open>send_queued\<close>, the one loop that is not structural, terminates because the queue
  shrinks. A panic is the value \<open>None\<close>. Each handler reads the clock once.

  \<^bold>\<open>What is shown.\<close> Of a session: every command it takes is answered exactly once, whatever happens;
  the Central System receives the charger's frames unchanged, in order and without the answers to the
  proxy's own Calls, the charger those of the Central System and, when the tracker shows a clear line and no proxy Call is
  outstanding, a proxy Call; buffered frames are replayed before new ones; the charger is sent a close frame when the
  reconnection window has passed. Here and below a command is answered when its result is handed to the event channel with
  \<open>try_send\<close>; a channel that is full or closed refuses it, and \<open>reported\<close>, \<open>answered\<close> and the ledger's \<open>Answers\<close> count it all the same.
  Of the publisher: each command message is answered or delivered; messages leave in
  order and a backlog drains; a standing limit is sent again when the link comes up. Of the running proxy, from what \<open>main\<close> starts and with overlapping
  connections: what an observer sees of it is a trace of a ledger in which commands are accepted, taken in order and answered
  once, and no session shuts before it has answered all it was handed; an invariant of queues, buffers and state history holds throughout and the
  health endpoint sees the publisher's real state; no handler panics; a command reaches the charger and its outcome the
  snapshot; snapshots keep their types and no limit outside the policy is ever in force; once stopped, it can always come to rest
  in a bounded number of steps, with table and router empty. Of commands: topics, JSON and frames round-trip, the limit
  policy holds, guarded commands are refused. Of the store: saving is atomic and restores. Of
  overlapping connections of one charger at most one is not cancelled, a cancelled session ends
  at its next turn and no command it was handed while it served is lost by the change. Of start-up: the proxy starts
  exactly when it can serve, and the log tells the whole of it. Across components, at the end of this theory: an accepted limit survives a
  restart of the proxy, a proxy with commands disabled never subscribes, and shutdown is bounded up to the join of the publisher's thread.
  Five properties record defects: rounding can exceed the configured ceiling, a failed limit command
  ends the standing limit, an interleaving of two connections makes a live charger unreachable, a displaced
  session marks the upstream of its successor as down, and a
  command that arrives between the end of a session's teardown and the removal of its registration is lost.

  \<^bold>\<open>What is not modelled.\<close> The log statements inside the handlers, formatting and output of logs, the tokio
  runtime, the delivery of signals, and the inside of other crates: WebSockets, TLS, the MQTT client, serde, configuration
  sources. Where the code depends on what these return, it is an argument. In \<open>Fleet\<close> and \<open>Whole\<close> a handler
  runs without interruption between two waits, where the code also waits for the lock of the state manager; a poll of
  the MQTT client frees any room in its request channel; and the publisher's loop ends only by the token, because \<open>main\<close>
  keeps a sender of its channel until after the token is set. Not replayed are unit tests of other crates' types, of decimal
  doubles, of sockets, of the wall clock and of the tokio runtime, and those that only show that a log line can be written. The crate root declares modules; the integration tests, the packaging and the prose are
  not part of the program.

  \<^bold>\<open>What the plan has left.\<close> The relay of frames (proved of a session on its own) and the observations of the drain (proved of
  \<open>main_stop\<close>) restated for the running proxy; the ordering of published messages across a reconnect there.
\<close>

section \<open>Properties that span components\<close>

text \<open>
  C8: With a state file configured and re-application switched on, an accepted current limit survives a restart of the
  proxy. Once the result of a limit command says that the charger accepted a limit by SetChargingProfile, and that limit is
  not the one that stood before, a publisher built later over the same state file hands that limit to
  the charger's session, the first time both links of the charger are reported up, and not again while they stay up. Assumed are: a state file
  path and a disk that does not fail; a JSON codec that reads back what it wrote and prints the status message; snapshots with
  finite limits and 64-bit integers; a new publisher that can be built, commands enabled (it has the router) and
  \<open>reapply_on_connect\<close> set; and a session registered for the charger whose command channel accepts.
\<close>

theorem limit_survives_restart:
  assumes "is_limit_result r" "res_status r = Accepted" "res_action r = Some ''SetChargingProfile''"
    and "applied_limit_a r = Some a" "standing_limit cp (snapshots p) \<noteq> Some a"
    and "p' = publish_command_result E A now cp r p"
    and "store_path (pub_store p) = Some path" "faults (pub_disk p) = []"
    and "\<forall>(k, s) \<in> set (snapshots p'). state_safe s" "faithful_on E (map_json (snapshots p'))"
    and "publisher_new E read mk mc lwt n (pub_store p) (pub_disk p') = Inr q"
    and "reapply_on_connect c" "router cp = Some reg" "fst (send_command A (tx reg) req) = Inr ()"
    and "to_str E (status_payload_json Connected Connected) = Inr bytes"
    and "req = request_new later (''reapply-'' @ show_int (timestamp_millis later)) (SetCurrentLimit a) SourceReapply"
    and "q' = handle_event E A later (StateChanged cp Connected Connected) (with_command_router router c q)"
  shows "pub_router q' = Some (router(cp \<mapsto> reg\<lparr>tx := snd (send_command A (tx reg) req)\<rparr>))
    \<and> pub_router (handle_event E A again (StateChanged cp Connected Connected) q') = pub_router q'"
proof -
  have saved: "standing_limit cp (snapshots p') = Some a"
      "pub_disk p' = store_save E (pub_store p) (snapshots p') (pub_disk p)"
    using accepted_limit_saved[OF assms(1-6)] by simp_all
  have q: "snapshots q = store_load E (pub_store p) (pub_disk p')" "link_state q = Map.empty"
    using assms(11) by (auto simp: publisher_new_def split: sum.splits)
  have "map_of (snapshots q) = map_of (snapshots p')"
    using load_after_save[OF assms(7-10)] q saved(2) by simp
  with saved(1) have "standing_limit cp (snapshots (with_command_router router c q)) = Some a"
    by (simp add: standing_limit_def with_command_router_def)
  moreover have "link_state (with_command_router router c q) cp \<noteq> Some (Connected, Connected)"
    using q by (simp add: with_command_router_def)
  ultimately show ?thesis
    using assms(12-17) reapply_on_link_up[of "with_command_router router c q" cp c a router reg A req E bytes later q' again]
    by (simp add: with_command_router_def)
qed

definition accepted_demo :: command_result where
  "accepted_demo =
     (result_for_request demo_ext 5 (request_new 5 ''r1'' (SetCurrentLimit (Fin 10)) SourceMqtt) Accepted None)
       \<lparr>res_action := Some ''SetChargingProfile'', applied_limit_a := Some (Fin 10)\<rparr>"

definition restart_snapshots :: snapshot_map where
  "restart_snapshots =
     [(''CP1'', state_default\<lparr>current_limit_a := Some (Fin 10), current_limit_status := Some ''accepted'',
        current_limit_updated := Some (show_int 5), last_updated := Some (show_int 5)\<rparr>)]"

definition restart_codec :: ext where
  "restart_codec = table_ext
     [(''doc'', map_json restart_snapshots), (''up'', status_payload_json Connected Connected)]"

definition restart_publisher :: "(mqtt_request channel, command_request channel) publisher" where
  "restart_publisher = demo_publisher\<lparr>pub_store := \<lparr>store_path = Some ''/state.json''\<rparr>\<rparr>"

lemma restart_demo_snapshots:
  "snapshots (publish_command_result restart_codec channel_api 5 ''CP1'' accepted_demo restart_publisher) = restart_snapshots"
  by (simp add: publish_command_result_def update_snapshot_def Let_def entry_or_default_def restart_publisher_def
      demo_publisher_def apply_command_result_def accepted_demo_def is_limit_result_def result_for_request_def
      request_new_def state_eq_def opt_f64_eq_def f64_eq_def restart_snapshots_def restart_codec_def table_ext_def
      split: sum.splits prod.splits)

theorem limit_survives_restart_witness:
  "\<exists>q. publisher_new restart_codec (\<lambda>_. Inl ''no file'') (\<lambda>_ k. channel_new k) demo_mqtt None 500
        \<lparr>store_path = Some ''/state.json''\<rparr>
        (pub_disk (publish_command_result restart_codec channel_api 5 ''CP1'' accepted_demo restart_publisher)) = Inr q
    \<and> pub_router (handle_event restart_codec channel_api 9 (StateChanged ''CP1'' Connected Connected)
        (with_command_router [''CP1'' \<mapsto> \<lparr>generation = 1, tx = channel_new 32\<rparr>] charging_config_default q))
      = Some [''CP1'' \<mapsto> \<lparr>generation = 1, tx = snd (try_send (channel_new 32)
          (request_new 9 (''reapply-'' @ show_int (timestamp_millis 9)) (SetCurrentLimit (Fin 10)) SourceReapply))\<rparr>]"
proof -
  let ?p' = "publish_command_result restart_codec channel_api 5 ''CP1'' accepted_demo restart_publisher"
  let ?new = "publisher_new restart_codec (\<lambda>_. Inl ''no file'') (\<lambda>_ k. channel_new k) demo_mqtt None 500
        \<lparr>store_path = Some ''/state.json''\<rparr> (pub_disk ?p') :: proxy_error + (mqtt_request channel, command_request channel) publisher"
  obtain q where q: "?new = Inr q"
    by (auto simp: publisher_new_def connect_options_def build_tls_config_def demo_mqtt_def)
  have limit: "is_limit_result accepted_demo" "res_status accepted_demo = Accepted"
      "res_action accepted_demo = Some ''SetChargingProfile''" "applied_limit_a accepted_demo = Some (Fin 10)"
    by (simp_all add: accepted_demo_def is_limit_result_def result_for_request_def request_new_def)
  have start: "standing_limit ''CP1'' (snapshots restart_publisher) \<noteq> Some (Fin 10)"
      "store_path (pub_store restart_publisher) = Some ''/state.json''" "faults (pub_disk restart_publisher) = []"
    by (simp_all add: restart_publisher_def demo_publisher_def standing_limit_def)
  have safe: "\<forall>(k, s) \<in> set (snapshots ?p'). state_safe s" "faithful_on restart_codec (map_json (snapshots ?p'))"
    unfolding restart_demo_snapshots
    by (auto simp: restart_snapshots_def state_safe_def state_fits_def state_default_def i64_ok_def is_finite_def
        faithful_on_def restart_codec_def table_ext_def)
  have up: "to_str restart_codec (status_payload_json Connected Connected) = Inr ''up''"
    by (simp add: restart_codec_def table_ext_def map_json_def status_payload_json_def restart_snapshots_def)
  have new: "publisher_new restart_codec (\<lambda>_. Inl ''no file'') (\<lambda>_ k. channel_new k) demo_mqtt None 500
      (pub_store restart_publisher) (pub_disk ?p') = Inr q"
    using q by (simp add: restart_publisher_def)
  show ?thesis
    using q limit_survives_restart[OF limit start(1) refl start(2,3) safe new, of charging_config_default
        "[''CP1'' \<mapsto> \<lparr>generation = 1, tx = channel_new 32\<rparr>]" "\<lparr>generation = 1, tx = channel_new 32\<rparr>", OF _ _ _ up refl refl]
    by (simp add: charging_config_default_def channel_api_def try_send_def channel_new_def Let_def)
qed

text \<open>
  C25: With charger commands disabled the proxy is deaf to command topics: from start-up to the end of the
  publisher's thread, whatever the broker and the sessions do, no subscription is ever handed to
  the MQTT client.
\<close>

theorem disabled_proxy_never_subscribes:
  assumes "\<not> enabled (charging c)" "build_publisher E read mk c d m router = Inr p"
    and "\<And>opts n. passed (mk opts n) = []"
    and "mqtt_thread E channel_api now startup_cancelled attempts inputs p = Some p'"
  shows "SubscribeRequest fs \<notin> set (passed (client p'))"
  using muted_thread[OF muted_built[OF assms(1-3)] assms(4)] by (simp add: muted_def)

theorem disabled_proxy_never_subscribes_witness:
  "\<not> enabled (charging demo_proxy_config)
   \<and> (\<exists>p p'. build_publisher demo_ext (\<lambda>_. Inl ''no file'') (\<lambda>_ k. channel_new k) demo_proxy_config
            \<lparr>files = Map.empty, faults = []\<rparr> manager_new Map.empty = Inr p
        \<and> mqtt_thread demo_ext channel_api 0 False [(1, Some PollConnAck)]
             [(1, Poll PollOther), (2, Recv (Some (StateChanged ''CP1'' Connected Connected)))] p = Some p'
        \<and> SubscribeRequest COMMAND_SUBSCRIPTIONS \<notin> set (passed (client p')))"
proof -
  let ?build = "build_publisher demo_ext (\<lambda>_. Inl ''no file'') (\<lambda>_ k. channel_new k) demo_proxy_config
            \<lparr>files = Map.empty, faults = []\<rparr> manager_new Map.empty :: proxy_error + (mqtt_request channel, command_request channel) publisher"
  have off: "\<not> enabled (charging demo_proxy_config)"
    by (simp add: demo_proxy_config_def charging_config_default_def)
  obtain p where p: "?build = Inr p"
    by (auto simp: build_publisher_def publisher_new_def connect_options_def build_tls_config_def demo_proxy_config_def Let_def)
  obtain p' where p': "mqtt_thread demo_ext channel_api 0 False [(1, Some PollConnAck)]
      [(1, Poll PollOther), (2, Recv (Some (StateChanged ''CP1'' Connected Connected)))] p = Some p'"
    by (auto simp: mqtt_thread_def try_connect_def run_step_def)
  show ?thesis
    using off p p' disabled_proxy_never_subscribes[OF off p _ p', of COMMAND_SUBSCRIPTIONS] by (auto simp: channel_new_def)
qed

text \<open>
  C35: Shutdown is bounded up to the join of the publisher's thread. When the turns of the drain loop are at least 100 ms apart,
  the drain is over after at most 101 of them, cleanly only if no connection was left at some turn, and sessions are
  given up only if some remain once the ten seconds have passed; the health endpoint answers 503 from its first moment, whatever
  the connections' states do. Then \<open>main\<close> comes to its end exactly if the join returns, whatever the join returns: a thread that
  never ended would hang it. (That the thread can end at once when the token is set is part of C26.)
\<close>

theorem shutdown_drain_ends:
  assumes "\<forall>k < length obs. t0 + from_millis (100 * k) \<le> snd (obs ! k)" "100 < length obs"
  shows "\<exists>e. (\<forall>joined. main_stop t0 obs joined m = map_option (\<lambda>j. (begin_drain m,
        [main_entry LogInfo [] ''Draining'', e, join_publisher j, main_entry LogInfo [] ''OCPP Proxy shutdown complete''])) joined)
    \<and> (drain_entry DrainedCleanly = Some e \<and> (\<exists>t. (0, t) \<in> set obs)
       \<or> (\<exists>n t. drain_entry (Abandoned n) = Some e \<and> (n, t) \<in> set obs \<and> 0 < n \<and> t0 + from_secs 10 \<le> t))
    \<and> (\<forall>ts. fst (health_handler (transitions ts (begin_drain m)) uptime) = 503)"
  using drain_ends[OF assms] drain_abandons_only_late[of "t0 + from_secs 10" obs] drain_clean_seen[of "t0 + from_secs 10" obs]
  by (cases "drain_loop (t0 + from_secs 10) obs")
    (auto simp: main_stop_def drain_entry_def draining_503 split: option.split)

theorem shutdown_drain_ends_witness:
  "(\<exists>l. main_stop 0 (map (\<lambda>k. (2, from_millis (100 * k))) [0..<101]) (Some (Inr (Inr ()))) manager_new = Some (begin_drain manager_new, l))
   \<and> main_stop 0 (map (\<lambda>k. (2, from_millis (100 * k))) [0..<101]) None manager_new = None"
  using shutdown_drain_ends[of "map (\<lambda>k. (2, from_millis (100 * k))) [0..<101]" 0 manager_new 0]
  by (auto simp del: upt_Suc upt_rec_numeral)

end
